(* ===== verification/Go_Prelude.thy ===== *)
theory Go_Prelude
  imports Main "HOL-Library.Word" "HOL-Library.AList" "HOL-Library.Sublist"
begin

text \<open>
  What every component of the model shares: Go's machine integers, byte strings and the functions
  of the standard packages \<open>strings\<close> and \<open>strconv\<close> that the program calls, error values, the
  result of a call that may panic, association lists standing for Go maps, and the generic lemmas
  the component proofs rest on.
\<close>

named_theorems go_word \<open>reading the result of a machine operation as an integer\<close>
named_theorems go_str \<open>characterisations of the string functions\<close>

section \<open>Machine integers\<close>

text \<open>
  \<open>int\<close> is 64 bits wide on the platforms the program is built for (\<open>GOARCH=amd64\<close>). A conversion
  to a narrower type keeps the low bits; a conversion to a wider one keeps the signed value.
\<close>

type_synonym int16 = "16 word"
type_synonym int32 = "32 word"
type_synonym int64 = "64 word"

definition to_int32 :: "int64 \<Rightarrow> int32" where
  "to_int32 n = ucast n"

definition to_int16 :: "int32 \<Rightarrow> int16" where
  "to_int16 n = ucast n"

definition widen :: "int32 \<Rightarrow> int64" where
  "widen n = scast n"

lemma sint32_range: "- (2 ^ 31) \<le> sint (a :: int32) \<and> sint (a :: int32) < 2 ^ 31"
  using sint_ge [of a] sint_lt [of a] by simp

lemma sint32_bounds [intro]:
  "sint (a :: int32) \<le> 2147483647" "- 2147483648 \<le> sint (a :: int32)"
  using sint32_range [of a] by simp_all

lemma sint64_bounds [intro]:
  "sint (a :: int64) \<le> 9223372036854775807" "- 9223372036854775808 \<le> sint (a :: int64)"
  using sint_ge [of a] sint_lt [of a] by simp_all

lemma sint32_sub [go_word]:
  assumes "- 2147483648 \<le> sint a - sint b" and "sint a - sint b \<le> 2147483647"
  shows "sint ((a :: int32) - b) = sint a - sint b"
  using assms by (simp add: sint_word_ariths signed_take_bit_int_eq_self)

lemma sint32_add [go_word]:
  assumes "- 2147483648 \<le> sint a + sint b" and "sint a + sint b \<le> 2147483647"
  shows "sint ((a :: int32) + b) = sint a + sint b"
  using assms by (simp add: sint_word_ariths signed_take_bit_int_eq_self)

lemma sint32_mult [go_word]:
  assumes "- 2147483648 \<le> sint a * sint b" and "sint a * sint b \<le> 2147483647"
  shows "sint ((a :: int32) * b) = sint a * sint b"
  using assms by (simp add: sint_word_ariths signed_take_bit_int_eq_self)

lemma sint_to_int32 [go_word]:
  assumes "- 2147483648 \<le> sint n" and "sint n \<le> 2147483647"
  shows "sint (to_int32 n) = sint n"
proof -
  have "sint (to_int32 n) = signed_take_bit 31 (sint n)"
    unfolding to_int32_def by transfer (simp add: signed_take_bit_take_bit signed_take_bit_signed_take_bit)
  with assms show ?thesis by (simp add: signed_take_bit_int_eq_self)
qed

lemma sint_word_of_nat [go_word]: "int n < 2 ^ 63 \<Longrightarrow> sint (word_of_nat n :: int64) = int n"
  by transfer (simp add: signed_take_bit_int_eq_self)

lemma sint_widen [go_word]: "sint (widen n) = sint n"
  by (simp add: widen_def sint_up_scast is_up.rep_eq)

section \<open>Errors, panics and results\<close>

text \<open>
  An error value keeps how it was built: an \<open>errkit.Error\<close> constant or a third-party error is its
  text, \<open>errkit.Concat\<close> pairs a cause with its context, and the handlers of
  \<open>flow/on_grpc_error.go\<close> wrap an error in a gRPC status. A \<open>nil\<close> error is \<^const>\<open>None\<close>, and a
  function that returns a value and an error returns \<^const>\<open>Inl\<close> of the error or \<^const>\<open>Inr\<close>
  of the value.
\<close>

datatype grpc_code = ResourceExhausted | InvalidArgument | FailedPrecondition | Unavailable

datatype error =
    Err string
  | Concat error error
  | Status grpc_code error

text \<open>A call either returns or panics (nil dereference, slice bounds, \<open>MustCompile\<close>, explicit).\<close>

datatype 'a go = Ret 'a | Panic string

fun go_bind :: "'a go \<Rightarrow> ('a \<Rightarrow> 'b go) \<Rightarrow> 'b go" where
  "go_bind (Ret x) f = f x"
| "go_bind (Panic p) f = Panic p"

lemma go_bind_Ret_iff:
  "go_bind m f = Ret y \<longleftrightarrow> (\<exists>x. m = Ret x \<and> f x = Ret y)"
  by (cases m) auto

lemma go_bind_assoc [simp]: "go_bind (go_bind m f) g = go_bind m (\<lambda>x. go_bind (f x) g)"
  by (cases m) auto

section \<open>State machines\<close>

text \<open>
  Goroutines are interleaved steps of one state. The states a machine can be in are those reached
  from its initial states; an invariant is proved once, for one step.
\<close>

inductive reach :: "('s \<Rightarrow> bool) \<Rightarrow> ('s \<Rightarrow> 's \<Rightarrow> bool) \<Rightarrow> 's \<Rightarrow> bool"
  for init :: "'s \<Rightarrow> bool" and step :: "'s \<Rightarrow> 's \<Rightarrow> bool" where
  reach_init: "init s \<Longrightarrow> reach init step s"
| reach_step: "reach init step s \<Longrightarrow> step s t \<Longrightarrow> reach init step t"

lemma reach_steps: "step\<^sup>*\<^sup>* s t \<Longrightarrow> reach init step s \<Longrightarrow> reach init step t"
  by (induction rule: rtranclp_induct) (auto intro: reach_step)

locale state_machine =
  fixes init :: "'s \<Rightarrow> bool"
    and step :: "'s \<Rightarrow> 's \<Rightarrow> bool"
    and inv :: "'s \<Rightarrow> bool"
  assumes inv_init: "init s \<Longrightarrow> inv s"
    and inv_step: "inv s \<Longrightarrow> step s t \<Longrightarrow> inv t"
begin

lemma inv_reach: "reach init step s \<Longrightarrow> inv s"
  by (induction rule: reach.induct) (auto intro: inv_init inv_step)

lemma inv_steps: "step\<^sup>*\<^sup>* s t \<Longrightarrow> inv s \<Longrightarrow> inv t"
  by (induction rule: rtranclp_induct) (auto intro: inv_step)

end

text \<open>What one thread contributes to a log that says for each entry whose it is.\<close>

definition partOf :: "'i \<Rightarrow> ('i \<times> 'a) list \<Rightarrow> 'a list" where
  "partOf i log = map snd (filter (\<lambda>p. fst p = i) log)"

lemma partOf_Nil [simp]: "partOf i [] = []"
  by (simp add: partOf_def)

lemma partOf_append [simp]: "partOf i (log @ log') = partOf i log @ partOf i log'"
  by (simp add: partOf_def)

lemma partOf_Pair [simp]: "partOf i (map (Pair j) xs) = (if i = j then xs else [])"
  by (induction xs) (auto simp: partOf_def)

text \<open>A total over the threads \<open>j < n\<close> of what each contributes, when thread \<open>i\<close> moves.\<close>

lemma sum_fun_upd:
  fixes f :: "nat \<Rightarrow> 'p \<Rightarrow> 'a :: ab_group_add"
  assumes "i < n"
  shows "(\<Sum>j<n. f j ((p(i := v)) j)) = (\<Sum>j<n. f j (p j)) - f i (p i) + f i v"
proof -
  have "(\<Sum>j<n. f j (q j)) = f i (q i) + (\<Sum>j\<in>{..<n} - {i}. f j (q j))" for q
    using assms by (simp add: sum.remove)
  from this [of "p(i := v)"] this [of p] show ?thesis by simp
qed

section \<open>Retrying until a call succeeds\<close>

text \<open>
  The loop that \<open>initProducer\<close> and \<open>initKafkaAdmin\<close> of \<open>flow/grpc_producer.go\<close> and \<open>initAdmin\<close> of
  \<open>flow/barito_consumer_service.go\<close> share: call \<open>mk\<close>, count the attempt, and on failure run
  \<open>onFail\<close> (the metric) and sleep, unless a positive limit is reached. Limit 0 retries without end,
  so the loop may not return: \<^const>\<open>None\<close>. The result carries the number of attempts.
\<close>

definition ErrKafkaRetryLimitReached :: error where
  "ErrKafkaRetryLimitReached = Err ''Error connecting to kafka, retry limit reached''"

partial_function (option) retryLoop ::
    "('w \<Rightarrow> (error + 'a) \<times> 'w) \<Rightarrow> ('w \<Rightarrow> 'w) \<Rightarrow> ('w \<Rightarrow> 'w) \<Rightarrow> int \<Rightarrow> int \<Rightarrow> 'w
     \<Rightarrow> ((error + 'a) \<times> int \<times> 'w) option" where
  "retryLoop mk onFail sleep maxRetry retry w =
     (case mk w of
        (Inr a, w1) \<Rightarrow> Some (Inr a, retry + 1, w1)
      | (Inl e, w1) \<Rightarrow>
          if maxRetry = 0 \<or> retry + 1 < maxRetry
          then retryLoop mk onFail sleep maxRetry (retry + 1) (sleep (onFail w1))
          else Some (Inl ErrKafkaRetryLimitReached, retry + 1, onFail w1))"

text \<open>The world before attempt \<open>n\<close> (from 0), when every attempt before it failed.\<close>

fun attempt :: "('w \<Rightarrow> (error + 'a) \<times> 'w) \<Rightarrow> ('w \<Rightarrow> 'w) \<Rightarrow> ('w \<Rightarrow> 'w) \<Rightarrow> nat \<Rightarrow> 'w \<Rightarrow> 'w" where
  "attempt mk onFail sleep 0 w = w"
| "attempt mk onFail sleep (Suc n) w = attempt mk onFail sleep n (sleep (onFail (snd (mk w))))"

definition failsAt :: "('w \<Rightarrow> (error + 'a) \<times> 'w) \<Rightarrow> ('w \<Rightarrow> 'w) \<Rightarrow> ('w \<Rightarrow> 'w) \<Rightarrow> nat \<Rightarrow> 'w \<Rightarrow> bool" where
  "failsAt mk onFail sleep n w \<longleftrightarrow> isl (fst (mk (attempt mk onFail sleep n w)))"

lemma failsAt_Suc:
  "failsAt mk onFail sleep (Suc n) w = failsAt mk onFail sleep n (sleep (onFail (snd (mk w))))"
  by (simp add: failsAt_def)

lemma retryLoop_fail:
  assumes "isl (fst (mk w))" and "maxRetry = 0 \<or> retry + 1 < maxRetry"
  shows "retryLoop mk onFail sleep maxRetry retry w =
    retryLoop mk onFail sleep maxRetry (retry + 1) (sleep (onFail (snd (mk w))))"
  using assms by (subst retryLoop.simps) (auto split: prod.splits sum.splits)

text \<open>The first attempt that succeeds within the limit is the result.\<close>

lemma retryLoop_success:
  assumes "\<forall>i<n. failsAt mk onFail sleep i w"
    and "mk (attempt mk onFail sleep n w) = (Inr a, w')"
    and "maxRetry = 0 \<or> retry + int n < maxRetry"
  shows "retryLoop mk onFail sleep maxRetry retry w = Some (Inr a, retry + int n + 1, w')"
  using assms
proof (induction n arbitrary: retry w)
  case 0
  then show ?case by (subst retryLoop.simps) simp
next
  case (Suc n)
  let ?w = "sleep (onFail (snd (mk w)))"
  have fails: "\<forall>i<n. failsAt mk onFail sleep i ?w"
    using Suc.prems(1) by (auto simp flip: failsAt_Suc)
  have "retryLoop mk onFail sleep maxRetry (retry + 1) ?w = Some (Inr a, retry + 1 + int n + 1, w')"
    using Suc.prems(2,3) by (intro Suc.IH fails) auto
  moreover have "isl (fst (mk w))" using Suc.prems(1) by (auto simp: failsAt_def)
  ultimately show ?case using Suc.prems(3) by (subst retryLoop_fail) auto
qed

text \<open>With a limit the loop always returns, after at most \<open>maxRetry\<close> attempts (one, if negative).\<close>

lemma retryLoop_limit:
  assumes "\<forall>i\<le>n. failsAt mk onFail sleep i w" and "retry + int n + 1 = maxRetry" and "0 < maxRetry"
  shows "retryLoop mk onFail sleep maxRetry retry w =
    Some (Inl ErrKafkaRetryLimitReached, maxRetry,
          onFail (snd (mk (attempt mk onFail sleep n w))))"
  using assms
proof (induction n arbitrary: retry w)
  case 0
  then show ?case by (subst retryLoop.simps) (auto simp: failsAt_def split: prod.splits sum.splits)
next
  case (Suc n)
  let ?w = "sleep (onFail (snd (mk w)))"
  have fails: "\<forall>i\<le>n. failsAt mk onFail sleep i ?w"
    using Suc.prems(1) by (auto simp flip: failsAt_Suc)
  have "isl (fst (mk w))" using Suc.prems(1) by (auto simp: failsAt_def)
  moreover have "retryLoop mk onFail sleep maxRetry (retry + 1) ?w =
    Some (Inl ErrKafkaRetryLimitReached, maxRetry, onFail (snd (mk (attempt mk onFail sleep n ?w))))"
    using Suc.prems(2,3) by (intro Suc.IH fails) auto
  ultimately show ?case using Suc.prems(2,3) by (subst retryLoop_fail) auto
qed

text \<open>Without a limit, and with a service that never answers, the loop does not return.\<close>

lemma retryLoop_diverges:
  assumes "\<And>i. failsAt mk onFail sleep i w"
  shows "retryLoop mk onFail sleep 0 retry w = None"
proof (cases "retryLoop mk onFail sleep 0 retry w")
  case (Some r)
  have "(0::int) = 0 \<longrightarrow> \<not> (\<forall>i. failsAt mk onFail sleep i w)"
  proof (rule retryLoop.raw_induct [where P = "\<lambda>mk onFail sleep m retry w r.
      m = 0 \<longrightarrow> \<not> (\<forall>i. failsAt mk onFail sleep i w)", OF _ Some])
    fix loop mk onFail sleep m retry w r
    assume IH: "\<And>mk onFail sleep m retry w r. loop mk onFail sleep m retry w = Some r \<Longrightarrow>
        m = 0 \<longrightarrow> \<not> (\<forall>i. failsAt mk onFail sleep i w)"
      and eq: "(case mk w of (Inl e, w1) \<Rightarrow>
          if m = 0 \<or> retry + 1 < m then loop mk onFail sleep m (retry + 1) (sleep (onFail w1))
          else Some (Inl ErrKafkaRetryLimitReached, retry + 1, onFail w1)
        | (Inr a, w1) \<Rightarrow> Some (Inr a, retry + 1, w1)) = Some r"
    show "m = 0 \<longrightarrow> \<not> (\<forall>i. failsAt mk onFail sleep i w)"
    proof (intro impI notI)
      assume m: "m = 0" and all: "\<forall>i. failsAt mk onFail sleep i w"
      have "isl (fst (mk w))" using all by (auto simp: failsAt_def dest: spec [of _ 0])
      with eq m have "loop mk onFail sleep m (retry + 1) (sleep (onFail (snd (mk w)))) = Some r"
        by (auto split: prod.splits sum.splits)
      with IH m have "\<not> (\<forall>i. failsAt mk onFail sleep i (sleep (onFail (snd (mk w)))))" by blast
      with all show False by (simp flip: failsAt_Suc)
    qed
  qed
  with assms show ?thesis by simp
qed

lemma retryLoop_attempts:
  assumes "retryLoop mk onFail sleep maxRetry retry w = Some (r, n, w')"
  shows "retry < n \<and> (0 < maxRetry \<and> retry < maxRetry \<longrightarrow> n \<le> maxRetry)"
proof -
  have "retry < fst (snd (r, n, w')) \<and> (0 < maxRetry \<and> retry < maxRetry \<longrightarrow> fst (snd (r, n, w')) \<le> maxRetry)"
  proof (rule retryLoop.raw_induct [where P = "\<lambda>mk onFail sleep maxRetry retry w x. retry < fst (snd x) \<and>
      (0 < maxRetry \<and> retry < maxRetry \<longrightarrow> fst (snd x) \<le> maxRetry)", OF _ assms], goal_cases)
    case (1 loop mk onFail sleep m retry w x)
    from 1(2) show ?case
      by (auto split: prod.splits sum.splits if_splits dest: 1(1))
  qed
  then show ?thesis by simp
qed

text \<open>What every attempt keeps is kept by the loop, and a successful loop ends with a successful attempt.\<close>

lemma retryLoop_invariant:
  assumes "retryLoop mk onFail sleep maxRetry n w = Some (r, m, w')"
    and "P w" and "\<And>w. P w \<Longrightarrow> P (snd (mk w))" and "\<And>w. P w \<Longrightarrow> P (onFail w)" and "\<And>w. P w \<Longrightarrow> P (sleep w)"
  shows "P w' \<and> (\<forall>a. r = Inr a \<longrightarrow> (\<exists>v. P v \<and> mk v = (Inr a, w')))"
proof -
  let ?Q = "\<lambda>w x. P w \<longrightarrow> P (snd (snd x)) \<and> (\<forall>a. fst x = Inr a \<longrightarrow> (\<exists>v. P v \<and> mk v = (Inr a, snd (snd x))))"
  have "(mk, onFail, sleep) = (mk, onFail, sleep) \<longrightarrow> ?Q w (r, m, w')"
  proof (rule retryLoop.raw_induct [where P = "\<lambda>mk' onFail' sleep' maxRetry n w x.
      (mk', onFail', sleep') = (mk, onFail, sleep) \<longrightarrow> ?Q w x", OF _ assms(1)], goal_cases)
    case (1 loop mk' onFail' sleep' k n w x)
    show ?case
    proof (intro impI)
      assume same: "(mk', onFail', sleep') = (mk, onFail, sleep)" and P: "P w"
      obtain y w1 where w1: "mk w = (y, w1)" by fastforce
      have P1: "P w1" using assms(3) [OF P] w1 by simp
      have IH: "loop mk onFail sleep k n' v = Some x \<Longrightarrow> ?Q v x" for n' v using 1(1) by blast
      show "P (snd (snd x)) \<and> (\<forall>a. fst x = Inr a \<longrightarrow> (\<exists>v. P v \<and> mk v = (Inr a, snd (snd x))))"
        using 1(2) same w1 P P1 assms(4) [OF P1] IH [of "n + 1" "sleep (onFail w1)"] assms(5) [of "onFail w1"]
        by (cases y) (auto split: if_splits)
    qed
  qed
  with assms(2) show ?thesis by simp
qed

end
