(* ===== verification/Convert.thy ===== *)
theory Convert
  imports Go_Strings
begin

text \<open>
  The messages of the program and the conversions of \<open>flow/convert.go\<close>. The protobuf types come from
  the generated package \<open>barito-proto\<close>: the records hold the fields the program reads, a nil pointer is
  \<^const>\<open>None\<close>, and the getters are nil-safe as generated getters are. The codecs of other packages
  (protobuf, \<open>jsonpb\<close>, \<open>encoding/json\<close>) are arguments of the conversions that call them.
\<close>

section \<open>Data\<close>

record TimberContext =
  KafkaTopic :: string
  KafkaPartition :: int32
  KafkaReplicationFactor :: int32
  EsIndexPrefix :: string
  EsDocumentType :: string
  AppMaxTps :: int32
  AppSecret :: string
  DisableAppTps :: bool
  AppGroupMaxTps :: int32

text \<open>
  \<open>structpb.Value\<close>: a number is the bit pattern of its \<open>float64\<close>. A struct's field map may be nil, and
  so may a value in it; the entries of the map are listed, the first entry of a key counts.
\<close>

datatype pvalue =
    NullValue
  | NumberValue int64
  | StringValue string
  | BoolValue bool
  | StructValue "(string \<times> pvalue option) list option"
  | ListValue "pvalue list"

type_synonym fields = "(string \<times> pvalue option) list"

record Timber =
  tContext :: "TimberContext option"
  tTimestamp :: string
  tContent :: "fields option option"

record TimberCollection =
  cContext :: "TimberContext option"
  cItems :: "Timber list"

definition GetKafkaTopic :: "TimberContext option \<Rightarrow> string" where
  "GetKafkaTopic c = (case c of None \<Rightarrow> [] | Some x \<Rightarrow> KafkaTopic x)"

definition GetKafkaPartition :: "TimberContext option \<Rightarrow> int32" where
  "GetKafkaPartition c = (case c of None \<Rightarrow> 0 | Some x \<Rightarrow> KafkaPartition x)"

definition GetKafkaReplicationFactor :: "TimberContext option \<Rightarrow> int32" where
  "GetKafkaReplicationFactor c = (case c of None \<Rightarrow> 0 | Some x \<Rightarrow> KafkaReplicationFactor x)"

definition GetEsIndexPrefix :: "TimberContext option \<Rightarrow> string" where
  "GetEsIndexPrefix c = (case c of None \<Rightarrow> [] | Some x \<Rightarrow> EsIndexPrefix x)"

definition GetAppSecret :: "TimberContext option \<Rightarrow> string" where
  "GetAppSecret c = (case c of None \<Rightarrow> [] | Some x \<Rightarrow> AppSecret x)"

definition GetAppMaxTps :: "TimberContext option \<Rightarrow> int32" where
  "GetAppMaxTps c = (case c of None \<Rightarrow> 0 | Some x \<Rightarrow> AppMaxTps x)"

definition GetDisableAppTps :: "TimberContext option \<Rightarrow> bool" where
  "GetDisableAppTps c = (case c of None \<Rightarrow> False | Some x \<Rightarrow> DisableAppTps x)"

definition GetAppGroupMaxTps :: "TimberContext option \<Rightarrow> int32" where
  "GetAppGroupMaxTps c = (case c of None \<Rightarrow> 0 | Some x \<Rightarrow> AppGroupMaxTps x)"

text \<open>\<open>m[key]\<close> for a map of pointers, and the getters of a value that may be nil.\<close>

definition field :: "fields \<Rightarrow> string \<Rightarrow> pvalue option" where
  "field fs k = (case map_of fs k of None \<Rightarrow> None | Some v \<Rightarrow> v)"

fun GetStringValue :: "pvalue option \<Rightarrow> string" where
  "GetStringValue (Some (StringValue s)) = s"
| "GetStringValue _ = []"

text \<open>\<open>GetStructValue().Fields\<close> dereferences a nil struct when the value is not a struct.\<close>

fun structFields :: "pvalue \<Rightarrow> fields go" where
  "structFields (StructValue (Some fs)) = Ret fs"
| "structFields (StructValue None) = Ret []"
| "structFields _ = Panic ''nil pointer dereference''"

section \<open>Kafka messages\<close>

record ProducerMessage =
  pmTopic :: string
  pmValue :: string
  pmHeaders :: "(string \<times> string) list"

record ConsumerMessage =
  cmTopic :: string
  cmValue :: string
  cmHeaders :: "(string \<times> string) list"
  cmOffset :: int

definition MessageFormatHeaderKey :: string where
  "MessageFormatHeaderKey = ''message_format''"

definition TimberCollectionMessageFormat :: string where
  "TimberCollectionMessageFormat = ''TimberCollection''"

definition TimberMessageFormat :: string where
  "TimberMessageFormat = ''Timber''"

definition ProtoParseError :: error where
  "ProtoParseError = Err ''Protobuf Parse Error''"

definition TimberContentMissing :: error where
  "TimberContentMissing = Err ''Timber Content Missing Error''"

definition TimberFieldsMissing :: error where
  "TimberFieldsMissing = Err ''Timber Field Missing Error''"

text \<open>
  \<open>proto.Marshal\<close> returns bytes and an error, which the program discards; \<open>proto.Unmarshal\<close> returns an
  error or fills the message.
\<close>

type_synonym 't marshal = "'t \<Rightarrow> string \<times> error option"
type_synonym 't unmarshal = "string \<Rightarrow> error + 't"

definition ConvertTimberToKafkaMessage :: "Timber marshal \<Rightarrow> Timber \<Rightarrow> string \<Rightarrow> ProducerMessage" where
  "ConvertTimberToKafkaMessage marshal timber topic =
     \<lparr>pmTopic = topic, pmValue = fst (marshal timber), pmHeaders = []\<rparr>"

definition ConvertTimberCollectionToKafkaMessage ::
    "TimberCollection marshal \<Rightarrow> TimberCollection \<Rightarrow> string \<Rightarrow> ProducerMessage" where
  "ConvertTimberCollectionToKafkaMessage marshal timberCollection topic =
     \<lparr>pmTopic = topic, pmValue = fst (marshal timberCollection),
      pmHeaders = [(MessageFormatHeaderKey, TimberCollectionMessageFormat)]\<rparr>"

definition ConvertKafkaMessageToTimber :: "Timber unmarshal \<Rightarrow> ConsumerMessage \<Rightarrow> error + Timber" where
  "ConvertKafkaMessageToTimber unmarshal message =
     (case unmarshal (cmValue message) of Inl e \<Rightarrow> Inl (Concat ProtoParseError e) | Inr t \<Rightarrow> Inr t)"

definition ConvertKafkaMessageToTimberCollection ::
    "TimberCollection unmarshal \<Rightarrow> ConsumerMessage \<Rightarrow> error + TimberCollection" where
  "ConvertKafkaMessageToTimberCollection unmarshal message =
     (case unmarshal (cmValue message) of Inl e \<Rightarrow> Inl (Concat ProtoParseError e) | Inr t \<Rightarrow> Inr t)"

section \<open>The Elasticsearch document\<close>

text \<open>
  The conversion stores the timestamp into the timber's own field map when it has none, so the timber
  is part of the result. \<open>m\<close> is the \<open>jsonpb\<close> marshaler; its error is discarded.
\<close>

type_synonym struct_json = "fields \<Rightarrow> string \<times> error option"

definition withTimestamp :: "string \<Rightarrow> fields \<Rightarrow> fields" where
  "withTimestamp ts fs =
     (if map_of fs ''@timestamp'' = None then AList.update ''@timestamp'' (Some (StringValue ts)) fs else fs)"

definition ConvertTimberToEsDocumentString :: "struct_json \<Rightarrow> Timber \<Rightarrow> (error + string) \<times> Timber" where
  "ConvertTimberToEsDocumentString m timber =
     (case tContent timber of
        None \<Rightarrow> (Inl TimberContentMissing, timber)
      | Some None \<Rightarrow> (Inl TimberFieldsMissing, timber)
      | Some (Some fs) \<Rightarrow>
          (let fs1 = withTimestamp (tTimestamp timber) fs
           in (Inr (fst (m fs1)), timber\<lparr>tContent := Some (Some fs1)\<rparr>)))"

lemma map_of_withTimestamp:
  "map_of (withTimestamp ts fs) k =
    (if k = ''@timestamp'' \<and> map_of fs k = None then Some (Some (StringValue ts)) else map_of fs k)"
  by (auto simp: withTimestamp_def update_conv)

lemma withTimestamp_idem [simp]: "withTimestamp ts' (withTimestamp ts fs) = withTimestamp ts fs"
  by (auto simp: withTimestamp_def update_conv)

text \<open>
  The document stored for a timber is the encoding of its fields with a timestamp: a client's own
  \<open>@timestamp\<close> is kept, otherwise the producer's timestamp is added, and no other field changes. The
  conversion fails exactly when the content or its field map is missing, and then changes nothing.
\<close>

lemma es_document_fields:
  "(case ConvertTimberToEsDocumentString m timber of
      (Inl e, t) \<Rightarrow> t = timber \<and> (tContent timber = None \<and> e = TimberContentMissing
                     \<or> tContent timber = Some None \<and> e = TimberFieldsMissing)
    | (Inr doc, t) \<Rightarrow> \<exists>fs fs'. tContent timber = Some (Some fs) \<and> tContent t = Some (Some fs') \<and> doc = fst (m fs')
        \<and> tContext t = tContext timber \<and> tTimestamp t = tTimestamp timber
        \<and> map_of fs' ''@timestamp'' =
            (case map_of fs ''@timestamp'' of None \<Rightarrow> Some (Some (StringValue (tTimestamp timber))) | Some v \<Rightarrow> Some v)
        \<and> (\<forall>k. k = ''@timestamp'' \<or> map_of fs' k = map_of fs k))"
  by (auto simp: ConvertTimberToEsDocumentString_def map_of_withTimestamp Let_def split: option.splits prod.splits)

section \<open>The simple format for GCS\<close>

text \<open>JSON values, as \<open>encoding/json\<close> decodes them into an \<open>interface{}\<close>; numbers as \<open>float64\<close> bits.\<close>

datatype json =
    JNull
  | JBool bool
  | JNumber int64
  | JString string
  | JArray "json list"
  | JObject "(string \<times> json) list"

record LogFormatGcsSimpler =
  Message :: json
  LogTag :: string
  LogTime :: string

text \<open>
  \<open>dec\<close> is \<open>json.Unmarshal\<close> of a text into an \<open>interface{}\<close>. Unmarshalling into a map or a slice fails
  on any other kind of value.
\<close>

definition asObject :: "error + json \<Rightarrow> error + json" where
  "asObject r = (case r of Inr (JObject kvs) \<Rightarrow> Inr (JObject kvs) | Inr _ \<Rightarrow> Inl (Err ''cannot unmarshal'') | Inl e \<Rightarrow> Inl e)"

definition asArray :: "error + json \<Rightarrow> error + json" where
  "asArray r = (case r of Inr (JArray xs) \<Rightarrow> Inr (JArray xs) | Inr _ \<Rightarrow> Inl (Err ''cannot unmarshal'') | Inl e \<Rightarrow> Inl e)"

definition messageOf :: "(string \<Rightarrow> error + json) \<Rightarrow> string \<Rightarrow> error + json" where
  "messageOf dec s =
     (if hd s = CHR ''{'' then asObject (dec s)
      else if hd s = CHR ''['' then asArray (dec s)
      else Inr (JString s))"

definition ConvertTimberToLogFormatGCSSimpleString ::
    "(string \<Rightarrow> error + json) \<Rightarrow> (LogFormatGcsSimpler \<Rightarrow> error + string) \<Rightarrow> Timber \<Rightarrow> (error + string) go" where
  "ConvertTimberToLogFormatGCSSimpleString dec enc timber =
     (case tContent timber of
        None \<Rightarrow> Ret (Inl TimberContentMissing)
      | Some None \<Rightarrow> Ret (Inl TimberFieldsMissing)
      | Some (Some fs) \<Rightarrow>
          (case field fs ''k8s_metadata'' of
             None \<Rightarrow> Ret (Inl TimberFieldsMissing)
           | Some metadata \<Rightarrow>
               go_bind (structFields metadata) (\<lambda>md.
                 case field md ''container_name'' of
                   None \<Rightarrow> Ret (Inl TimberFieldsMissing)
                 | Some containerName \<Rightarrow>
                     (let messageString = GetStringValue (field fs ''@message'')
                      in if messageString = [] then Ret (Inl TimberFieldsMissing)
                         else case messageOf dec messageString of
                                Inl e \<Rightarrow> Ret (Inl e)
                              | Inr v \<Rightarrow>
                                  Ret (enc \<lparr>Message = v, LogTag = GetStringValue (Some containerName),
                                            LogTime = GetStringValue (field fs ''@timestamp'')\<rparr>)))))"

text \<open>
  The conversion to the simple format crashes on exactly one shape of log: one whose
  \<open>k8s_metadata\<close> is there but is not an object. Every other log converts or returns an error.
\<close>

lemma gcs_simple_format_panics:
  "(\<exists>p. ConvertTimberToLogFormatGCSSimpleString dec enc timber = Panic p) \<longleftrightarrow>
    (\<exists>fs v. tContent timber = Some (Some fs) \<and> field fs ''k8s_metadata'' = Some v
       \<and> (\<nexists>sub. v = StructValue sub))"
proof (cases "tContent timber")
  case (Some c)
  show ?thesis
  proof (cases c)
    case (Some fs)
    show ?thesis
    proof (cases "field fs ''k8s_metadata''")
      case (Some v)
      with \<open>tContent timber = Some c\<close> \<open>c = Some fs\<close> show ?thesis
        by (cases v rule: structFields.cases)
          (auto simp: ConvertTimberToLogFormatGCSSimpleString_def Let_def split: option.splits sum.splits)
    qed (use Some \<open>tContent timber = Some c\<close> in \<open>simp add: ConvertTimberToLogFormatGCSSimpleString_def\<close>)
  qed (use Some in \<open>simp add: ConvertTimberToLogFormatGCSSimpleString_def\<close>)
qed (simp add: ConvertTimberToLogFormatGCSSimpleString_def)

end
