(* ===== verification/Kafka_Admin.thy ===== *)
theory Kafka_Admin
  imports Convert
begin

text \<open>
  Kafka as the program sees it, and the topic cache of \<open>flow/kafka_admin.go\<close>. The client library
  (\<open>sarama\<close>) and the cluster behind it are not part of the repository: their calls are the fields of
  the record \<open>kafka_env\<close>, functions of an arbitrary state \<open>'k\<close> of that outside world, and every
  definition that talks to Kafka takes such a record as its argument.
\<close>

section \<open>The outside world\<close>

record 'k kafka_env =
  NewSyncProducer :: "'k \<Rightarrow> error option \<times> 'k"
  NewClient :: "'k \<Rightarrow> (error + string list) \<times> 'k"
  ClientTopics :: "'k \<Rightarrow> (error + string list) \<times> 'k"
  RefreshMetadata :: "'k \<Rightarrow> 'k"
  NewClusterAdmin :: "string list \<Rightarrow> 'k \<Rightarrow> error option \<times> 'k"
  ClusterCreateTopic :: "string \<Rightarrow> int32 \<Rightarrow> int16 \<Rightarrow> 'k \<Rightarrow> error option \<times> 'k"
  CloseClusterAdmin :: "'k \<Rightarrow> 'k"
  CloseClient :: "'k \<Rightarrow> 'k"
  SendMessage :: "ProducerMessage \<Rightarrow> 'k \<Rightarrow> error option \<times> 'k"
  Now :: "'k \<Rightarrow> string \<times> 'k"
  Sleep :: "int \<Rightarrow> 'k \<Rightarrow> 'k"

text \<open>
  \<open>NewClient\<close> returns the addresses of the client's brokers, \<open>ClientTopics\<close> the topics of its metadata,
  \<open>Now\<close> the current time formatted as RFC 3339, and \<open>Sleep\<close> lets seconds pass.
\<close>

section \<open>The admin\<close>

record kafkaAdmin =
  topics :: "string list"
  brokers :: "string list"

definition NewKafkaAdmin :: "string list \<Rightarrow> kafkaAdmin" where
  "NewKafkaAdmin addrs = \<lparr>topics = [], brokers = addrs\<rparr>"

definition RefreshTopics :: "'k kafka_env \<Rightarrow> kafkaAdmin \<Rightarrow> 'k \<Rightarrow> error option \<times> kafkaAdmin \<times> 'k" where
  "RefreshTopics env a k =
     (case ClientTopics env k of
        (Inl e, k1) \<Rightarrow> (Some e, a, k1)
      | (Inr ts, k1) \<Rightarrow> (None, a\<lparr>topics := ts\<rparr>, k1))"

definition SetTopics :: "kafkaAdmin \<Rightarrow> string list \<Rightarrow> kafkaAdmin" where
  "SetTopics a ts = a\<lparr>topics := ts\<rparr>"

definition Topics :: "'k kafka_env \<Rightarrow> kafkaAdmin \<Rightarrow> 'k \<Rightarrow> string list \<times> kafkaAdmin \<times> 'k" where
  "Topics env a k =
     (let (a1, k1) = (if length (topics a) \<le> 0 then snd (RefreshTopics env a k) else (a, k))
      in (topics a1, a1, k1))"

definition Exist :: "'k kafka_env \<Rightarrow> kafkaAdmin \<Rightarrow> string \<Rightarrow> 'k \<Rightarrow> bool \<times> kafkaAdmin \<times> 'k" where
  "Exist env a topic k =
     (let (ts, a1, k1) = Topics env a k
      in if topic \<in> set ts then (True, a1, k1)
         else let (_, a2, k2) = RefreshTopics env a1 k1;
                  (ts', a3, k3) = Topics env a2 k2
              in (topic \<in> set ts', a3, k3))"

definition AddTopic :: "kafkaAdmin \<Rightarrow> string \<Rightarrow> kafkaAdmin" where
  "AddTopic a topic = a\<lparr>topics := topics a @ [topic]\<rparr>"

definition CloseAdmin :: "'k kafka_env \<Rightarrow> kafkaAdmin \<Rightarrow> 'k \<Rightarrow> 'k" where
  "CloseAdmin env a k = CloseClient env k"

definition CreateTopic :: "'k kafka_env \<Rightarrow> kafkaAdmin \<Rightarrow> string \<Rightarrow> int32 \<Rightarrow> int16 \<Rightarrow> 'k \<Rightarrow> error option \<times> 'k" where
  "CreateTopic env a topic numPartitions replicationFactor k =
     (let k1 = RefreshMetadata env k
      in case NewClusterAdmin env (brokers a) k1 of
           (Some e, k2) \<Rightarrow> (Some e, k2)
         | (None, k2) \<Rightarrow>
             let (r, k3) = ClusterCreateTopic env topic numPartitions replicationFactor k2
             in (r, CloseClusterAdmin env k3))"

lemmas admin_defs = NewKafkaAdmin_def RefreshTopics_def Topics_def Exist_def AddTopic_def

section \<open>What the cache promises\<close>

text \<open>
  The contract a producer relies on: what is known is reported without asking the cluster, adding a
  topic makes it known, and a positive answer means the topic is known afterwards.
\<close>

locale topic_registry =
  fixes exist :: "'a \<Rightarrow> string \<Rightarrow> 'w \<Rightarrow> bool \<times> 'a \<times> 'w"
    and add :: "'a \<Rightarrow> string \<Rightarrow> 'a"
    and known :: "'a \<Rightarrow> string set"
  assumes exist_known: "t \<in> known a \<Longrightarrow> exist a t w = (True, a, w)"
    and known_add: "known (add a t) = insert t (known a)"
    and exist_sound: "exist a t w = (True, a', w') \<Longrightarrow> t \<in> known a'"
begin

lemma exist_after_add: "exist (add a t) t w = (True, add a t, w)"
  by (simp add: exist_known known_add)

lemma exist_stable: "exist a t w = (True, a', w') \<Longrightarrow> exist a' t w'' = (True, a', w'')"
  by (rule exist_known) (rule exist_sound)

lemma add_keeps: "exist a t w = (True, a', w') \<Longrightarrow> exist (add a' u) t w'' = (True, add a' u, w'')"
  by (rule exist_known) (simp add: known_add exist_sound)

end

interpretation admin: topic_registry "Exist env" AddTopic "\<lambda>a. set (topics a)" for env :: "'k kafka_env"
proof (standard, goal_cases)
  case (1 t a w)
  then show ?case by (auto simp: Exist_def Topics_def)
next
  case (2 a t)
  then show ?case by (simp add: AddTopic_def)
next
  case (3 a t w a' w')
  then show ?case
    by (auto simp: Exist_def Topics_def Let_def split_beta split: if_splits)
qed

text \<open>The answer while the cluster's topics are \<open>ts\<close>, and while it does not answer.\<close>

lemma Exist_answering:
  assumes "\<And>k. ClientTopics env k = (Inr ts, k)"
  shows "Exist env a topic k =
    (if topic \<in> set (topics a) then (True, a, k)
     else (topic \<in> set ts, a\<lparr>topics := ts\<rparr>, k))"
  by (cases "topics a") (auto simp: Exist_def Topics_def RefreshTopics_def assms Let_def)

lemma Exist_failing:
  assumes "\<And>k. ClientTopics env k = (Inl e, k)"
  shows "Exist env a topic k = (topic \<in> set (topics a), a, k)"
  by (cases "topics a") (auto simp: Exist_def Topics_def RefreshTopics_def assms Let_def)

text \<open>
  The topic cache is sound and fresh: while the cluster's topics are \<open>ts\<close>, \<open>Exist\<close> says yes
  exactly for cached topics and topics of \<open>ts\<close>; it refreshes the cache when the topic is not cached,
  and a topic the cluster has since gained is then found. While the cluster does not answer, the cache
  alone decides and is kept.
\<close>

lemma Exist_correct:
  "((\<forall>k. ClientTopics env k = (Inr ts, k)) \<longrightarrow>
      fst (Exist env a topic k) = (topic \<in> set (topics a) \<union> set ts)
      \<and> topics (fst (snd (Exist env a topic k))) = (if topic \<in> set (topics a) then topics a else ts))
   \<and> ((\<forall>k. ClientTopics env k = (Inl e, k)) \<longrightarrow>
      Exist env a topic k = (topic \<in> set (topics a), a, k))"
  by (auto simp: Exist_answering Exist_failing)

definition quiet_kafka :: "(error + string list) \<Rightarrow> unit kafka_env" where
  "quiet_kafka ts =
    \<lparr>NewSyncProducer = (\<lambda>k. (None, k)), NewClient = (\<lambda>k. (Inr [''localhost:9092''], k)),
     ClientTopics = (\<lambda>k. (ts, k)), RefreshMetadata = (\<lambda>k. k), NewClusterAdmin = (\<lambda>_ k. (None, k)),
     ClusterCreateTopic = (\<lambda>_ _ _ k. (None, k)), CloseClusterAdmin = (\<lambda>k. k), CloseClient = (\<lambda>k. k),
     SendMessage = (\<lambda>_ k. (None, k)), Now = (\<lambda>k. (''2024-01-31T00:00:00Z'', k)), Sleep = (\<lambda>_ k. k)\<rparr>"

lemma Exist_correct_example:
  "fst (Exist (quiet_kafka (Inr [''topic01'', ''new-topic''])) \<lparr>topics = [''topic01''], brokers = []\<rparr> ''new-topic'' ())
   \<and> \<not> fst (Exist (quiet_kafka (Inr [''topic01'', ''new-topic''])) \<lparr>topics = [''topic01''], brokers = []\<rparr> ''no-topic'' ())
   \<and> fst (Exist (quiet_kafka (Inl (Err ''down''))) \<lparr>topics = [''topic01''], brokers = []\<rparr> ''topic01'' ())"
  using Exist_correct [of "quiet_kafka (Inr [''topic01'', ''new-topic''])" "[''topic01'', ''new-topic'']"
      "\<lparr>topics = [''topic01''], brokers = []\<rparr>" "''new-topic''" "()" "Err []"]
    Exist_correct [of "quiet_kafka (Inr [''topic01'', ''new-topic''])" "[''topic01'', ''new-topic'']"
      "\<lparr>topics = [''topic01''], brokers = []\<rparr>" "''no-topic''" "()" "Err []"]
    Exist_correct [of "quiet_kafka (Inl (Err ''down''))" "[]"
      "\<lparr>topics = [''topic01''], brokers = []\<rparr>" "''topic01''" "()" "Err ''down''"]
  by (simp add: quiet_kafka_def)

end
