(* ===== verification/Metrics.thy ===== *)
theory Metrics
  imports Go_Strings "HOL-Library.Multiset"
begin

text \<open>
  The instrumentation of \<open>prome/prometheus_instrumentation.go\<close>. A registered metric has a name and
  label names; each function of the package appends one event with its label values to a log, in
  call order, so a handler's metrics are part of its result. The value of a counter is the sum of its
  events. The values observed by a summary (elapsed times) are not modelled.
\<close>

section \<open>Registered metrics\<close>

record metric_desc =
  md_name :: string
  md_labels :: "string list"

abbreviation desc :: "string \<Rightarrow> string list \<Rightarrow> metric_desc" where
  "desc n ls \<equiv> \<lparr>md_name = n, md_labels = ls\<rparr>"

definition InitConsumerInstrumentation :: "metric_desc list" where
  "InitConsumerInstrumentation =
    [desc ''barito_consumer_timber_convert_error'' [''index''],
     desc ''barito_consumer_log_stored_total'' [''index'', ''status'', ''result'', ''error''],
     desc ''barito_consumer_bulk_process_time_second'' [],
     desc ''barito_consumer_failed_to_ensure_index_exists_total'' [''index''],
     desc ''barito_consumer_kafka_message_incoming_total'' [''topic''],
     desc ''barito_consumer_elasticsearch_client_failed'' [''phase''],
     desc ''barito_consumer_custom_error_total'' [''operation''],
     desc ''barito_redaction_status'' [''app_name'', ''type''],
     desc ''barito_consumer_redact_produced_total_log_bytes'' [''app_name'']]"

definition InitGCSConsumerInstrumentation :: "metric_desc list" where
  "InitGCSConsumerInstrumentation =
    [desc ''barito_consumer_gcs_info'' [''name'', ''project_id'', ''bucket'', ''path''],
     desc ''barito_consumer_gcs_upload_attempt_total'' [''success'', ''name'', ''project_id'', ''bucket'', ''path''],
     desc ''barito_consumer_gcs_uploaded_total_bytes'' [''name'', ''project_id'', ''bucket'', ''path''],
     desc ''barito_consumer_gcs_buffer_size'' [''name'', ''project_id'', ''bucket'', ''path'']]"

definition InitProducerInstrumentation :: "metric_desc list" where
  "InitProducerInstrumentation =
    [desc ''barito_producer_kafka_message_stored_total'' [''topic'', ''error_type''],
     desc ''barito_producer_tps_exceeded_total'' [''topic''],
     desc ''barito_producer_kafka_client_failed'' [],
     desc ''barito_producer_send_to_kafka_time_second'' [''topic''],
     desc ''barito_producer_produced_total_log_bytes'' [''app_name''],
     desc ''barito_producer_tps_exceeded_log_bytes'' [''app_name'']]"

section \<open>Events\<close>

datatype metric_event =
    CounterAdd string "string list" int
  | GaugeSet string "string list" int
  | SummaryObserve string "string list"

type_synonym metrics = "metric_event list"

fun counter_amount :: "string \<Rightarrow> string list \<Rightarrow> metric_event \<Rightarrow> int" where
  "counter_amount n ls (CounterAdd n' ls' v) = (if n = n' \<and> ls = ls' then v else 0)"
| "counter_amount n ls _ = 0"

definition counter_value :: "string \<Rightarrow> string list \<Rightarrow> metrics \<Rightarrow> int" where
  "counter_value n ls ms = sum_list (map (counter_amount n ls) ms)"

lemma counter_value_simps [simp]:
  "counter_value n ls [] = 0"
  "counter_value n ls (e # ms) = counter_amount n ls e + counter_value n ls ms"
  "counter_value n ls (ms @ ms') = counter_value n ls ms + counter_value n ls ms'"
  by (simp_all add: counter_value_def)

fun metric_of :: "metric_event \<Rightarrow> string \<times> nat" where
  "metric_of (CounterAdd n ls v) = (n, length ls)"
| "metric_of (GaugeSet n ls v) = (n, length ls)"
| "metric_of (SummaryObserve n ls) = (n, length ls)"

section \<open>Byte counters named by an application\<close>

text \<open>
  \<open>regexp.MustCompile(sfx + "$").ReplaceAllString(topic, "")\<close>: the argument \<open>re\<close> stands for
  compiling a pattern and replacing all its matches in a text, \<^const>\<open>None\<close> when the pattern does not
  compile, in which case \<open>MustCompile\<close> panics.
\<close>

type_synonym regexp_replace = "string \<Rightarrow> string \<Rightarrow> string \<Rightarrow> string option"

definition appNameOf :: "regexp_replace \<Rightarrow> string \<Rightarrow> string \<Rightarrow> string go" where
  "appNameOf re topic sfx =
     (case re (sfx @ ''$'') topic [] of
        None \<Rightarrow> Panic ''regexp: Compile'' | Some a \<Rightarrow> Ret a)"

text \<open>The last argument but one is the length of the protobuf encoding of the timber or collection.\<close>

definition ObserveByteIngestion :: "regexp_replace \<Rightarrow> string \<Rightarrow> string \<Rightarrow> nat \<Rightarrow> metrics \<Rightarrow> metrics go" where
  "ObserveByteIngestion re topic sfx len ms =
     go_bind (appNameOf re topic sfx) (\<lambda>appName.
       Ret (ms @ [CounterAdd ''barito_producer_produced_total_log_bytes'' [appName] (int len)]))"

definition ObserveByteIngestionCollection :: "regexp_replace \<Rightarrow> string \<Rightarrow> string \<Rightarrow> nat \<Rightarrow> metrics \<Rightarrow> metrics go" where
  "ObserveByteIngestionCollection re topic sfx len ms =
     go_bind (appNameOf re topic sfx) (\<lambda>appName.
       Ret (ms @ [CounterAdd ''barito_producer_produced_total_log_bytes'' [appName] (int len)]))"

definition ObserveTPSExceededBytes :: "regexp_replace \<Rightarrow> string \<Rightarrow> string \<Rightarrow> nat \<Rightarrow> metrics \<Rightarrow> metrics go" where
  "ObserveTPSExceededBytes re topic sfx len ms =
     go_bind (appNameOf re topic sfx) (\<lambda>appName.
       Ret (ms @ [CounterAdd ''barito_producer_tps_exceeded_log_bytes'' [appName] (int len)]))"

definition ObserveRedactByteIngestion :: "string \<Rightarrow> string \<Rightarrow> metrics \<Rightarrow> metrics" where
  "ObserveRedactByteIngestion appName doc ms =
     ms @ [CounterAdd ''barito_consumer_redact_produced_total_log_bytes'' [appName] (int (length doc))]"

section \<open>The other counters and gauges\<close>

definition SetRedactionEnabledTotal :: "string \<Rightarrow> string \<Rightarrow> int \<Rightarrow> metrics \<Rightarrow> metrics" where
  "SetRedactionEnabledTotal appName ruleType n ms =
     ms @ [GaugeSet ''barito_redaction_status'' [appName, ruleType] n]"

definition IncreaseConsumerTimberConvertError :: "string \<Rightarrow> metrics \<Rightarrow> metrics" where
  "IncreaseConsumerTimberConvertError index ms =
     ms @ [CounterAdd ''barito_consumer_timber_convert_error'' [index] 1]"

definition IncreaseKafkaMessagesIncoming :: "string \<Rightarrow> metrics \<Rightarrow> metrics" where
  "IncreaseKafkaMessagesIncoming topic ms =
     ms @ [CounterAdd ''barito_consumer_kafka_message_incoming_total'' [topic] 1]"

definition ObserveBulkProcessTime :: "metrics \<Rightarrow> metrics" where
  "ObserveBulkProcessTime ms = ms @ [SummaryObserve ''barito_consumer_bulk_process_time_second'' []]"

definition IncreaseConsumerElasticsearchClientFailed :: "string \<Rightarrow> metrics \<Rightarrow> metrics" where
  "IncreaseConsumerElasticsearchClientFailed phase ms =
     ms @ [CounterAdd ''barito_consumer_elasticsearch_client_failed'' [phase] 1]"

definition IncreaseConsumerFailedToEnsureIndexExists :: "string \<Rightarrow> metrics \<Rightarrow> metrics" where
  "IncreaseConsumerFailedToEnsureIndexExists index ms =
     ms @ [CounterAdd ''barito_consumer_failed_to_ensure_index_exists_total'' [index] 1]"

definition IncreaseKafkaMessagesStoredTotal :: "string \<Rightarrow> metrics \<Rightarrow> metrics" where
  "IncreaseKafkaMessagesStoredTotal topic ms =
     ms @ [CounterAdd ''barito_producer_kafka_message_stored_total'' [topic, ''''] 1]"

definition IncreaseKafkaMessagesStoredTotalWithError :: "string \<Rightarrow> string \<Rightarrow> metrics \<Rightarrow> metrics" where
  "IncreaseKafkaMessagesStoredTotalWithError topic errorMessage ms =
     ms @ [CounterAdd ''barito_producer_kafka_message_stored_total'' [topic, errorMessage] 1]"

definition IncreaseProducerTPSExceededCounter :: "string \<Rightarrow> int \<Rightarrow> metrics \<Rightarrow> metrics" where
  "IncreaseProducerTPSExceededCounter topic n ms =
     ms @ [CounterAdd ''barito_producer_tps_exceeded_total'' [topic] n]"

definition ObserveSendToKafkaTime :: "string \<Rightarrow> metrics \<Rightarrow> metrics" where
  "ObserveSendToKafkaTime topic ms = ms @ [SummaryObserve ''barito_producer_send_to_kafka_time_second'' [topic]]"

definition IncreaseProducerKafkaClientFailed :: "metrics \<Rightarrow> metrics" where
  "IncreaseProducerKafkaClientFailed ms = ms @ [CounterAdd ''barito_producer_kafka_client_failed'' [] 1]"

definition IncreaseConsumerGCSUploadAttemptTotal ::
    "string \<Rightarrow> string \<Rightarrow> string \<Rightarrow> string \<Rightarrow> string \<Rightarrow> metrics \<Rightarrow> metrics" where
  "IncreaseConsumerGCSUploadAttemptTotal name projectId bucket path success ms =
     ms @ [CounterAdd ''barito_consumer_gcs_upload_attempt_total'' [success, name, projectId, bucket, path] 1]"

definition IncreaseConsumerGCSUploadedTotalBytes ::
    "string \<Rightarrow> string \<Rightarrow> string \<Rightarrow> string \<Rightarrow> int \<Rightarrow> metrics \<Rightarrow> metrics" where
  "IncreaseConsumerGCSUploadedTotalBytes name projectId bucket path sz ms =
     ms @ [CounterAdd ''barito_consumer_gcs_uploaded_total_bytes'' [name, projectId, bucket, path] sz]"

definition SetConsumerGCSInfo :: "string \<Rightarrow> string \<Rightarrow> string \<Rightarrow> string \<Rightarrow> metrics \<Rightarrow> metrics" where
  "SetConsumerGCSInfo name projectId bucket path ms =
     ms @ [GaugeSet ''barito_consumer_gcs_info'' [name, projectId, bucket, path] 1]"

definition IncreaseConsumerCustomErrorTotal :: "string \<Rightarrow> metrics \<Rightarrow> metrics" where
  "IncreaseConsumerCustomErrorTotal operation ms =
     ms @ [CounterAdd ''barito_consumer_custom_error_total'' [operation] 1]"

text \<open>Every caller of the formatted variant passes a format with one \<open>%s\<close> at its end.\<close>

definition IncreaseConsumerCustomErrorTotalf :: "string \<Rightarrow> string \<Rightarrow> metrics \<Rightarrow> metrics" where
  "IncreaseConsumerCustomErrorTotalf pre arg ms =
     ms @ [CounterAdd ''barito_consumer_custom_error_total'' [pre @ arg] 1]"

definition SetConsumerGCSBufferSize :: "string \<Rightarrow> string \<Rightarrow> string \<Rightarrow> string \<Rightarrow> int \<Rightarrow> metrics \<Rightarrow> metrics" where
  "SetConsumerGCSBufferSize name projectId bucket path sz ms =
     ms @ [GaugeSet ''barito_consumer_gcs_buffer_size'' [name, projectId, bucket, path] sz]"

lemmas metric_defs =
  ObserveRedactByteIngestion_def SetRedactionEnabledTotal_def IncreaseConsumerTimberConvertError_def
  IncreaseKafkaMessagesIncoming_def ObserveBulkProcessTime_def
  IncreaseConsumerElasticsearchClientFailed_def IncreaseConsumerFailedToEnsureIndexExists_def
  IncreaseKafkaMessagesStoredTotal_def IncreaseKafkaMessagesStoredTotalWithError_def
  IncreaseProducerTPSExceededCounter_def ObserveSendToKafkaTime_def IncreaseProducerKafkaClientFailed_def
  IncreaseConsumerGCSUploadAttemptTotal_def IncreaseConsumerGCSUploadedTotalBytes_def
  SetConsumerGCSInfo_def IncreaseConsumerCustomErrorTotal_def IncreaseConsumerCustomErrorTotalf_def
  SetConsumerGCSBufferSize_def

section \<open>Classifying Elasticsearch errors\<close>

definition logStoredErrorMap :: "(string \<times> string) list" where
  "logStoredErrorMap =
    [(''the final mapping'', ''multiple_type''),
     (''to parse field'', ''mapping_failed''),
     (''mapping'', ''mapping_failed''),
     (''mapper'', ''mapping_failed''),
     (''failed to parse'', ''mapping_failed''),
     (''Data too large'', ''data_too_large''),
     (''TransportService is closed'', ''request_error_transport_service_closed''),
     (''Node not connected'', ''node_not_connected''),
     (''primary shard is not active'', ''inactive_primary_shard''),
     (''no such shard'', ''no_such_shard''),
     (''index read-only'', ''index_read_only''),
     (''Limit of total fields'', ''limit_of_total_fields_excedeed''),
     (''maximum shards open'', ''maximum_shards_open''),
     (''disk usage exceeded'', ''disk_usage_exceeded'')]"

text \<open>
  Go ranges over a map in an unspecified order, anew for each loop: each loop takes its own list
  \<open>order\<close>, a permutation of the map's entries. \<open>CausedBy["reason"]\<close> is absent, not a string, or a
  string. \<open>classify\<close> is one loop over the map.
\<close>

record ErrorDetails =
  Reason :: string
  CausedByReason :: "string option option"

fun classify :: "(string \<times> string) list \<Rightarrow> string \<Rightarrow> string \<Rightarrow> string" where
  "classify [] msg dflt = dflt"
| "classify ((k, v) # kvs) msg dflt = (if Contains msg k then v else classify kvs msg dflt)"

definition errorTypeOf :: "(string \<times> string) list \<Rightarrow> (string \<times> string) list \<Rightarrow> ErrorDetails option \<Rightarrow> string" where
  "errorTypeOf order1 order2 errorDetail =
     (case errorDetail of
        None \<Rightarrow> []
      | Some d \<Rightarrow>
          if Reason d = [] then []
          else let t = classify order1 (Reason d) ''undefined_error''
               in case CausedByReason d of
                    Some (Some c) \<Rightarrow> if t = ''undefined_error'' then classify order2 c t else t
                  | _ \<Rightarrow> t)"

text \<open>\<open>indexDatePattern\<close> is \<open>-\d{4}\.\d{2}\.\d{2}$\<close>: it can match only the last eleven bytes.\<close>

definition isDigit :: "char \<Rightarrow> bool" where
  "isDigit c \<longleftrightarrow> digitVal c \<noteq> None"

fun isDateSuffix :: "string \<Rightarrow> bool" where
  "isDateSuffix [h, y1, y2, y3, y4, p, m1, m2, q, d1, d2] =
     (h = CHR ''-'' \<and> isDigit y1 \<and> isDigit y2 \<and> isDigit y3 \<and> isDigit y4 \<and> p = CHR ''.''
      \<and> isDigit m1 \<and> isDigit m2 \<and> q = CHR ''.'' \<and> isDigit d1 \<and> isDigit d2)"
| "isDateSuffix _ = False"

definition indexWithoutDate :: "string \<Rightarrow> string" where
  "indexWithoutDate index =
     (let n = length index - 11 in if isDateSuffix (drop n index) then take n index else index)"

definition IncreaseLogStoredCounter ::
    "(string \<times> string) list \<Rightarrow> (string \<times> string) list \<Rightarrow> string \<Rightarrow> string \<Rightarrow> int \<Rightarrow> ErrorDetails option \<Rightarrow> metrics \<Rightarrow> metrics" where
  "IncreaseLogStoredCounter order1 order2 index result status errorDetail ms =
     ms @ [CounterAdd ''barito_consumer_log_stored_total''
             [indexWithoutDate index, result, Itoa status, errorTypeOf order1 order2 errorDetail] 1]"

definition map_order :: "('a \<times> 'b) list \<Rightarrow> ('a \<times> 'b) list \<Rightarrow> bool" where
  "map_order m order \<longleftrightarrow> mset order = mset m"

lemma classify_unique:
  assumes "\<forall>(k, v)\<in>set kvs. Contains msg k \<longrightarrow> v = c" and "\<exists>(k, v)\<in>set kvs. Contains msg k"
  shows "classify kvs msg dflt = c"
  using assms by (induction kvs) (auto split: prod.splits, fastforce+)

lemma classify_none:
  "\<forall>(k, v) \<in> set kvs. \<not> Contains msg k \<Longrightarrow> classify kvs msg dflt = dflt"
  by (induction kvs) auto

text \<open>The keys a message contains all stand for one class: then the order of iteration is irrelevant.\<close>

definition unambiguous :: "string \<Rightarrow> bool" where
  "unambiguous msg \<longleftrightarrow>
     (\<forall>(k, v)\<in>set logStoredErrorMap. \<forall>(k', v')\<in>set logStoredErrorMap.
        Contains msg k \<and> Contains msg k' \<longrightarrow> v = v')"

lemma classify_order:
  assumes "unambiguous msg" and "map_order logStoredErrorMap o1" and "map_order logStoredErrorMap o2"
  shows "classify o1 msg dflt = classify o2 msg dflt"
proof -
  have sets: "set o1 = set logStoredErrorMap" "set o2 = set logStoredErrorMap"
    using assms(2,3) by (auto simp: map_order_def dest: mset_eq_setD)
  show ?thesis
  proof (cases "\<exists>(k, v)\<in>set logStoredErrorMap. Contains msg k")
    case True
    then obtain k v where kv: "(k, v) \<in> set logStoredErrorMap" "Contains msg k" by blast
    then have "\<forall>(k', v')\<in>set logStoredErrorMap. Contains msg k' \<longrightarrow> v' = v"
      using assms(1) unfolding unambiguous_def by fastforce
    then have "classify o1 msg dflt = v" and "classify o2 msg dflt = v"
      using True sets by (simp_all add: classify_unique)
    then show ?thesis by simp
  next
    case False
    with sets have "classify o1 msg dflt = dflt" and "classify o2 msg dflt = dflt"
      by (auto intro!: classify_none)
    then show ?thesis by simp
  qed
qed

text \<open>
  The error class of a stored log does not depend on Go's map iteration order when the keys found
  in the reason all stand for one class, and likewise those found in the cause's reason.
\<close>

lemma errorTypeOf_order_independent:
  assumes "map_order logStoredErrorMap o1" and "map_order logStoredErrorMap o2"
    and "map_order logStoredErrorMap p1" and "map_order logStoredErrorMap p2"
    and "unambiguous (Reason d)" and "\<And>c. CausedByReason d = Some (Some c) \<Longrightarrow> unambiguous c"
  shows "errorTypeOf o1 o2 (Some d) = errorTypeOf p1 p2 (Some d)"
  using classify_order [OF assms(5,1,3)] classify_order [OF assms(6) assms(2,4)]
  by (auto simp: errorTypeOf_def Let_def split: option.splits)

lemma errorTypeOf_order_independent_example:
  "errorTypeOf logStoredErrorMap logStoredErrorMap (Some \<lparr>Reason = ''Data too large'', CausedByReason = None\<rparr>)
   = errorTypeOf (rev logStoredErrorMap) logStoredErrorMap (Some \<lparr>Reason = ''Data too large'', CausedByReason = None\<rparr>)"
  by (rule errorTypeOf_order_independent)
    (simp_all add: map_order_def unambiguous_def logStoredErrorMap_def HasPrefix_def)

text \<open>
  The class of the error "the final mapping would have more than 1 type" is not determined: it
  contains the keys \<open>the final mapping\<close> and \<open>mapping\<close>, of different classes, so two iteration orders of
  the same map give two classes for the same response.
\<close>

lemma errorTypeOf_order_dependent:
  "\<exists>o1 o2. map_order logStoredErrorMap o1 \<and> map_order logStoredErrorMap o2 \<and>
    errorTypeOf o1 o1 (Some \<lparr>Reason = ''the final mapping would have more than 1 type'', CausedByReason = None\<rparr>)
      = ''multiple_type'' \<and>
    errorTypeOf o2 o2 (Some \<lparr>Reason = ''the final mapping would have more than 1 type'', CausedByReason = None\<rparr>)
      = ''mapping_failed''"
  by (intro exI [of _ logStoredErrorMap] exI [of _ "rev logStoredErrorMap"])
    (simp add: map_order_def errorTypeOf_def logStoredErrorMap_def HasPrefix_def Let_def)

text \<open>
  The counter of stored logs carries the result in its label \<open>status\<close> and the status code in its
  label \<open>result\<close>: the values are passed in another order than the labels are registered in.
\<close>

lemma log_stored_labels_swapped:
  "\<exists>d \<in> set InitConsumerInstrumentation. \<exists>index' e.
     IncreaseLogStoredCounter o1 o2 index result status errorDetail [] =
       [CounterAdd (md_name d) [index', result, Itoa status, e] 1]
     \<and> map_of (zip (md_labels d) [index', result, Itoa status, e]) ''status'' = Some result
     \<and> map_of (zip (md_labels d) [index', result, Itoa status, e]) ''result'' = Some (Itoa status)"
  by (simp add: InitConsumerInstrumentation_def IncreaseLogStoredCounter_def)

text \<open>
  The index label is the index prefix: for a prefix and a date of digits, the date that
  \<open>Store\<close> appends to the prefix is removed again, and a name without such a date is kept.
\<close>

lemma indexWithoutDate_roundtrip:
  assumes "isDateSuffix date"
  shows "indexWithoutDate (prefx @ date) = prefx"
proof -
  from assms have "length date = 11" by (cases date rule: isDateSuffix.cases) auto
  with assms show ?thesis by (simp add: indexWithoutDate_def)
qed

lemma indexWithoutDate_roundtrip_example: "indexWithoutDate (''my-app'' @ ''-2024.01.31'') = ''my-app''"
  by (rule indexWithoutDate_roundtrip) (simp add: isDigit_def digitVal_def)

end
