(* ===== verification/Leaky_Bucket.thy ===== *)
theory Leaky_Bucket
  imports Go_Prelude
begin

text \<open>
  The token bucket of \<open>flow/leaky_bucket.go\<close>. Tokens and maxima are 32-bit signed integers that wrap;
  comparisons are signed. Sequential behaviour comes first, with the abstract bucket it refines; the
  last section interleaves concurrent calls of \<open>Take\<close>, whose test runs outside the lock.
\<close>

section \<open>The bucket and its operations\<close>

record LeakyBucket =
  lb_max :: int32
  lb_token :: int32

definition NewLeakyBucket :: "int32 \<Rightarrow> LeakyBucket" where
  "NewLeakyBucket m = \<lparr>lb_max = m, lb_token = m\<rparr>"

definition Token :: "LeakyBucket \<Rightarrow> int32" where
  "Token b = lb_token b"

definition Max :: "LeakyBucket \<Rightarrow> int32" where
  "Max b = lb_max b"

definition UpdateMax :: "LeakyBucket \<Rightarrow> int32 \<Rightarrow> LeakyBucket" where
  "UpdateMax b newMax =
     (let b1 = (if lb_max b <s newMax
                then b\<lparr>lb_token := lb_token b + (newMax - lb_max b)\<rparr> else b)
      in b1\<lparr>lb_max := newMax\<rparr>)"

definition IsFull :: "LeakyBucket \<Rightarrow> bool" where
  "IsFull b \<longleftrightarrow> lb_token b = lb_max b"

definition Refill :: "LeakyBucket \<Rightarrow> LeakyBucket" where
  "Refill b = b\<lparr>lb_token := lb_max b\<rparr>"

definition Take :: "LeakyBucket \<Rightarrow> int64 \<Rightarrow> bool \<times> LeakyBucket" where
  "Take b count =
     (if lb_token b - to_int32 count <s 0 then (False, b)
      else (True, b\<lparr>lb_token := lb_token b - to_int32 count\<rparr>))"

lemmas bucket_defs = NewLeakyBucket_def Token_def Max_def UpdateMax_def IsFull_def Refill_def Take_def

section \<open>The well-formed bucket\<close>

text \<open>A bucket holds between 0 and its maximum; a request counts messages, so it is not negative.\<close>

definition wf_bucket :: "LeakyBucket \<Rightarrow> bool" where
  "wf_bucket b \<longleftrightarrow> 0 \<le> sint (lb_token b) \<and> sint (lb_token b) \<le> sint (lb_max b)"

definition wf_count :: "int64 \<Rightarrow> bool" where
  "wf_count n \<longleftrightarrow> 0 \<le> sint n \<and> sint n \<le> 2147483647"

lemma sint_wf_count [go_word]: "wf_count n \<Longrightarrow> sint (to_int32 n) = sint n"
  by (simp add: wf_count_def sint_to_int32)

lemma wf_NewLeakyBucket: "0 \<le> sint m \<Longrightarrow> wf_bucket (NewLeakyBucket m)"
  by (simp add: wf_bucket_def NewLeakyBucket_def)

lemma wf_Refill: "0 \<le> sint (lb_max b) \<Longrightarrow> wf_bucket (Refill b)"
  by (simp add: wf_bucket_def Refill_def)

lemma Refill_IsFull: "IsFull (Refill b)"
  by (simp add: IsFull_def Refill_def)

lemma max_Refill [simp]: "lb_max (Refill b) = lb_max b"
  by (simp add: Refill_def)

lemma max_UpdateMax [simp]: "lb_max (UpdateMax b m) = m"
  by (simp add: UpdateMax_def Let_def)

lemma max_Take [simp]: "lb_max (snd (Take b n)) = lb_max b"
  by (simp add: Take_def)

text \<open>A request is granted exactly when the bucket holds enough, and then pays its exact price.\<close>

lemma sint_token_sub:
  assumes "wf_bucket b" and "wf_count n"
  shows "sint (lb_token b - to_int32 n) = sint (lb_token b) - sint n"
  using assms sint32_bounds(1) [of "lb_token b"]
  by (subst sint32_sub) (auto simp: wf_bucket_def sint_wf_count wf_count_def)

lemma Take_spec:
  assumes "wf_bucket b" and "wf_count n"
  shows "Take b n = (if sint n \<le> sint (lb_token b)
    then (True, b\<lparr>lb_token := lb_token b - to_int32 n\<rparr>) else (False, b))"
  using sint_token_sub [OF assms] by (simp add: Take_def word_sless_alt)

lemma wf_Take: "wf_bucket b \<Longrightarrow> wf_count n \<Longrightarrow> wf_bucket (snd (Take b n))"
  by (simp add: Take_spec) (auto simp: wf_bucket_def wf_count_def sint_token_sub [unfolded wf_bucket_def wf_count_def])

lemma token_Take:
  assumes "wf_bucket b" and "wf_count n"
  shows "sint (lb_token (snd (Take b n))) =
    (if fst (Take b n) then sint (lb_token b) - sint n else sint (lb_token b))"
  using assms by (simp add: Take_spec sint_token_sub)

text \<open>Raising the maximum adds the difference, so what has been spent stays spent.\<close>

lemma token_UpdateMax_up:
  assumes "wf_bucket b" and "sint (lb_max b) \<le> sint m"
  shows "sint (lb_token (UpdateMax b m)) = sint (lb_token b) + (sint m - sint (lb_max b))"
proof -
  have diff: "sint (m - lb_max b) = sint m - sint (lb_max b)"
    using assms sint32_bounds(1) [of m] by (intro sint32_sub) (auto simp: wf_bucket_def)
  have "sint (lb_token b + (m - lb_max b)) = sint (lb_token b) + sint (m - lb_max b)"
    using assms sint32_bounds(1) [of m] by (intro sint32_add) (auto simp: wf_bucket_def diff)
  with diff assms show ?thesis
    by (auto simp: UpdateMax_def Let_def word_sless_alt)
qed

lemma wf_UpdateMax_up: "wf_bucket b \<Longrightarrow> sint (lb_max b) \<le> sint m \<Longrightarrow> wf_bucket (UpdateMax b m)"
  by (auto simp: wf_bucket_def token_UpdateMax_up [unfolded wf_bucket_def])

text \<open>Lowering the maximum leaves the tokens as they are, above the new maximum or not.\<close>

lemma UpdateMax_down: "sint m \<le> sint (lb_max b) \<Longrightarrow> UpdateMax b m = b\<lparr>lb_max := m\<rparr>"
  by (simp add: UpdateMax_def word_sless_alt)

section \<open>The abstract bucket\<close>

text \<open>
  What a caller relies on, without machine integers: a capacity, and how many tokens are left of it.
  \<open>Grow\<close> is a raise of the maximum. A run of calls on a well-formed bucket, in which the maximum never
  drops, answers what the abstract bucket answers and ends in the state that stands for its state.
\<close>

datatype bucket_op = OpTake int64 | OpRefill | OpUpdateMax int32

record abs_bucket =
  capacity :: int
  available :: int

fun abs_step :: "abs_bucket \<Rightarrow> bucket_op \<Rightarrow> bool \<times> abs_bucket" where
  "abs_step a (OpTake n) =
     (if sint n \<le> available a then (True, a\<lparr>available := available a - sint n\<rparr>) else (False, a))"
| "abs_step a OpRefill = (True, a\<lparr>available := capacity a\<rparr>)"
| "abs_step a (OpUpdateMax m) =
     (True, a\<lparr>capacity := sint m, available := available a + (sint m - capacity a)\<rparr>)"

fun bucket_step :: "LeakyBucket \<Rightarrow> bucket_op \<Rightarrow> bool \<times> LeakyBucket" where
  "bucket_step b (OpTake n) = Take b n"
| "bucket_step b OpRefill = (True, Refill b)"
| "bucket_step b (OpUpdateMax m) = (True, UpdateMax b m)"

text \<open>Run a list of calls with either step function, collecting the answers.\<close>

fun run_ops :: "('b \<Rightarrow> bucket_op \<Rightarrow> bool \<times> 'b) \<Rightarrow> 'b \<Rightarrow> bucket_op list \<Rightarrow> bool list \<times> 'b" where
  "run_ops f b [] = ([], b)"
| "run_ops f b (x # xs) =
     (let (r, b1) = f b x; (rs, b2) = run_ops f b1 xs in (r # rs, b2))"

definition abs_of :: "LeakyBucket \<Rightarrow> abs_bucket" where
  "abs_of b = \<lparr>capacity = sint (lb_max b), available = sint (lb_token b)\<rparr>"

fun allowed_op :: "LeakyBucket \<Rightarrow> bucket_op \<Rightarrow> bool" where
  "allowed_op b (OpTake n) = wf_count n"
| "allowed_op b OpRefill = True"
| "allowed_op b (OpUpdateMax m) = (sint (lb_max b) \<le> sint m)"

fun allowed_ops :: "LeakyBucket \<Rightarrow> bucket_op list \<Rightarrow> bool" where
  "allowed_ops b [] = True"
| "allowed_ops b (x # xs) = (allowed_op b x \<and> allowed_ops (snd (bucket_step b x)) xs)"

lemma wf_bucket_step: "wf_bucket b \<Longrightarrow> allowed_op b x \<Longrightarrow> wf_bucket (snd (bucket_step b x))"
  using wf_Refill [of b] by (cases x) (auto simp: wf_Take wf_UpdateMax_up wf_bucket_def [of b])

lemma abs_of_step:
  assumes "wf_bucket b" and "allowed_op b x"
  shows "abs_step (abs_of b) x = map_prod id abs_of (bucket_step b x)"
  using assms
  by (cases x) (auto simp: abs_of_def Take_spec sint_token_sub token_UpdateMax_up Refill_def)



section \<open>Changing the maximum\<close>

text \<open>One drop of the maximum to \<open>lo\<close> and one raise back to \<open>hi\<close> leaves the maximum and adds the difference.\<close>

lemma UpdateMax_down_up:
  assumes "lb_max b = hi" and "sint lo \<le> sint hi" and "0 \<le> sint lo" and "0 \<le> sint (lb_token b)"
    and "sint (lb_token b) + (sint hi - sint lo) \<le> 2147483647"
  shows "sint (lb_token (UpdateMax (UpdateMax b lo) hi)) = sint (lb_token b) + (sint hi - sint lo)"
proof -
  have diff: "sint (hi - lo) = sint hi - sint lo"
    using assms by (intro sint32_sub) auto
  have "sint (lb_token b + (hi - lo)) = sint (lb_token b) + sint (hi - lo)"
    using assms by (intro sint32_add) (auto simp: diff)
  with assms diff show ?thesis
    by (auto simp: UpdateMax_down) (auto simp: UpdateMax_def Let_def word_sless_alt)
qed

section \<open>Concurrent takes\<close>

text \<open>
  \<open>Take\<close> tests the token before it acquires the lock and subtracts inside it. Each thread \<open>i < n\<close>
  calls \<open>Take\<close> once, with \<open>cnt i\<close> messages: one step is the test, one step the locked update, and
  steps of different threads interleave.
\<close>

datatype take_pc = TIdle | TChecked | TDone bool

record take_race =
  rb :: LeakyBucket
  pcs :: "nat \<Rightarrow> take_pc"

definition take_init :: "LeakyBucket \<Rightarrow> take_race \<Rightarrow> bool" where
  "take_init b s \<longleftrightarrow> s = \<lparr>rb = b, pcs = (\<lambda>_. TIdle)\<rparr>"

inductive take_step :: "nat \<Rightarrow> (nat \<Rightarrow> int64) \<Rightarrow> take_race \<Rightarrow> take_race \<Rightarrow> bool"
  for n :: nat and cnt :: "nat \<Rightarrow> int64" where
  take_reject: "i < n \<Longrightarrow> pcs s i = TIdle \<Longrightarrow> lb_token (rb s) - to_int32 (cnt i) <s 0 \<Longrightarrow>
    take_step n cnt s (s\<lparr>pcs := (pcs s)(i := TDone False)\<rparr>)"
| take_check: "i < n \<Longrightarrow> pcs s i = TIdle \<Longrightarrow> \<not> lb_token (rb s) - to_int32 (cnt i) <s 0 \<Longrightarrow>
    take_step n cnt s (s\<lparr>pcs := (pcs s)(i := TChecked)\<rparr>)"
| take_commit: "i < n \<Longrightarrow> pcs s i = TChecked \<Longrightarrow>
    take_step n cnt s (s\<lparr>rb := (rb s)\<lparr>lb_token := lb_token (rb s) - to_int32 (cnt i)\<rparr>,
                         pcs := (pcs s)(i := TDone True)\<rparr>)"

text \<open>What the granted threads have taken, and what the locked updates conserve.\<close>

definition granted_sum :: "nat \<Rightarrow> (nat \<Rightarrow> int64) \<Rightarrow> (nat \<Rightarrow> take_pc) \<Rightarrow> int32" where
  "granted_sum n cnt p = (\<Sum>i<n. if p i = TDone True then to_int32 (cnt i) else 0)"

definition take_inv :: "nat \<Rightarrow> (nat \<Rightarrow> int64) \<Rightarrow> LeakyBucket \<Rightarrow> take_race \<Rightarrow> bool" where
  "take_inv n cnt b s \<longleftrightarrow> lb_token (rb s) + granted_sum n cnt (pcs s) = lb_token b \<and> lb_max (rb s) = lb_max b"

lemma granted_sum_upd:
  assumes "i < n" and "p i \<noteq> TDone True"
  shows "granted_sum n cnt (p(i := v)) = granted_sum n cnt p + (if v = TDone True then to_int32 (cnt i) else 0)"
  using assms sum_fun_upd [of i n "\<lambda>j x. if x = TDone True then to_int32 (cnt j) else 0" p v]
  by (simp add: granted_sum_def del: fun_upd_apply)

inductive_cases take_stepE: "take_step n cnt s t"

lemma take_step_inv: "take_inv n cnt b s \<Longrightarrow> take_step n cnt s t \<Longrightarrow> take_inv n cnt b t"
  by (erule take_stepE) (auto simp: take_inv_def granted_sum_upd)

interpretation takes: state_machine "take_init b" "take_step n cnt" "take_inv n cnt b" for b n cnt
  by unfold_locales (simp add: take_init_def take_inv_def granted_sum_def, rule take_step_inv)



text \<open>All threads can test before any of them subtracts.\<close>

lemma all_checked_reachable:
  assumes "1 \<le> sint (lb_token b)"
  shows "k \<le> n \<Longrightarrow> reach (take_init b) (take_step n (\<lambda>_. 1))
    \<lparr>rb = b, pcs = (\<lambda>i. if i < k then TChecked else TIdle)\<rparr>"
proof (induction k)
  case (Suc k)
  let ?s = "\<lparr>rb = b, pcs = (\<lambda>i. if i < k then TChecked else TIdle)\<rparr>"
  have sub: "sint (lb_token b - 1) = sint (lb_token b) - 1"
    using assms sint32_sub [of "lb_token b" 1] sint32_bounds(1) [of "lb_token b"] by simp
  have "take_step n (\<lambda>_. 1) ?s (?s\<lparr>pcs := (pcs ?s)(k := TChecked)\<rparr>)"
    using Suc.prems assms sub by (intro take_check) (auto simp: word_sless_alt to_int32_def)
  moreover have "?s\<lparr>pcs := (pcs ?s)(k := TChecked)\<rparr> =
      \<lparr>rb = b, pcs = (\<lambda>i. if i < Suc k then TChecked else TIdle)\<rparr>"
    by (auto simp: fun_eq_iff)
  ultimately show ?case using Suc by (auto intro: reach_step)
qed (auto intro: reach_init simp: take_init_def)

text \<open>
  C33. The test outside the lock lets concurrent callers overdraw a bucket without bound: on a bucket
  with one token or more, for every number of threads \<open>n\<close> there is an interleaving in which all \<open>n\<close>
  calls \<open>Take(1)\<close> are granted, whatever the number of tokens.
\<close>

theorem take_race_overdraws:
  assumes "1 \<le> sint (lb_token b)"
  shows "\<exists>s. reach (take_init b) (take_step n (\<lambda>_. 1)) s \<and> (\<forall>i. pcs s i = (if i < n then TDone True else TIdle))
    \<and> lb_token (rb s) = lb_token b - of_nat n"
proof -
  have "k \<le> n \<Longrightarrow> reach (take_init b) (take_step n (\<lambda>_. 1))
      \<lparr>rb = b\<lparr>lb_token := lb_token b - of_nat k\<rparr>,
       pcs = (\<lambda>i. if i < k then TDone True else if i < n then TChecked else TIdle)\<rparr>" for k
  proof (induction k)
    case 0
    then show ?case using all_checked_reachable [OF assms, of n n] by simp
  next
    case (Suc k)
    let ?s = "\<lparr>rb = b\<lparr>lb_token := lb_token b - of_nat k\<rparr>,
       pcs = (\<lambda>i. if i < k then TDone True else if i < n then TChecked else TIdle)\<rparr>"
    have "take_step n (\<lambda>_. 1) ?s (?s\<lparr>rb := (rb ?s)\<lparr>lb_token := lb_token (rb ?s) - to_int32 1\<rparr>,
        pcs := (pcs ?s)(k := TDone True)\<rparr>)"
      using Suc.prems by (intro take_commit) auto
    moreover have "?s\<lparr>rb := (rb ?s)\<lparr>lb_token := lb_token (rb ?s) - to_int32 1\<rparr>, pcs := (pcs ?s)(k := TDone True)\<rparr>
      = \<lparr>rb = b\<lparr>lb_token := lb_token b - of_nat (Suc k)\<rparr>,
         pcs = (\<lambda>i. if i < Suc k then TDone True else if i < n then TChecked else TIdle)\<rparr>"
      by (auto simp: fun_eq_iff to_int32_def)
    ultimately show ?case using Suc by (auto intro: reach_step)
  qed
  from this [of n] show ?thesis by (intro exI conjI) auto
qed

theorem take_race_overdraws_witness:
  "\<exists>s. reach (take_init (NewLeakyBucket 1)) (take_step 5 (\<lambda>_. 1)) s
    \<and> (\<forall>i. pcs s i = (if i < 5 then TDone True else TIdle)) \<and> lb_token (rb s) = - 4"
  using take_race_overdraws [of "NewLeakyBucket 1" 5] by (simp add: NewLeakyBucket_def)

end
