(* ===== verification/Rate_Limiter.thy ===== *)
theory Rate_Limiter
  imports Leaky_Bucket
begin

text \<open>
  The rate limiters' common interface and the local one, of \<open>flow/rate_limiter.go\<close>: one bucket per
  key, filled with the allowed rate times the refill interval, and a goroutine that refills all
  buckets at each tick. The locales \<open>rate_cap\<close> and, stronger, \<open>window_limiter\<close> are what a client relies on
  between two refills; the local limiter interprets them.
\<close>

section \<open>The contract of a limiter within one window\<close>

text \<open>
  A request names a key, a number of messages and the rate its sender is allowed
  (\<open>IsHitLimit(topic, count, maxTokenIfNotExist)\<close>, \<^const>\<open>True\<close> for "limit hit"). A run collects the
  requests with their answers.
\<close>

type_synonym request = "string \<times> int64 \<times> int32"
type_synonym 'l hit_limit = "'l \<Rightarrow> string \<Rightarrow> int64 \<Rightarrow> int32 \<Rightarrow> bool \<times> 'l"

fun run_limiter :: "'l hit_limit \<Rightarrow> 'l \<Rightarrow> request list \<Rightarrow> (request \<times> bool) list \<times> 'l" where
  "run_limiter hit l [] = ([], l)"
| "run_limiter hit l ((k, n, m) # rs) =
     (let (h, l1) = hit l k n m; (log, l2) = run_limiter hit l1 rs in (((k, n, m), h) # log, l2))"

definition admitted :: "string \<Rightarrow> (request \<times> bool) list \<Rightarrow> int" where
  "admitted key log = sum_list (map (\<lambda>((k, n, m), h). if k = key \<and> \<not> h then sint n else 0) log)"

lemma admitted_simps [simp]:
  "admitted key [] = 0"
  "admitted key (((k, n, m), h) # log) = (if k = key \<and> \<not> h then sint n else 0) + admitted key log"
  by (simp_all add: admitted_def)

lemma run_limiter_append:
  "run_limiter hit l (rs @ rs') =
    (fst (run_limiter hit l rs) @ fst (run_limiter hit (snd (run_limiter hit l rs)) rs'),
     snd (run_limiter hit (snd (run_limiter hit l rs)) rs'))"
  by (induction rs arbitrary: l) (auto simp: Let_def split_beta)

text \<open>
  The weakest of the contracts: \<open>safe l rs\<close> says that the limiter may be asked \<open>rs\<close> next. What an admitted
  request asks for is charged to its key and fits the key's capacity; a refused one may be charged too.
\<close>

locale rate_cap =
  fixes hit :: "'l hit_limit"
    and used :: "'l \<Rightarrow> string \<Rightarrow> int"
    and cap :: "string \<Rightarrow> int"
    and safe :: "'l \<Rightarrow> request list \<Rightarrow> bool"
  assumes safe_tail: "safe l ((k, n, m) # rs) \<Longrightarrow> safe (snd (hit l k n m)) rs"
    and charge: "safe l ((k, n, m) # rs) \<Longrightarrow> \<not> fst (hit l k n m) \<Longrightarrow>
      used (snd (hit l k n m)) k = used l k + sint n \<and> used l k + sint n \<le> cap k"
    and keep: "safe l ((k, n, m) # rs) \<Longrightarrow> fst (hit l k n m) \<or> k' \<noteq> k \<Longrightarrow> used l k' \<le> used (snd (hit l k n m)) k'"
begin

lemma admitted_max:
  assumes "safe l rs"
  shows "used l key + admitted key (fst (run_limiter hit l rs)) \<le> max (used l key) (cap key)"
  using assms
proof (induction rs arbitrary: l)
  case (Cons r rs)
  obtain k n m where r: "r = (k, n, m)" by (metis prod_cases3)
  let ?l = "snd (hit l k n m)"
  have safe: "safe l ((k, n, m) # rs)" using Cons.prems r by simp
  have IH: "used ?l key + admitted key (fst (run_limiter hit ?l rs)) \<le> max (used ?l key) (cap key)"
    by (rule Cons.IH [OF safe_tail [OF safe]])
  show ?case
  proof (cases "k = key \<and> \<not> fst (hit l k n m)")
    case True
    with IH charge [OF safe] show ?thesis by (auto simp: r Let_def split_beta)
  next
    case False
    then have "used l key \<le> used ?l key" using keep [OF safe, of key] by auto
    with IH False show ?thesis by (auto simp: r Let_def split_beta)
  qed
qed simp

text \<open>The admitted messages of a key never exceed what is left of its capacity.\<close>

lemma admitted_le_cap: "safe l rs \<Longrightarrow> used l key \<le> cap key \<Longrightarrow> admitted key (fst (run_limiter hit l rs)) \<le> cap key - used l key"
  using admitted_max [of l rs key] by simp

end

text \<open>
  A limiter without a bound on the total demand: it is in order for any number of legal requests, and keys do
  not interfere.
\<close>

locale window_limiter =
  fixes hit :: "'l hit_limit"
    and used :: "'l \<Rightarrow> string \<Rightarrow> int"
    and cap :: "string \<Rightarrow> int"
    and ok :: "'l \<Rightarrow> bool"
    and legal :: "request \<Rightarrow> bool"
  assumes ok_hit: "ok l \<Longrightarrow> legal (k, n, m) \<Longrightarrow> ok (snd (hit l k n m))"
    and admit: "ok l \<Longrightarrow> legal (k, n, m) \<Longrightarrow> \<not> fst (hit l k n m) \<Longrightarrow>
      used (snd (hit l k n m)) k = used l k + sint n \<and> used l k + sint n \<le> cap k"
    and reject: "ok l \<Longrightarrow> legal (k, n, m) \<Longrightarrow> fst (hit l k n m) \<Longrightarrow>
      used l k \<le> used (snd (hit l k n m)) k"
    and frame: "ok l \<Longrightarrow> legal (k, n, m) \<Longrightarrow> k' \<noteq> k \<Longrightarrow> used (snd (hit l k n m)) k' = used l k'"
begin

lemma ok_run: "ok l \<Longrightarrow> \<forall>r\<in>set rs. legal r \<Longrightarrow> ok (snd (run_limiter hit l rs))"
proof (induction rs arbitrary: l)
  case (Cons r rs)
  then show ?case by (cases r) (auto simp: Let_def split_beta ok_hit)
qed simp

end

sublocale window_limiter \<subseteq> rate_cap hit used cap "\<lambda>l rs. ok l \<and> (\<forall>r\<in>set rs. legal r)"
proof (unfold_locales, goal_cases)
  case (3 l k n m rs k')
  then show ?case using reject [of l k n m] frame [of l k n m k'] by (cases "k' = k") auto
qed (auto simp: ok_hit admit)

context window_limiter
begin

lemmas as_rate_cap = rate_cap_axioms

end

section \<open>The local limiter\<close>

text \<open>
  \<open>duration\<close> is the refill interval in seconds. \<open>ticking\<close> says whether \<open>time.Tick\<close> returned a channel
  that ever delivers: for an interval that is not positive it returns \<open>nil\<close>. Buckets are held by
  value: the map is the only holder of the pointers \<open>IsHitLimit\<close> stores in it.
\<close>

record rateLimiter =
  isStart :: bool
  duration :: int32
  ticking :: bool
  bucketMap :: "string \<rightharpoonup> LeakyBucket"

definition NewRateLimiter :: "int64 \<Rightarrow> rateLimiter" where
  "NewRateLimiter d =
     \<lparr>isStart = False, duration = to_int32 d, ticking = (0 <s d * 1000000000), bucketMap = Map.empty\<rparr>"

definition IsHitLimit :: "rateLimiter hit_limit" where
  "IsHitLimit l topic count maxTokenIfNotExist =
     (let bucket = (case bucketMap l topic of
                      Some b \<Rightarrow> b
                    | None \<Rightarrow> NewLeakyBucket (maxTokenIfNotExist * duration l));
          bucket1 = (if Max bucket \<noteq> maxTokenIfNotExist * duration l
                     then UpdateMax bucket (maxTokenIfNotExist * duration l) else bucket);
          (taken, bucket2) = Take bucket1 count
      in (\<not> taken, l\<lparr>bucketMap := (bucketMap l)(topic \<mapsto> bucket2)\<rparr>))"

definition IsStart :: "rateLimiter \<Rightarrow> bool" where
  "IsStart l = isStart l"

definition PutBucket :: "rateLimiter \<Rightarrow> string \<Rightarrow> LeakyBucket \<Rightarrow> rateLimiter" where
  "PutBucket l topic bucket = l\<lparr>bucketMap := (bucketMap l)(topic \<mapsto> bucket)\<rparr>"

definition Bucket :: "rateLimiter \<Rightarrow> string \<Rightarrow> LeakyBucket option" where
  "Bucket l topic = bucketMap l topic"

definition refillBuckets :: "rateLimiter \<Rightarrow> rateLimiter" where
  "refillBuckets l = l\<lparr>bucketMap := (\<lambda>k. map_option Refill (bucketMap l k))\<rparr>"

text \<open>The tokens of a key that the current window has spent.\<close>

definition used_tokens :: "rateLimiter \<Rightarrow> string \<Rightarrow> int" where
  "used_tokens l k = (case bucketMap l k of None \<Rightarrow> 0 | Some b \<Rightarrow> sint (lb_max b) - sint (lb_token b))"

text \<open>
  The limiter is settled for the rates \<open>lim\<close> and interval \<open>d\<close> when every bucket is well formed and has
  the maximum its key's rate asks for. A request is legal when it counts messages and asks for the
  rate of its key.
\<close>

definition settled :: "(string \<Rightarrow> int32) \<Rightarrow> int32 \<Rightarrow> rateLimiter \<Rightarrow> bool" where
  "settled lim d l \<longleftrightarrow> duration l = d \<and>
     (\<forall>k b. bucketMap l k = Some b \<longrightarrow> wf_bucket b \<and> lb_max b = lim k * d)"

definition legal_request :: "(string \<Rightarrow> int32) \<Rightarrow> int32 \<Rightarrow> request \<Rightarrow> bool" where
  "legal_request lim d = (\<lambda>(k, n, m). wf_count n \<and> m = lim k \<and> 0 \<le> sint (lim k * d))"

definition current_bucket :: "rateLimiter \<Rightarrow> int32 \<Rightarrow> string \<Rightarrow> LeakyBucket" where
  "current_bucket l c k = (case bucketMap l k of Some b \<Rightarrow> b | None \<Rightarrow> NewLeakyBucket c)"

lemma IsHitLimit_current:
  "IsHitLimit l k n m =
    (let c = m * duration l; b = current_bucket l c k; b1 = (if lb_max b = c then b else UpdateMax b c)
     in (\<not> fst (Take b1 n), l\<lparr>bucketMap := (bucketMap l)(k \<mapsto> snd (Take b1 n))\<rparr>))"
  by (simp add: IsHitLimit_def current_bucket_def Let_def split_beta Max_def)

lemma current_bucket_settled:
  assumes "settled lim d l" and "0 \<le> sint (lim k * d)"
  shows "wf_bucket (current_bucket l (lim k * d) k)"
    and "lb_max (current_bucket l (lim k * d) k) = lim k * d"
    and "sint (lb_token (current_bucket l (lim k * d) k)) = sint (lim k * d) - used_tokens l k"
  using assms
  by (auto simp: current_bucket_def settled_def used_tokens_def wf_NewLeakyBucket split: option.splits)
     (auto simp: NewLeakyBucket_def)

lemma IsHitLimit_settled:
  assumes "settled lim d l" and "legal_request lim d (k, n, m)"
  shows "IsHitLimit l k n m =
    (sint (lim k * d) - used_tokens l k < sint n,
     l\<lparr>bucketMap := (bucketMap l)(k \<mapsto> snd (Take (current_bucket l (lim k * d) k) n))\<rparr>)"
proof -
  let ?b = "current_bucket l (lim k * d) k"
  have d: "duration l = d" and m: "m = lim k" and n: "wf_count n" and c: "0 \<le> sint (lim k * d)"
    using assms by (auto simp: settled_def legal_request_def)
  note b = current_bucket_settled [where k = k, OF assms(1) c]
  have "fst (Take ?b n) \<longleftrightarrow> \<not> sint (lim k * d) - used_tokens l k < sint n"
    using Take_spec [OF b(1) n] b(3) by auto
  then show ?thesis
    using b(2) by (simp add: IsHitLimit_current d m Let_def)
qed

lemma bucketMap_IsHitLimit:
  assumes "settled lim d l" and "legal_request lim d (k, n, m)"
  shows "bucketMap (snd (IsHitLimit l k n m)) =
    (bucketMap l)(k \<mapsto> snd (Take (current_bucket l (lim k * d) k) n))"
    and "duration (snd (IsHitLimit l k n m)) = duration l"
  using IsHitLimit_settled [OF assms] by simp_all

lemma fst_IsHitLimit:
  assumes "settled lim d l" and "legal_request lim d (k, n, m)"
  shows "fst (IsHitLimit l k n m) \<longleftrightarrow> sint (lim k * d) - used_tokens l k < sint n"
  using IsHitLimit_settled [OF assms] by simp

lemma settled_IsHitLimit:
  assumes "settled lim d l" and "legal_request lim d (k, n, m)"
  shows "settled lim d (snd (IsHitLimit l k n m))"
proof -
  have "wf_count n" and "0 \<le> sint (lim k * d)" using assms(2) by (auto simp: legal_request_def)
  with assms current_bucket_settled [OF assms(1), of k] show ?thesis
    by (auto simp: settled_def bucketMap_IsHitLimit [OF assms] wf_Take)
qed

lemma used_IsHitLimit:
  assumes "settled lim d l" and "legal_request lim d (k, n, m)"
  shows "used_tokens (snd (IsHitLimit l k n m)) k' =
    used_tokens l k' + (if k' = k \<and> \<not> fst (IsHitLimit l k n m) then sint n else 0)"
proof -
  have n: "wf_count n" and c: "0 \<le> sint (lim k * d)" using assms(2) by (auto simp: legal_request_def)
  note b = current_bucket_settled [where k = k, OF assms(1) c]
  have "fst (Take (current_bucket l (lim k * d) k) n) \<longleftrightarrow> \<not> fst (IsHitLimit l k n m)"
    using Take_spec [OF b(1) n] b(3) IsHitLimit_settled [OF assms] by auto
  then show ?thesis
    using token_Take [OF b(1) n] b by (auto simp: used_tokens_def bucketMap_IsHitLimit [OF assms])
qed

interpretation local_limiter: window_limiter IsHitLimit used_tokens "\<lambda>k. sint (lim k * d)"
    "settled lim d" "legal_request lim d" for lim d
  by unfold_locales (auto simp: settled_IsHitLimit used_IsHitLimit fst_IsHitLimit)

lemma settled_New: "settled lim (to_int32 d) (NewRateLimiter d)"
  by (simp add: settled_def NewRateLimiter_def)

text \<open>A refill keeps the limiter settled and clears what the window has used.\<close>

lemma settled_refillBuckets: "settled lim d l \<Longrightarrow> settled lim d (refillBuckets l)"
proof -
  assume l: "settled lim d l"
  have "wf_bucket (Refill b) \<and> lb_max (Refill b) = lim k * d" if "bucketMap l k = Some b" for k b
  proof -
    have b: "wf_bucket b" "lb_max b = lim k * d" using l that by (auto simp: settled_def)
    then have "0 \<le> sint (lb_max b)" by (auto simp: wf_bucket_def)
    with b show ?thesis by (simp add: wf_Refill)
  qed
  with l show ?thesis by (simp add: settled_def [of lim d] refillBuckets_def) fastforce
qed

lemma used_refillBuckets [simp]: "used_tokens (refillBuckets l) k = 0"
  by (auto simp: used_tokens_def refillBuckets_def Refill_def split: option.splits)

text \<open>
  The rate is enforced: starting from a refill, no sequence of requests, for any keys and in any
  order, gets more messages of one key past the local limiter than the key's rate times the refill
  interval, as long as all requests of a key ask for the same non-negative 32-bit limit.
\<close>

lemma local_limiter_enforces_rate:
  assumes "settled lim d l" and "\<forall>r\<in>set rs. legal_request lim d r" and "0 \<le> sint (lim key * d)"
  shows "admitted key (fst (run_limiter IsHitLimit (refillBuckets l) rs)) \<le> sint (lim key * d)"
  using local_limiter.admitted_le_cap [of lim d "refillBuckets l" rs key] assms
  by (simp add: settled_refillBuckets)

lemma local_limiter_enforces_rate_example:
  "admitted ''a'' (fst (run_limiter IsHitLimit (refillBuckets (NewRateLimiter 10))
     [(''a'', 20, 5), (''b'', 60, 5), (''a'', 40, 5), (''a'', 30, 5)])) \<le> 50"
proof -
  let ?rs = "[(''a'', 20, 5), (''b'', 60, 5), (''a'', 40, 5), (''a'', 30, 5)] :: request list"
  have "settled (\<lambda>_. 5) 10 (NewRateLimiter 10)"
    using settled_New [of "\<lambda>_. 5" 10] by (simp add: to_int32_def)
  moreover have "\<forall>r\<in>set ?rs. legal_request (\<lambda>_. 5) 10 r"
    by (simp add: legal_request_def wf_count_def)
  ultimately show ?thesis
    using local_limiter_enforces_rate [of "\<lambda>_. 5" 10 "NewRateLimiter 10" ?rs "''a''"] by simp
qed

text \<open>
  What one call answers, on a key the limiter has seen or not: a legal request is turned away
  exactly when it asks for more than is left of the key's limit; it then changes no key's use, and
  otherwise it adds its count to its own key's use and to no other's.
\<close>

lemma IsHitLimit_functional:
  assumes "settled lim d l" and "legal_request lim d (k, n, m)"
  shows "(fst (IsHitLimit l k n m) \<longleftrightarrow> sint (lim k * d) - used_tokens l k < sint n)
    \<and> used_tokens (snd (IsHitLimit l k n m)) =
        (used_tokens l)(k := used_tokens l k + (if fst (IsHitLimit l k n m) then 0 else sint n))
    \<and> settled lim d (snd (IsHitLimit l k n m))"
  using fst_IsHitLimit [OF assms] used_IsHitLimit [OF assms] settled_IsHitLimit [OF assms]
  by (auto simp: fun_eq_iff)

lemma IsHitLimit_functional_example:
  "\<not> fst (IsHitLimit (NewRateLimiter 2) ''a'' 6 3) \<and> fst (IsHitLimit (NewRateLimiter 2) ''a'' 7 3)"
proof -
  have s: "settled (\<lambda>_. 3) 2 (NewRateLimiter 2)"
    using settled_New [of "\<lambda>_. 3" 2] by (simp add: to_int32_def)
  have r: "legal_request (\<lambda>_. 3) 2 (''a'', 6, 3)" "legal_request (\<lambda>_. 3) 2 (''a'', 7, 3)"
    by (simp_all add: legal_request_def wf_count_def)
  show ?thesis
    using IsHitLimit_functional [OF s r(1)] IsHitLimit_functional [OF s r(2)]
    by (simp add: used_tokens_def NewRateLimiter_def)
qed

section \<open>Requests that disagree on the limit\<close>

text \<open>
  The limit travels with each request, and \<open>UpdateMax\<close> adds the difference on a raise but takes
  nothing back on a drop. The requests below ask for one message each, alternately at the rates 1 and
  3, from a limiter with an interval of one second.
\<close>

fun alternating :: "string \<Rightarrow> nat \<Rightarrow> request list" where
  "alternating k 0 = []"
| "alternating k (Suc n) = (k, 1, 1) # (k, 1, 3) # alternating k n"

lemma sint32_numerals:
  "sint (0 :: int32) = 0" "sint (1 :: int32) = 1" "sint (2 :: int32) = 2" "sint (3 :: int32) = 3"
  "sint (4 :: int32) = 4"
  by simp_all

lemma alternate_pair:
  assumes "duration l = 1" and "bucketMap l k = None \<or> bucketMap l k = Some \<lparr>lb_max = 3, lb_token = 1\<rparr>"
  shows "\<exists>l'. run_limiter IsHitLimit l ((k, 1, 1) # (k, 1, 3) # rs) =
      (((k, 1, 1), False) # ((k, 1, 3), False) # fst (run_limiter IsHitLimit l' rs), snd (run_limiter IsHitLimit l' rs))
    \<and> duration l' = 1 \<and> bucketMap l' k = Some \<lparr>lb_max = 3, lb_token = 1\<rparr>"
proof -
  have "to_int32 1 = 1" by (simp add: to_int32_def)
  with assms show ?thesis
    by (intro exI [of _ "snd (IsHitLimit (snd (IsHitLimit l k 1 1)) k 1 3)"])
      (auto simp: IsHitLimit_current current_bucket_def Let_def split_beta bucket_defs word_sless_alt)
qed

lemma alternating_admitted:
  "duration l = 1 \<Longrightarrow> bucketMap l k = None \<or> bucketMap l k = Some \<lparr>lb_max = 3, lb_token = 1\<rparr> \<Longrightarrow>
    admitted k (fst (run_limiter IsHitLimit l (alternating k n))) = 2 * int n"
proof (induction n arbitrary: l)
  case (Suc n)
  from alternate_pair [OF Suc.prems, of "alternating k n"] Suc.IH show ?case by auto
qed simp

text \<open>
  C34. A limit that alternates defeats the limiter: for every \<open>n\<close>, with no refill in between, all
  \<open>2 n\<close> single messages of a key that ask alternately for the rates 1 and 3 pass the local limiter,
  although either rate alone admits at most 1 or 3 of them.
\<close>

theorem alternating_limits_unbounded:
  "admitted k (fst (run_limiter IsHitLimit (NewRateLimiter 1) (alternating k n))) = 2 * int n"
  by (rule alternating_admitted) (simp_all add: NewRateLimiter_def to_int32_def)

section \<open>The refill loop\<close>

text \<open>
  \<open>Start\<close> starts a goroutine that runs \<open>loopRefillBuckets\<close>; \<open>Stop\<close> starts one that offers a stop
  signal on an unbuffered channel. \<open>starting\<close> loops have not yet set \<open>isStart\<close>, \<open>looping\<close> ones wait in
  the \<open>select\<close>, \<open>stops\<close> signals wait for a receiver. Handlers call \<open>IsHitLimit\<close> at any time.
\<close>

record limiter_sys =
  lim :: rateLimiter
  starting :: nat
  looping :: nat
  stops :: nat

definition limiter_init :: "int64 \<Rightarrow> limiter_sys \<Rightarrow> bool" where
  "limiter_init d s \<longleftrightarrow> s = \<lparr>lim = NewRateLimiter d, starting = 0, looping = 0, stops = 0\<rparr>"

definition Start :: "limiter_sys \<Rightarrow> limiter_sys" where
  "Start s = s\<lparr>starting := Suc (starting s)\<rparr>"

definition Stop :: "limiter_sys \<Rightarrow> limiter_sys" where
  "Stop s = s\<lparr>stops := Suc (stops s)\<rparr>"

inductive limiter_step :: "limiter_sys \<Rightarrow> limiter_sys \<Rightarrow> bool" where
  call_Start: "starting s + looping s = 0 \<Longrightarrow> limiter_step s (Start s)"
| call_Stop: "limiter_step s (Stop s)"
| call_IsHitLimit: "limiter_step s (s\<lparr>lim := snd (IsHitLimit (lim s) k n m)\<rparr>)"
| loop_begin: "0 < starting s \<Longrightarrow>
    limiter_step s (s\<lparr>lim := (lim s)\<lparr>isStart := True\<rparr>, starting := starting s - 1, looping := Suc (looping s)\<rparr>)"
| loop_tick: "0 < looping s \<Longrightarrow> ticking (lim s) \<Longrightarrow>
    limiter_step s (s\<lparr>lim := refillBuckets (lim s)\<rparr>)"
| loop_stop: "0 < looping s \<Longrightarrow> 0 < stops s \<Longrightarrow>
    limiter_step s (s\<lparr>lim := (lim s)\<lparr>isStart := False\<rparr>, looping := looping s - 1, stops := stops s - 1\<rparr>)"

definition limiter_inv :: "limiter_sys \<Rightarrow> bool" where
  "limiter_inv s \<longleftrightarrow> starting s + looping s \<le> 1 \<and> (IsStart (lim s) \<longleftrightarrow> looping s = 1)"

lemma isStart_IsHitLimit [simp]: "isStart (snd (IsHitLimit l k n m)) = isStart l"
  by (simp add: IsHitLimit_def Let_def split_beta)

inductive_cases limiter_stepE: "limiter_step s t"

lemma limiter_step_inv: "limiter_inv s \<Longrightarrow> limiter_step s t \<Longrightarrow> limiter_inv t"
  by (erule limiter_stepE) (auto simp: limiter_inv_def Start_def Stop_def IsStart_def refillBuckets_def)

interpretation refill_loop: state_machine "limiter_init d" limiter_step limiter_inv for d
proof
  show "limiter_inv s" if "limiter_init d s" for s
    using that by (simp add: limiter_init_def limiter_inv_def NewRateLimiter_def IsStart_def)
qed (rule limiter_step_inv)

text \<open>
  The refill loop and its flag agree: when the limiter is not started again while a loop runs (the
  producer starts it once), then in every reachable state at most one loop runs and \<open>IsStart\<close> says
  whether one does, whatever the interleaving with stop signals, ticks and requests.
\<close>

lemma refill_loop_flag:
  "reach (limiter_init d) limiter_step s \<Longrightarrow>
    starting s + looping s \<le> 1 \<and> (IsStart (lim s) \<longleftrightarrow> looping s = 1)"
  using refill_loop.inv_reach [of d s] by (simp add: limiter_inv_def)

lemma refill_loop_flag_example:
  "\<exists>s. reach (limiter_init 10) limiter_step s \<and> looping s = 1 \<and> IsStart (lim s)"
proof -
  let ?s0 = "\<lparr>lim = NewRateLimiter 10, starting = 0, looping = 0, stops = 0\<rparr>"
  let ?s1 = "Start ?s0"
  let ?s2 = "?s1\<lparr>lim := (lim ?s1)\<lparr>isStart := True\<rparr>, starting := starting ?s1 - 1, looping := Suc (looping ?s1)\<rparr>"
  have "reach (limiter_init 10) limiter_step ?s0" by (rule reach_init) (simp add: limiter_init_def)
  then have "reach (limiter_init 10) limiter_step ?s1" by (rule reach_step) (rule call_Start, simp)
  then have "reach (limiter_init 10) limiter_step ?s2" by (rule reach_step) (rule loop_begin, simp add: Start_def)
  moreover from this have "IsStart (lim ?s2)" using refill_loop_flag [of 10 ?s2] by (simp add: Start_def)
  ultimately show ?thesis by (intro exI [of _ ?s2]) (simp add: Start_def)
qed

end
