(* ===== verification/Producer.thy ===== *)
theory Producer
  imports Kafka_Admin Metrics Rate_Limiter
begin

text \<open>
  The producer service of \<open>flow/grpc_producer.go\<close> with the gRPC errors of \<open>flow/on_grpc_error.go\<close>:
  connecting with retries, starting, the handlers \<open>Produce\<close> and \<open>ProduceBatch\<close>, closing. The limiter is
  any implementation of the \<open>RateLimiter\<close> interface, with state \<open>'l\<close>. Besides the service's fields the
  state holds the metrics log and \<open>calls\<close>, the list of calls that write to Kafka with their outcomes.
\<close>

section \<open>State\<close>

datatype kafka_call =
    KSend ProducerMessage "error option"
  | KCreate string int32 int16 "error option"

record ('l, 'k) producerService =
  grpcAddr :: string
  topicPrefix :: string
  topicSuffix :: string
  kafkaMaxRetry :: int
  kafkaRetryInterval :: int
  newEventTopic :: string
  grpcMaxRecvMsgSize :: int
  ignoreKafkaOptions :: bool
  kafkaMessageFormat :: string
  producer :: bool
  adminOf :: "kafkaAdmin option"
  limiter :: 'l
  grpcServer :: bool
  metrics :: metrics
  calls :: "kafka_call list"
  kafka :: 'k

text \<open>
  What the service gets from other packages: Kafka, the protobuf encoders, \<open>regexp\<close>, the limiter's
  methods, and the network. \<open>producer\<close> and \<open>grpcServer\<close> say whether those interface fields are non-nil;
  \<open>reverseProxy\<close> is never assigned and therefore always nil.
\<close>

record ('l, 'k) producer_env =
  kenv :: "'k kafka_env"
  marshalTimber :: "Timber marshal"
  marshalCollection :: "TimberCollection marshal"
  regexpReplace :: regexp_replace
  hitLimit :: "'l hit_limit"
  limiterStart :: "'l \<Rightarrow> 'l"
  limiterStop :: "'l \<Rightarrow> 'l"
  Listen :: "string \<Rightarrow> 'k \<Rightarrow> error option \<times> 'k"
  Serve :: "'k \<Rightarrow> error option \<times> 'k"
  GracefulStop :: "'k \<Rightarrow> 'k"
  CloseProducer :: "'k \<Rightarrow> 'k"

text \<open>
  The constructor takes its parameters by name from a map and asserts the type of each: a missing
  entry or one of another type panics. A new service has no connection.
\<close>

datatype 'l param = PString string | PInt int | PBool bool | PFactory | PLimiter 'l

fun asString :: "'l param option \<Rightarrow> string go" where
  "asString (Some (PString x)) = Ret x"
| "asString _ = Panic ''interface conversion''"

fun asInt :: "'l param option \<Rightarrow> int go" where
  "asInt (Some (PInt x)) = Ret x"
| "asInt _ = Panic ''interface conversion''"

fun asBool :: "'l param option \<Rightarrow> bool go" where
  "asBool (Some (PBool x)) = Ret x"
| "asBool _ = Panic ''interface conversion''"

fun asFactory :: "'l param option \<Rightarrow> unit go" where
  "asFactory (Some PFactory) = Ret ()"
| "asFactory _ = Panic ''interface conversion''"

fun asLimiter :: "'l param option \<Rightarrow> 'l go" where
  "asLimiter (Some (PLimiter x)) = Ret x"
| "asLimiter _ = Panic ''interface conversion''"

definition NewProducerService :: "(string \<rightharpoonup> 'l param) \<Rightarrow> metrics \<Rightarrow> 'k \<Rightarrow> ('l, 'k) producerService go" where
  "NewProducerService params ms k =
     go_bind (asFactory (params ''factory'')) (\<lambda>_.
     go_bind (asString (params ''grpcAddr'')) (\<lambda>addr.
     go_bind (asString (params ''topicPrefix'')) (\<lambda>prefx.
     go_bind (asString (params ''topicSuffix'')) (\<lambda>sfx.
     go_bind (asInt (params ''kafkaMaxRetry'')) (\<lambda>maxRetry.
     go_bind (asInt (params ''kafkaRetryInterval'')) (\<lambda>interval.
     go_bind (asString (params ''newEventTopic'')) (\<lambda>event.
     go_bind (asInt (params ''grpcMaxRecvMsgSize'')) (\<lambda>maxSize.
     go_bind (asBool (params ''ignoreKafkaOptions'')) (\<lambda>ignore.
     go_bind (asString (params ''kafkaMessageFormat'')) (\<lambda>format.
     go_bind (asLimiter (params ''limiter'')) (\<lambda>l.
       Ret \<lparr>grpcAddr = addr, topicPrefix = prefx, topicSuffix = sfx, kafkaMaxRetry = maxRetry,
            kafkaRetryInterval = interval, newEventTopic = event, grpcMaxRecvMsgSize = maxSize,
            ignoreKafkaOptions = ignore, kafkaMessageFormat = format, producer = False, adminOf = None,
            limiter = l, grpcServer = False, metrics = ms, calls = [], kafka = k\<rparr>)))))))))))"

section \<open>Errors\<close>

definition ErrMakeSyncProducer :: error where
  "ErrMakeSyncProducer = Err ''Make sync producer failed''"

definition ErrMakeKafkaAdmin :: error where
  "ErrMakeKafkaAdmin = Err ''Make kafka admin failed''"

definition ErrInitGrpc :: error where
  "ErrInitGrpc = Err ''Failed to listen to gRPC address''"

definition onLimitExceededGrpc :: error where
  "onLimitExceededGrpc = Status ResourceExhausted (Err ''Bandwidth Limit Exceeded'')"

definition onBadRequestGrpc :: "error \<Rightarrow> error" where
  "onBadRequestGrpc err = Status InvalidArgument err"

definition onStoreErrorGrpc :: "error \<Rightarrow> error" where
  "onStoreErrorGrpc err = Status FailedPrecondition err"

definition onCreateTopicErrorGrpc :: "error \<Rightarrow> error" where
  "onCreateTopicErrorGrpc err = Status Unavailable err"

definition onSendCreateTopicErrorGrpc :: "error \<Rightarrow> error" where
  "onSendCreateTopicErrorGrpc err = Status Unavailable err"

section \<open>Small steps on the state\<close>

definition observe :: "(metrics \<Rightarrow> metrics) \<Rightarrow> ('l, 'k) producerService \<Rightarrow> ('l, 'k) producerService" where
  "observe f s = s\<lparr>metrics := f (metrics s)\<rparr>"

definition observeGo :: "(metrics \<Rightarrow> metrics go) \<Rightarrow> ('l, 'k) producerService \<Rightarrow> ('l, 'k) producerService go" where
  "observeGo f s = go_bind (f (metrics s)) (\<lambda>ms. Ret (s\<lparr>metrics := ms\<rparr>))"

definition timeNow :: "('l, 'k) producer_env \<Rightarrow> ('l, 'k) producerService \<Rightarrow> string \<times> ('l, 'k) producerService" where
  "timeNow env s = (let (ts, k1) = Now (kenv env) (kafka s) in (ts, s\<lparr>kafka := k1\<rparr>))"

definition sendMessage :: "('l, 'k) producer_env \<Rightarrow> ProducerMessage \<Rightarrow> ('l, 'k) producerService \<Rightarrow>
    (error option \<times> ('l, 'k) producerService) go" where
  "sendMessage env message s =
     (if \<not> producer s then Panic ''nil pointer dereference''
      else let (err, k1) = SendMessage (kenv env) message (kafka s)
           in Ret (err, s\<lparr>calls := calls s @ [KSend message err], kafka := k1\<rparr>))"

section \<open>Connecting\<close>

definition MakeSyncProducer :: "('l, 'k) producer_env \<Rightarrow> ('l, 'k) producerService \<Rightarrow> (error + unit) \<times> ('l, 'k) producerService" where
  "MakeSyncProducer env s =
     (case NewSyncProducer (kenv env) (kafka s) of
        (None, k1) \<Rightarrow> (Inr (), s\<lparr>producer := True, kafka := k1\<rparr>)
      | (Some e, k1) \<Rightarrow> (Inl e, s\<lparr>producer := False, kafka := k1\<rparr>))"

definition MakeKafkaAdmin :: "'k kafka_env \<Rightarrow> 'k \<Rightarrow> (error + kafkaAdmin) \<times> 'k" where
  "MakeKafkaAdmin env k =
     (case NewClient env k of
        (Inl e, k1) \<Rightarrow> (Inl e, k1)
      | (Inr addrs, k1) \<Rightarrow> (Inr (NewKafkaAdmin addrs), k1))"

definition makeAdmin :: "('l, 'k) producer_env \<Rightarrow> ('l, 'k) producerService \<Rightarrow> (error + unit) \<times> ('l, 'k) producerService" where
  "makeAdmin env s =
     (case MakeKafkaAdmin (kenv env) (kafka s) of
        (Inr a, k1) \<Rightarrow> (Inr (), s\<lparr>adminOf := Some a, kafka := k1\<rparr>)
      | (Inl e, k1) \<Rightarrow> (Inl e, s\<lparr>adminOf := None, kafka := k1\<rparr>))"

definition sleepRetry :: "('l, 'k) producer_env \<Rightarrow> ('l, 'k) producerService \<Rightarrow> ('l, 'k) producerService" where
  "sleepRetry env s = s\<lparr>kafka := Sleep (kenv env) (kafkaRetryInterval s) (kafka s)\<rparr>"

text \<open>Both return \<^const>\<open>None\<close> when they never return, else the error or success, and the attempts made.\<close>

definition initProducer :: "('l, 'k) producer_env \<Rightarrow> ('l, 'k) producerService \<Rightarrow>
    ((error + unit) \<times> int \<times> ('l, 'k) producerService) option" where
  "initProducer env s =
     retryLoop (MakeSyncProducer env) (observe IncreaseProducerKafkaClientFailed) (sleepRetry env)
       (kafkaMaxRetry s) 0 s"

definition initKafkaAdmin :: "('l, 'k) producer_env \<Rightarrow> ('l, 'k) producerService \<Rightarrow>
    ((error + unit) \<times> int \<times> ('l, 'k) producerService) option" where
  "initKafkaAdmin env s =
     retryLoop (makeAdmin env) (\<lambda>s. s) (sleepRetry env) (kafkaMaxRetry s) 0 s"

definition initGrpcServer :: "('l, 'k) producer_env \<Rightarrow> ('l, 'k) producerService \<Rightarrow> error option \<times> ('l, 'k) producerService" where
  "initGrpcServer env s =
     (case Listen env (grpcAddr s) (kafka s) of
        (Some e, k1) \<Rightarrow> (Some e, s\<lparr>kafka := k1\<rparr>)
      | (None, k1) \<Rightarrow> (None, s\<lparr>kafka := k1, grpcServer := True\<rparr>))"

text \<open>
  \<open>Start\<close> up to the call of \<open>Serve\<close>: an error, or the state in which the server runs and the handlers
  are called.
\<close>

definition StartService :: "('l, 'k) producer_env \<Rightarrow> ('l, 'k) producerService \<Rightarrow>
    (error option \<times> ('l, 'k) producerService) option" where
  "StartService env s =
     (case initProducer env s of
        None \<Rightarrow> None
      | Some (Inl e, _, s1) \<Rightarrow> Some (Some (Concat ErrMakeSyncProducer e), s1)
      | Some (Inr _, _, s1) \<Rightarrow>
          (case initKafkaAdmin env s1 of
             None \<Rightarrow> None
           | Some (Inl e, _, s2) \<Rightarrow> Some (Some (Concat ErrMakeKafkaAdmin e), s2)
           | Some (Inr _, _, s2) \<Rightarrow>
               let s3 = s2\<lparr>limiter := limiterStart env (limiter s2)\<rparr>
               in case initGrpcServer env s3 of
                    (Some e, s4) \<Rightarrow> Some (Some (Concat ErrInitGrpc e), s4)
                  | (None, s4) \<Rightarrow> Some (None, s4)))"

definition CloseService :: "('l, 'k) producer_env \<Rightarrow> ('l, 'k) producerService \<Rightarrow> ('l, 'k) producerService" where
  "CloseService env s =
     (let s1 = (if grpcServer s then s\<lparr>kafka := GracefulStop env (kafka s)\<rparr> else s);
          s2 = s1\<lparr>limiter := limiterStop env (limiter s1)\<rparr>;
          s3 = (case adminOf s2 of Some a \<Rightarrow> s2\<lparr>kafka := CloseAdmin (kenv env) a (kafka s2)\<rparr> | None \<Rightarrow> s2)
      in if producer s3 then s3\<lparr>kafka := CloseProducer env (kafka s3)\<rparr> else s3)"

section \<open>Sending\<close>

definition sendLogs :: "('l, 'k) producer_env \<Rightarrow> string \<Rightarrow> Timber \<Rightarrow> ('l, 'k) producerService \<Rightarrow>
    (error option \<times> ('l, 'k) producerService) go" where
  "sendLogs env topic timber s =
     go_bind (sendMessage env (ConvertTimberToKafkaMessage (marshalTimber env) timber topic) s) (\<lambda>(err, s1).
       Ret (err, observe (ObserveSendToKafkaTime topic) s1))"

definition sendLogsTimberCollection :: "('l, 'k) producer_env \<Rightarrow> string \<Rightarrow> TimberCollection \<Rightarrow> ('l, 'k) producerService \<Rightarrow>
    (error option \<times> ('l, 'k) producerService) go" where
  "sendLogsTimberCollection env topic timberCollection s =
     go_bind (sendMessage env (ConvertTimberCollectionToKafkaMessage (marshalCollection env) timberCollection topic) s)
       (\<lambda>(err, s1). Ret (err, observe (ObserveSendToKafkaTime topic) s1))"

definition topicEvent :: "('l, 'k) producerService \<Rightarrow> string \<Rightarrow> ProducerMessage" where
  "topicEvent s topic = \<lparr>pmTopic = newEventTopic s, pmValue = topic, pmHeaders = []\<rparr>"

definition sendCreateTopicEvents :: "('l, 'k) producer_env \<Rightarrow> string \<Rightarrow> ('l, 'k) producerService \<Rightarrow>
    (error option \<times> ('l, 'k) producerService) go" where
  "sendCreateTopicEvents env topic s = sendMessage env (topicEvent s topic) s"

definition createTopicIfNotExist :: "('l, 'k) producer_env \<Rightarrow> TimberContext option \<Rightarrow> string \<Rightarrow> ('l, 'k) producerService \<Rightarrow>
    (error option \<times> ('l, 'k) producerService) go" where
  "createTopicIfNotExist env timberContext topic s =
     (case adminOf s of
        None \<Rightarrow> Panic ''nil pointer dereference''
      | Some a \<Rightarrow>
          let (found, a1, k1) = Exist (kenv env) a topic (kafka s);
              s1 = s\<lparr>adminOf := Some a1, kafka := k1\<rparr>
          in if found then Ret (None, s1)
             else
               let numPartitions = (if ignoreKafkaOptions s then - 1 else GetKafkaPartition timberContext);
                   replicationFactor = (if ignoreKafkaOptions s then - 1 else GetKafkaReplicationFactor timberContext);
                   (err, k2) = CreateTopic (kenv env) a1 topic numPartitions (to_int16 replicationFactor) k1;
                   s2 = s1\<lparr>kafka := k2, calls := calls s1 @ [KCreate topic numPartitions (to_int16 replicationFactor) err]\<rparr>
               in case err of
                    Some e \<Rightarrow>
                      Ret (Some (onCreateTopicErrorGrpc e),
                           observe (IncreaseKafkaMessagesStoredTotalWithError topic ''create_topic'') s2)
                  | None \<Rightarrow>
                      go_bind (sendCreateTopicEvents env topic (s2\<lparr>adminOf := Some (AddTopic a1 topic)\<rparr>)) (\<lambda>(err, s3).
                        case err of
                          Some e \<Rightarrow>
                            Ret (Some (onSendCreateTopicErrorGrpc e),
                                 observe (IncreaseKafkaMessagesStoredTotalWithError topic ''send_create_topic_event'') s3)
                        | None \<Rightarrow> Ret (None, s3)))"

definition handleProduce :: "('l, 'k) producer_env \<Rightarrow> Timber \<Rightarrow> string \<Rightarrow> ('l, 'k) producerService \<Rightarrow>
    (error option \<times> ('l, 'k) producerService) go" where
  "handleProduce env timber topic s =
     go_bind (createTopicIfNotExist env (tContext timber) topic s) (\<lambda>(err, s1).
       case err of
         Some e \<Rightarrow> Ret (Some e, s1)
       | None \<Rightarrow>
           go_bind (sendLogs env topic timber s1) (\<lambda>(err, s2).
             case err of
               Some e \<Rightarrow>
                 Ret (Some (onStoreErrorGrpc e), observe (IncreaseKafkaMessagesStoredTotalWithError topic ''send_log'') s2)
             | None \<Rightarrow>
                 go_bind (observeGo (ObserveByteIngestion (regexpReplace env) topic (topicSuffix s)
                     (length (fst (marshalTimber env timber)))) s2) (\<lambda>s3.
                   Ret (None, observe (IncreaseKafkaMessagesStoredTotal topic) s3))))"

definition handleProduceBatch :: "('l, 'k) producer_env \<Rightarrow> TimberCollection \<Rightarrow> string \<Rightarrow> ('l, 'k) producerService \<Rightarrow>
    (error option \<times> ('l, 'k) producerService) go" where
  "handleProduceBatch env timberCollection topic s =
     go_bind (createTopicIfNotExist env (cContext timberCollection) topic s) (\<lambda>(err, s1).
       case err of
         Some e \<Rightarrow> Ret (Some e, s1)
       | None \<Rightarrow>
           go_bind (sendLogsTimberCollection env topic timberCollection s1) (\<lambda>(err, s2).
             case err of
               Some e \<Rightarrow>
                 Ret (Some (onStoreErrorGrpc e), observe (IncreaseKafkaMessagesStoredTotalWithError topic ''send_log'') s2)
             | None \<Rightarrow>
                 go_bind (observeGo (ObserveByteIngestionCollection (regexpReplace env) topic (topicSuffix s)
                     (length (fst (marshalCollection env timberCollection)))) s2) (\<lambda>s3.
                   Ret (None, observe (IncreaseKafkaMessagesStoredTotal topic) s3))))"

section \<open>The handlers\<close>

definition RateLimitKeyAppGroup :: string where
  "RateLimitKeyAppGroup = ''app_group''"

definition ProberTopic :: string where
  "ProberTopic = ''barito-prober''"

definition getRateLimitInfo :: "('l, 'k) producerService \<Rightarrow> TimberContext option \<Rightarrow> string \<times> int32" where
  "getRateLimitInfo s context =
     (let kafkaTopic = GetKafkaTopic context
      in if Contains kafkaTopic ProberTopic then (topicPrefix s @ kafkaTopic, 1)
         else if GetDisableAppTps context then (RateLimitKeyAppGroup, GetAppGroupMaxTps context)
         else (topicPrefix s @ GetKafkaTopic context @ topicSuffix s, GetAppMaxTps context))"

definition topicOf :: "('l, 'k) producerService \<Rightarrow> TimberContext option \<Rightarrow> string" where
  "topicOf s context = topicPrefix s @ GetKafkaTopic context @ topicSuffix s"

definition checkLimit :: "('l, 'k) producer_env \<Rightarrow> TimberContext option \<Rightarrow> int64 \<Rightarrow> ('l, 'k) producerService \<Rightarrow>
    bool \<times> ('l, 'k) producerService" where
  "checkLimit env context n s =
     (let (rateLimitKey, maxToken) = getRateLimitInfo s context;
          (hit, l1) = hitLimit env (limiter s) rateLimitKey n maxToken
      in (hit, s\<lparr>limiter := l1\<rparr>))"

definition stamp :: "('l, 'k) producer_env \<Rightarrow> Timber \<Rightarrow> ('l, 'k) producerService \<Rightarrow> Timber \<times> ('l, 'k) producerService" where
  "stamp env timber s = (let (ts, s1) = timeNow env s in (timber\<lparr>tTimestamp := ts\<rparr>, s1))"

fun stampItems :: "('l, 'k) producer_env \<Rightarrow> Timber list \<Rightarrow> ('l, 'k) producerService \<Rightarrow> Timber list \<times> ('l, 'k) producerService" where
  "stampItems env [] s = ([], s)"
| "stampItems env (timber # items) s =
     (let (t, s1) = stamp env timber s; (ts, s2) = stampItems env items s1 in (t # ts, s2))"

definition observeExceeded :: "('l, 'k) producer_env \<Rightarrow> string \<Rightarrow> Timber \<Rightarrow> ('l, 'k) producerService \<Rightarrow>
    ('l, 'k) producerService go" where
  "observeExceeded env topic timber s =
     (let (t, s1) = stamp env timber s
      in observeGo (ObserveTPSExceededBytes (regexpReplace env) topic (topicSuffix s)
           (length (fst (marshalTimber env t)))) s1)"

fun observeExceededItems :: "('l, 'k) producer_env \<Rightarrow> TimberContext option \<Rightarrow> string \<Rightarrow> Timber list \<Rightarrow>
    ('l, 'k) producerService \<Rightarrow> ('l, 'k) producerService go" where
  "observeExceededItems env context topic [] s = Ret s"
| "observeExceededItems env context topic (timber # items) s =
     go_bind (observeExceeded env topic (timber\<lparr>tContext := context\<rparr>) s)
       (observeExceededItems env context topic items)"

definition respond :: "string \<Rightarrow> (error option \<times> ('l, 'k) producerService) go \<Rightarrow>
    ((error + string) \<times> ('l, 'k) producerService) go" where
  "respond topic m =
     go_bind m (\<lambda>(err, s). Ret (case err of Some e \<Rightarrow> Inl e | None \<Rightarrow> Inr topic, s))"

text \<open>
  A handler answers with the error, or with the topic of its \<open>ProduceResult\<close>. The decoder of gRPC
  never hands a handler a nil message or a nil item.
\<close>

definition Produce :: "('l, 'k) producer_env \<Rightarrow> Timber \<Rightarrow> ('l, 'k) producerService \<Rightarrow>
    ((error + string) \<times> ('l, 'k) producerService) go" where
  "Produce env timber s =
     (let topic = topicOf s (tContext timber);
          (hit, s1) = checkLimit env (tContext timber) 1 s
      in if hit
         then go_bind (observeExceeded env topic timber (observe (IncreaseProducerTPSExceededCounter topic 1) s1))
                (\<lambda>s2. Ret (Inl onLimitExceededGrpc, s2))
         else
           let (t, s2) = stamp env timber s1
           in respond topic
                (if kafkaMessageFormat s = TimberCollectionMessageFormat
                 then handleProduceBatch env \<lparr>cContext = tContext timber, cItems = [t]\<rparr> topic s2
                 else handleProduce env t topic s2))"

fun produceItems :: "('l, 'k) producer_env \<Rightarrow> TimberContext option \<Rightarrow> string \<Rightarrow> Timber list \<Rightarrow>
    ('l, 'k) producerService \<Rightarrow> (error option \<times> ('l, 'k) producerService) go" where
  "produceItems env context topic [] s = Ret (None, s)"
| "produceItems env context topic (timber # items) s =
     (let (t, s1) = stamp env (timber\<lparr>tContext := context\<rparr>) s
      in go_bind (handleProduce env t topic s1) (\<lambda>(err, s2).
           case err of
             Some e \<Rightarrow> Ret (Some e, s2)
           | None \<Rightarrow> produceItems env context topic items s2))"

definition ProduceBatch :: "('l, 'k) producer_env \<Rightarrow> TimberCollection \<Rightarrow> ('l, 'k) producerService \<Rightarrow>
    ((error + string) \<times> ('l, 'k) producerService) go" where
  "ProduceBatch env timberCollection s =
     (let context = cContext timberCollection;
          items = cItems timberCollection;
          topic = topicOf s context;
          (hit, s1) = checkLimit env context (word_of_nat (length items)) s
      in if hit
         then go_bind (observeExceededItems env context topic items
                  (observe (IncreaseProducerTPSExceededCounter topic (int (length items))) s1))
                (\<lambda>s2. Ret (Inl onLimitExceededGrpc, s2))
         else respond topic
                (if kafkaMessageFormat s = TimberCollectionMessageFormat
                 then let (ts, s2) = stampItems env items s1
                      in handleProduceBatch env \<lparr>cContext = context, cItems = ts\<rparr> topic s2
                 else produceItems env context topic items s1))"

section \<open>What a handler changes\<close>

text \<open>Handlers leave the configuration, the connections and, once past the limit check, the limiter alone.\<close>

definition same_service :: "('l, 'k) producerService \<Rightarrow> ('l, 'k) producerService \<Rightarrow> bool" where
  "same_service s s' \<longleftrightarrow>
     s' = s\<lparr>adminOf := adminOf s', metrics := metrics s', calls := calls s', kafka := kafka s'\<rparr>"

named_theorems handler \<open>what the steps of a handler do to the state\<close>

lemma same_service_refl [simp]: "same_service s s"
  by (simp add: same_service_def)

lemma same_service_trans: "same_service s t \<Longrightarrow> same_service t u \<Longrightarrow> same_service s u"
  unfolding same_service_def by (cases s; cases t; cases u) simp

lemma same_service_fields:
  assumes "same_service s s'"
  shows "topicPrefix s' = topicPrefix s" "topicSuffix s' = topicSuffix s" "producer s' = producer s"
    "newEventTopic s' = newEventTopic s" "ignoreKafkaOptions s' = ignoreKafkaOptions s"
    "kafkaMessageFormat s' = kafkaMessageFormat s" "limiter s' = limiter s"
  using assms by (cases s; cases s'; simp add: same_service_def)+

lemma observe_handler [handler]:
  "same_service s (observe f s)" "calls (observe f s) = calls s" "adminOf (observe f s) = adminOf s"
  "kafka (observe f s) = kafka s" "producer (observe f s) = producer s" "limiter (observe f s) = limiter s"
  "topicSuffix (observe f s) = topicSuffix s" "metrics (observe f s) = f (metrics s)"
  by (simp_all add: observe_def same_service_def)

lemma same_service_observe [handler]: "same_service s (observe f t) \<longleftrightarrow> same_service s t"
  by (cases s; cases t) (auto simp: observe_def same_service_def)

lemma observeGo_handler [handler]:
  "observeGo f s = Ret s' \<Longrightarrow> same_service s s' \<and> calls s' = calls s \<and> adminOf s' = adminOf s \<and> kafka s' = kafka s"
  by (auto simp: observeGo_def go_bind_Ret_iff same_service_def)

lemma stamp_handler [handler]:
  "stamp env t s = (t', s') \<Longrightarrow> same_service s s' \<and> calls s' = calls s \<and> adminOf s' = adminOf s
    \<and> metrics s' = metrics s \<and> t' = t\<lparr>tTimestamp := tTimestamp t'\<rparr>"
  by (auto simp: stamp_def timeNow_def same_service_def split: prod.splits)

lemma sendMessage_handler [handler]:
  "sendMessage env m s = Ret (err, s') \<Longrightarrow> producer s \<and> same_service s s' \<and> adminOf s' = adminOf s
    \<and> metrics s' = metrics s \<and> calls s' = calls s @ [KSend m err]"
  by (auto simp: sendMessage_def same_service_def split: if_splits prod.splits)

end
