(* ===== verification/Producer_Correct.thy ===== *)
theory Producer_Correct
  imports Producer
begin

text \<open>
  What the handlers of the producer guarantee: which Kafka calls a request makes, in which order, how
  the answer relates to them, what a rate-limited request does, how a batch fails half way, and what
  happens to the event that announces a new topic.
\<close>

section \<open>The topic is ensured before a message is sent\<close>

definition wantedTopic :: "('l, 'k) producerService \<Rightarrow> TimberContext option \<Rightarrow> string \<Rightarrow> error option \<Rightarrow> kafka_call" where
  "wantedTopic s c topic err =
     (if ignoreKafkaOptions s then KCreate topic (- 1) (- 1) err
      else KCreate topic (GetKafkaPartition c) (to_int16 (GetKafkaReplicationFactor c)) err)"

text \<open>The four ways a call of \<open>createTopicIfNotExist\<close> ends, with the calls it makes.\<close>

definition ensure_calls :: "('l, 'k) producerService \<Rightarrow> TimberContext option \<Rightarrow> string \<Rightarrow> error option \<Rightarrow> kafka_call list \<Rightarrow> bool" where
  "ensure_calls s c topic err cs \<longleftrightarrow>
     (case err of
        None \<Rightarrow> cs = [] \<or> cs = [wantedTopic s c topic None, KSend (topicEvent s topic) None]
      | Some e \<Rightarrow>
          (\<exists>e'. e = onCreateTopicErrorGrpc e' \<and> cs = [wantedTopic s c topic (Some e')])
        \<or> (\<exists>e'. e = onSendCreateTopicErrorGrpc e' \<and> cs = [wantedTopic s c topic None, KSend (topicEvent s topic) (Some e')]))"

definition knows :: "('l, 'k) producerService \<Rightarrow> string \<Rightarrow> bool" where
  "knows s topic \<longleftrightarrow> (\<exists>a. adminOf s = Some a \<and> topic \<in> set (topics a))"

lemma to_int16_minus_1: "to_int16 (- 1) = - 1"
  by (simp add: to_int16_def) (transfer, simp)

lemma createTopicIfNotExist_known:
  assumes "knows s topic"
  shows "createTopicIfNotExist env c topic s = Ret (None, s)"
proof -
  obtain a where a: "adminOf s = Some a" "topic \<in> set (topics a)" using assms by (auto simp: knows_def)
  then have "Exist (kenv env) a topic (kafka s) = (True, a, kafka s)" by (simp add: admin.exist_known)
  with a(1) show ?thesis by (simp add: createTopicIfNotExist_def)
qed

lemma createTopicIfNotExist_effect:
  assumes "createTopicIfNotExist env c topic s = Ret (err, s')"
  shows "same_service s s' \<and> (\<exists>cs. calls s' = calls s @ cs \<and> ensure_calls s c topic err cs
    \<and> (cs = [] \<or> hd cs = wantedTopic s c topic None \<longrightarrow> knows s' topic))"
proof -
  obtain a where a: "adminOf s = Some a"
    using assms by (cases "adminOf s") (auto simp: createTopicIfNotExist_def)
  obtain found a1 k1 where ex: "Exist (kenv env) a topic (kafka s) = (found, a1, k1)" by (metis prod_cases3)
  let ?s1 = "s\<lparr>adminOf := Some a1, kafka := k1\<rparr>"
  show ?thesis
  proof (cases found)
    case True
    then have "topic \<in> set (topics a1)" using ex admin.exist_sound [where env = "kenv env"] by simp
    with True a ex assms show ?thesis
      by (auto simp: createTopicIfNotExist_def same_service_def ensure_calls_def knows_def)
  next
    case False
    let ?p = "if ignoreKafkaOptions s then - 1 else GetKafkaPartition c"
    let ?r = "if ignoreKafkaOptions s then - 1 else GetKafkaReplicationFactor c"
    obtain r k2 where cr: "CreateTopic (kenv env) a1 topic ?p (to_int16 ?r) k1 = (r, k2)" by (metis surj_pair)
    have w: "KCreate topic ?p (to_int16 ?r) x = wantedTopic s c topic x" for x
      by (simp add: wantedTopic_def to_int16_minus_1)
    show ?thesis
    proof (cases r)
      case (Some e)
      with False a ex cr assms show ?thesis
        by (auto simp: createTopicIfNotExist_def same_service_def ensure_calls_def observe_def w Let_def wantedTopic_def)
    next
      case None
      let ?s2 = "?s1\<lparr>kafka := k2, calls := calls s @ [wantedTopic s c topic None], adminOf := Some (AddTopic a1 topic)\<rparr>"
      obtain e3 s3 where send: "sendCreateTopicEvents env topic ?s2 = Ret (e3, s3)"
        using False a ex cr None assms
        by (cases "sendCreateTopicEvents env topic ?s2") (auto simp: createTopicIfNotExist_def w Let_def)
      have event: "topicEvent ?s2 topic = topicEvent s topic" by (simp add: topicEvent_def)
      note s3 = sendMessage_handler [OF send [unfolded sendCreateTopicEvents_def event]]
      have kn: "knows s3 topic" using s3 by (simp add: knows_def AddTopic_def)
      have "same_service s ?s2" by (simp add: same_service_def)
      then have fr: "same_service s s3" using s3 by (blast intro: same_service_trans)
      have s': "err = map_option onSendCreateTopicErrorGrpc e3"
        "s' = (if e3 = None then s3
          else observe (IncreaseKafkaMessagesStoredTotalWithError topic ''send_create_topic_event'') s3)"
        using False a ex cr None assms send
        by (auto simp: createTopicIfNotExist_def w Let_def split: option.splits)
      with s3 kn fr show ?thesis
        by (cases e3) (auto simp: ensure_calls_def knows_def handler intro: same_service_trans)
    qed
  qed
qed

section \<open>One message\<close>

text \<open>The message that \<open>handleProduce\<close> sends for a timber, and the calls of one that returns \<open>err\<close>.\<close>

definition produce_calls :: "('l, 'k) producerService \<Rightarrow> TimberContext option \<Rightarrow> string \<Rightarrow> ProducerMessage \<Rightarrow>
    error option \<Rightarrow> kafka_call list \<Rightarrow> bool" where
  "produce_calls s c topic m err cs \<longleftrightarrow>
     (case err of
        None \<Rightarrow> (\<exists>cs0. ensure_calls s c topic None cs0 \<and> cs = cs0 @ [KSend m None])
      | Some e \<Rightarrow> ensure_calls s c topic (Some e) cs
        \<or> (\<exists>cs0 e'. ensure_calls s c topic None cs0 \<and> e = onStoreErrorGrpc e' \<and> cs = cs0 @ [KSend m (Some e')]))"

lemma produce_effect:
  assumes "go_bind (createTopicIfNotExist env c topic s) (\<lambda>(err, s1).
      case err of
        Some e \<Rightarrow> Ret (Some e, s1)
      | None \<Rightarrow>
          go_bind (go_bind (sendMessage env m s1) (\<lambda>(err, s1). Ret (err, observe f s1))) (\<lambda>(err, s2).
            case err of
              Some e \<Rightarrow> Ret (Some (onStoreErrorGrpc e), observe g s2)
            | None \<Rightarrow> go_bind (observeGo h s2) (\<lambda>s3. Ret (None, observe j s3)))) = Ret (err, s')"
  shows "same_service s s' \<and> (err = None \<longrightarrow> knows s' topic) \<and>
    (\<exists>cs. calls s' = calls s @ cs \<and> produce_calls s c topic m err cs)"
proof -
  obtain e1 s1 where 1: "createTopicIfNotExist env c topic s = Ret (e1, s1)"
    using assms by (auto simp: go_bind_Ret_iff)
  then obtain cs0 where cs0: "calls s1 = calls s @ cs0" "ensure_calls s c topic e1 cs0"
    and f1: "same_service s s1" and k: "cs0 = [] \<or> hd cs0 = wantedTopic s c topic None \<longrightarrow> knows s1 topic"
    using createTopicIfNotExist_effect by blast
  then have k1: "e1 = None \<longrightarrow> knows s1 topic" by (auto simp: ensure_calls_def)
  show ?thesis
  proof (cases e1)
    case (Some e)
    with assms 1 cs0 f1 show ?thesis by (auto simp: produce_calls_def)
  next
    case None
    then obtain e2 s2 where 2: "sendMessage env m s1 = Ret (e2, s2)"
      using assms 1 by (auto simp: go_bind_Ret_iff)
    note send = sendMessage_handler [OF 2]
    have fr: "same_service s s2" using send f1 by (auto intro: same_service_trans)
    have "same_service s s' \<and> calls s' = calls s @ cs0 @ [KSend m e2] \<and> adminOf s' = adminOf s1
      \<and> err = map_option onStoreErrorGrpc e2"
    proof (cases e2)
      case None
      then obtain s3 where "observeGo h (observe f s2) = Ret s3" "s' = observe j s3" "err = None"
        using assms 1 \<open>e1 = None\<close> 2 by (auto simp: go_bind_Ret_iff)
      with None send fr cs0(1) show ?thesis
        by (auto simp: handler dest!: observeGo_handler intro: same_service_trans [of s "observe f s2"])
    next
      case (Some e)
      with assms 1 \<open>e1 = None\<close> 2 send fr cs0(1) show ?thesis by (auto simp: handler)
    qed
    with cs0(2) k1 None show ?thesis
      by (auto simp: produce_calls_def knows_def split: option.splits)
  qed
qed

lemma handleProduce_effect:
  assumes "handleProduce env t topic s = Ret (err, s')"
  shows "same_service s s' \<and> (err = None \<longrightarrow> knows s' topic) \<and>
    (\<exists>cs. calls s' = calls s @ cs \<and>
       produce_calls s (tContext t) topic (ConvertTimberToKafkaMessage (marshalTimber env) t topic) err cs)"
  using assms unfolding handleProduce_def sendLogs_def by (rule produce_effect)

lemma handleProduceBatch_effect:
  assumes "handleProduceBatch env tc topic s = Ret (err, s')"
  shows "same_service s s' \<and> (err = None \<longrightarrow> knows s' topic) \<and>
    (\<exists>cs. calls s' = calls s @ cs \<and>
       produce_calls s (cContext tc) topic (ConvertTimberCollectionToKafkaMessage (marshalCollection env) tc topic) err cs)"
  using assms unfolding handleProduceBatch_def sendLogsTimberCollection_def by (rule produce_effect)

section \<open>Answers and calls\<close>

text \<open>The message a single accepted timber becomes, and the messages of a topic that Kafka acknowledged.\<close>

definition produced :: "('l, 'k) producer_env \<Rightarrow> ('l, 'k) producerService \<Rightarrow> Timber \<Rightarrow> ProducerMessage" where
  "produced env s t =
     (let t' = t\<lparr>tTimestamp := fst (Now (kenv env) (kafka s))\<rparr>; topic = topicOf s (tContext t)
      in if kafkaMessageFormat s = TimberCollectionMessageFormat
         then ConvertTimberCollectionToKafkaMessage (marshalCollection env) \<lparr>cContext = tContext t, cItems = [t']\<rparr> topic
         else ConvertTimberToKafkaMessage (marshalTimber env) t' topic)"

definition limited :: "('l, 'k) producer_env \<Rightarrow> TimberContext option \<Rightarrow> nat \<Rightarrow> ('l, 'k) producerService \<Rightarrow> bool" where
  "limited env c n s \<longleftrightarrow>
     fst (hitLimit env (limiter s) (fst (getRateLimitInfo s c)) (word_of_nat n) (snd (getRateLimitInfo s c)))"

fun acked :: "string \<Rightarrow> kafka_call list \<Rightarrow> ProducerMessage list" where
  "acked topic [] = []"
| "acked topic (KSend m None # cs) = (if pmTopic m = topic then m # acked topic cs else acked topic cs)"
| "acked topic (_ # cs) = acked topic cs"

lemma acked_append [simp]: "acked topic (cs @ cs') = acked topic cs @ acked topic cs'"
  by (induction topic cs rule: acked.induct) auto

lemma checkLimit_parts:
  "checkLimit env c (word_of_nat n) s = (h, s1) \<Longrightarrow> h = limited env c n s"
  "checkLimit env c (word_of_nat n) s = (h, s1) \<Longrightarrow> s1 = s\<lparr>limiter := limiter s1\<rparr>"
  by (auto simp: checkLimit_def limited_def split_beta)

lemma checkLimit_admitted:
  "\<not> limited env c n s \<Longrightarrow> \<exists>l. checkLimit env c (word_of_nat n) s = (False, s\<lparr>limiter := l\<rparr>)"
  by (auto simp: checkLimit_def limited_def split_beta)

lemma produce_calls_cong:
  assumes "ignoreKafkaOptions s' = ignoreKafkaOptions s" and "newEventTopic s' = newEventTopic s"
  shows "wantedTopic s' = wantedTopic s" "topicEvent s' = topicEvent s"
    "ensure_calls s' = ensure_calls s" "produce_calls s' = produce_calls s"
proof -
  show w: "wantedTopic s' = wantedTopic s" using assms by (intro ext) (simp add: wantedTopic_def)
  show e: "topicEvent s' = topicEvent s" using assms by (intro ext) (simp add: topicEvent_def)
  show c: "ensure_calls s' = ensure_calls s" by (intro ext) (simp only: ensure_calls_def w e)
  show "produce_calls s' = produce_calls s" by (intro ext) (simp only: produce_calls_def c)
qed

lemma produce_calls_same_service: "same_service s s' \<Longrightarrow> produce_calls s' = produce_calls s"
  by (rule produce_calls_cong) (simp_all add: same_service_fields)

lemma produce_calls_limiter [simp]: "produce_calls (s\<lparr>limiter := l\<rparr>) = produce_calls s"
  by (rule produce_calls_cong) simp_all

lemma respond_Ret_iff:
  "respond topic m = Ret (r, s') \<longleftrightarrow>
    (\<exists>err. m = Ret (err, s') \<and> r = (case err of Some e \<Rightarrow> Inl e | None \<Rightarrow> Inr topic))"
  by (cases m) (auto simp: respond_def split: prod.splits option.splits)

lemma Produce_admitted_effect:
  assumes "Produce env t s = Ret (r, s')" and "\<not> limited env (tContext t) 1 s"
  shows "\<exists>err cs. r = (case err of Some e \<Rightarrow> Inl e | None \<Rightarrow> Inr (topicOf s (tContext t)))
    \<and> calls s' = calls s @ cs \<and> produce_calls s (tContext t) (topicOf s (tContext t)) (produced env s t) err cs
    \<and> (err = None \<longrightarrow> knows s' (topicOf s (tContext t)))"
proof -
  let ?topic = "topicOf s (tContext t)"
  obtain s1 where 1: "checkLimit env (tContext t) 1 s = (False, s1)" "s1 = s\<lparr>limiter := limiter s1\<rparr>"
    using assms(2) checkLimit_parts [of env "tContext t" 1 s] by (cases "checkLimit env (tContext t) 1 s") auto
  obtain s2 where 2: "stamp env t s1 = (t\<lparr>tTimestamp := fst (Now (kenv env) (kafka s))\<rparr>, s2)"
    "same_service s1 s2" "calls s2 = calls s"
    using 1(2) by (cases s; cases s1) (auto simp: stamp_def timeNow_def split_beta same_service_def)
  have pc: "produce_calls s2 = produce_calls s"
    using produce_calls_same_service [OF 2(2)] 1(2) by (metis produce_calls_limiter)
  obtain err where err: "r = (case err of Some e \<Rightarrow> Inl e | None \<Rightarrow> Inr ?topic)"
    and run: "(if kafkaMessageFormat s = TimberCollectionMessageFormat
       then handleProduceBatch env \<lparr>cContext = tContext t, cItems = [t\<lparr>tTimestamp := fst (Now (kenv env) (kafka s))\<rparr>]\<rparr> ?topic s2
       else handleProduce env (t\<lparr>tTimestamp := fst (Now (kenv env) (kafka s))\<rparr>) ?topic s2) = Ret (err, s')"
    using assms(1) 1(1) 2(1) by (auto simp: Produce_def respond_Ret_iff Let_def)
  show ?thesis
  proof (cases "kafkaMessageFormat s = TimberCollectionMessageFormat")
    case True
    note eff = handleProduceBatch_effect [OF run [unfolded if_P [OF True]]]
    with True err pc 2(3) show ?thesis by (intro exI [of _ err]) (auto simp: produced_def)
  next
    case False
    note eff = handleProduce_effect [OF run [unfolded if_not_P [OF False]]]
    with False err pc 2(3) show ?thesis by (intro exI [of _ err]) (auto simp: produced_def)
  qed
qed

text \<open>A request that hits its limit.\<close>

lemma observeExceeded_effect:
  assumes "observeExceeded env topic t s = Ret s'"
  shows "calls s' = calls s \<and> adminOf s' = adminOf s \<and> same_service s s' \<and>
    counter_value ''barito_producer_tps_exceeded_total'' ls (metrics s') =
    counter_value ''barito_producer_tps_exceeded_total'' ls (metrics s)"
proof -
  obtain t' s1 where s1: "stamp env t s = (t', s1)" by (metis surj_pair)
  with assms have g: "observeGo (ObserveTPSExceededBytes (regexpReplace env) topic (topicSuffix s)
      (length (fst (marshalTimber env t')))) s1 = Ret s'" by (simp add: observeExceeded_def)
  with stamp_handler [OF s1] observeGo_handler [OF g] show ?thesis
    by (auto simp: observeGo_def ObserveTPSExceededBytes_def go_bind_Ret_iff intro: same_service_trans)
qed

lemma observeExceededItems_effect:
  assumes "observeExceededItems env c topic items s = Ret s'"
  shows "calls s' = calls s \<and> adminOf s' = adminOf s \<and> same_service s s' \<and>
    counter_value ''barito_producer_tps_exceeded_total'' ls (metrics s') =
    counter_value ''barito_producer_tps_exceeded_total'' ls (metrics s)"
  using assms
proof (induction items arbitrary: s)
  case (Cons t items)
  then obtain s1 where "observeExceeded env topic (t\<lparr>tContext := c\<rparr>) s = Ret s1"
    "observeExceededItems env c topic items s1 = Ret s'"
    by (auto simp: go_bind_Ret_iff)
  with Cons.IH [of s1] observeExceeded_effect [of env topic _ s s1] show ?case
    by (auto intro: same_service_trans)
qed simp

lemma limited_state:
  assumes "s1 = s\<lparr>limiter := l\<rparr>"
  shows "calls (observe f s1) = calls s" "adminOf (observe f s1) = adminOf s" "metrics (observe f s1) = f (metrics s)"
  by (simp_all add: assms handler)

definition turned_away :: "('l, 'k) producerService \<Rightarrow> string \<Rightarrow> nat \<Rightarrow> (error + string) \<Rightarrow> ('l, 'k) producerService \<Rightarrow> bool" where
  "turned_away s topic n r s' \<longleftrightarrow>
     r = Inl (Status ResourceExhausted (Err ''Bandwidth Limit Exceeded''))
     \<and> calls s' = calls s \<and> adminOf s' = adminOf s
     \<and> counter_value ''barito_producer_tps_exceeded_total'' [topic] (metrics s') =
       counter_value ''barito_producer_tps_exceeded_total'' [topic] (metrics s) + int n"

lemma Produce_limited:
  assumes "Produce env t s = Ret (r, s')" and "limited env (tContext t) 1 s"
  shows "turned_away s (topicOf s (tContext t)) 1 r s'"
proof -
  obtain s1 where 1: "checkLimit env (tContext t) 1 s = (True, s1)" "s1 = s\<lparr>limiter := limiter s1\<rparr>"
    using assms(2) checkLimit_parts [of env "tContext t" 1 s] by (cases "checkLimit env (tContext t) 1 s") auto
  have r: "r = Inl onLimitExceededGrpc"
    and ex: "observeExceeded env (topicOf s (tContext t)) t
      (observe (IncreaseProducerTPSExceededCounter (topicOf s (tContext t)) 1) s1) = Ret s'"
    using assms(1) 1(1) by (auto simp: Produce_def go_bind_Ret_iff Let_def)
  from r observeExceeded_effect [OF ex] show ?thesis
    by (auto simp: turned_away_def limited_state [OF 1(2)] onLimitExceededGrpc_def IncreaseProducerTPSExceededCounter_def)
qed

lemma ProduceBatch_limited:
  assumes "ProduceBatch env tc s = Ret (r, s')" and "limited env (cContext tc) (length (cItems tc)) s"
  shows "turned_away s (topicOf s (cContext tc)) (length (cItems tc)) r s'"
proof -
  let ?n = "length (cItems tc)"
  obtain s1 where 1: "checkLimit env (cContext tc) (word_of_nat ?n) s = (True, s1)" "s1 = s\<lparr>limiter := limiter s1\<rparr>"
    using assms(2) checkLimit_parts [of env "cContext tc" ?n s]
    by (cases "checkLimit env (cContext tc) (word_of_nat ?n) s") auto
  have r: "r = Inl onLimitExceededGrpc"
    and ex: "observeExceededItems env (cContext tc) (topicOf s (cContext tc)) (cItems tc)
      (observe (IncreaseProducerTPSExceededCounter (topicOf s (cContext tc)) (int ?n)) s1) = Ret s'"
    using assms(1) 1(1) by (auto simp: ProduceBatch_def go_bind_Ret_iff Let_def)
  from r observeExceededItems_effect [OF ex] show ?thesis
    by (auto simp: turned_away_def limited_state [OF 1(2)] onLimitExceededGrpc_def IncreaseProducerTPSExceededCounter_def)
qed

section \<open>A concrete service\<close>

text \<open>
  For the witnesses: encoders that keep the timestamp, a regular expression that matches nothing, the
  local limiter, a cluster that knows the topics \<open>ts\<close>, and a freshly started service.
\<close>

definition demo_env :: "string list \<Rightarrow> (ProducerMessage \<Rightarrow> error option) \<Rightarrow> (rateLimiter, unit) producer_env" where
  "demo_env ts fate =
     \<lparr>kenv = (quiet_kafka (Inr ts))\<lparr>SendMessage := (\<lambda>m k. (fate m, k))\<rparr>,
      marshalTimber = (\<lambda>t. (tTimestamp t, None)), marshalCollection = (\<lambda>c. (''batch'', None)),
      regexpReplace = (\<lambda>pat src repl. Some src), hitLimit = IsHitLimit,
      limiterStart = (\<lambda>l. l), limiterStop = (\<lambda>l. l), Listen = (\<lambda>_ k. (None, k)), Serve = (\<lambda>k. (None, k)),
      GracefulStop = (\<lambda>k. k), CloseProducer = (\<lambda>k. k)\<rparr>"

definition demo_service :: "(rateLimiter, unit) producerService" where
  "demo_service =
     \<lparr>grpcAddr = '':8082'', topicPrefix = ''p_'', topicSuffix = ''_pb'', kafkaMaxRetry = 0, kafkaRetryInterval = 10,
      newEventTopic = ''events'', grpcMaxRecvMsgSize = 20000000, ignoreKafkaOptions = False,
      kafkaMessageFormat = ''Timber'', producer = True, adminOf = Some (NewKafkaAdmin [''localhost:9092'']),
      limiter = NewRateLimiter 10, grpcServer = True, metrics = [], calls = [], kafka = ()\<rparr>"

definition demo_context :: "int32 \<Rightarrow> TimberContext" where
  "demo_context tps =
     \<lparr>KafkaTopic = ''app'', KafkaPartition = 3, KafkaReplicationFactor = 1, EsIndexPrefix = ''app'',
      EsDocumentType = [], AppMaxTps = tps, AppSecret = [], DisableAppTps = False, AppGroupMaxTps = 0\<rparr>"

definition demo_timber :: "int32 \<Rightarrow> Timber" where
  "demo_timber tps = \<lparr>tContext = Some (demo_context tps), tTimestamp = [], tContent = None\<rparr>"

lemmas demo_defs = demo_env_def demo_service_def demo_context_def demo_timber_def quiet_kafka_def
  NewKafkaAdmin_def topicOf_def GetKafkaTopic_def GetDisableAppTps_def GetAppMaxTps_def GetAppGroupMaxTps_def
  getRateLimitInfo_def limited_def ProberTopic_def HasPrefix_def

lemmas produce_defs = stamp_def timeNow_def TimberCollectionMessageFormat_def respond_def handleProduce_def
  createTopicIfNotExist_def Exist_def Topics_def RefreshTopics_def CreateTopic_def sendCreateTopicEvents_def
  sendLogs_def sendMessage_def observe_def observeGo_def ObserveByteIngestion_def appNameOf_def onStoreErrorGrpc_def

lemma demo_limited:
  "limited (demo_env ts fate) (Some (demo_context tps)) n demo_service \<longleftrightarrow>
    fst (IsHitLimit (NewRateLimiter 10) ''p_app_pb'' (word_of_nat n) tps)"
  by (simp add: demo_defs)

lemma demo_hit:
  assumes "0 \<le> sint tps" and "sint tps * 10 \<le> 2147483647" and "int n \<le> 2147483647"
  shows "fst (IsHitLimit (NewRateLimiter 10) k (word_of_nat n) tps) \<longleftrightarrow> sint tps * 10 < int n"
proof -
  have s: "settled (\<lambda>_. tps) 10 (NewRateLimiter 10)"
    using settled_New [of "\<lambda>_. tps" 10] by (simp add: to_int32_def)
  have n: "sint (word_of_nat n :: int64) = int n"
    using assms(3) by (intro sint_word_of_nat) simp
  have m: "sint (tps * 10) = sint tps * 10" using assms(1,2) by (subst sint32_mult) simp_all
  have r: "legal_request (\<lambda>_. tps) 10 (k, word_of_nat n, tps)"
    using assms n m by (simp add: legal_request_def wf_count_def)
  show ?thesis using fst_IsHitLimit [OF s r] n m by (simp add: used_tokens_def NewRateLimiter_def)
qed

section \<open>Properties\<close>

text \<open>
  C12. A rate-limited request is turned away whole: when the limiter answers that the limit is hit,
  \<open>Produce\<close> and \<open>ProduceBatch\<close> answer ResourceExhausted, make no call that writes to Kafka, leave the
  topic cache alone, and add the number of messages turned away to the topic's exceeded counter.
\<close>

theorem limited_request_sends_nothing:
  "(Produce env t s = Ret (r, s') \<and> limited env (tContext t) 1 s \<longrightarrow>
      turned_away s (topicOf s (tContext t)) 1 r s')
   \<and> (ProduceBatch env tc s = Ret (r, s') \<and> limited env (cContext tc) (length (cItems tc)) s \<longrightarrow>
      turned_away s (topicOf s (cContext tc)) (length (cItems tc)) r s')"
  by (blast intro: Produce_limited ProduceBatch_limited)

theorem limited_request_sends_nothing_witness:
  "\<exists>r s'. Produce (demo_env [] (\<lambda>_. None)) (demo_timber 0) demo_service = Ret (r, s')
    \<and> turned_away demo_service ''p_app_pb'' 1 r s'"
proof -
  let ?env = "demo_env [] (\<lambda>_. None)"
  have lim: "limited ?env (tContext (demo_timber 0)) 1 demo_service"
    using demo_hit [of 0 1] by (simp add: demo_timber_def demo_limited)
  have topic: "topicOf demo_service (tContext (demo_timber 0)) = ''p_app_pb''"
    by (simp add: demo_defs)
  have ret: "\<exists>r s'. Produce ?env (demo_timber 0) demo_service = Ret (r, s')"
    using checkLimit_parts(1) [of ?env "tContext (demo_timber 0)" 1 demo_service] lim
    by (cases "checkLimit ?env (tContext (demo_timber 0)) 1 demo_service")
      (simp add: Produce_def observeExceeded_def stamp_def timeNow_def observeGo_def demo_env_def
        ObserveTPSExceededBytes_def appNameOf_def split_beta Let_def)
  then obtain r s' where rs: "Produce ?env (demo_timber 0) demo_service = Ret (r, s')" by blast
  show ?thesis
    using limited_request_sends_nothing [of ?env "demo_timber 0" demo_service r s'] rs lim topic by auto
qed



text \<open>
  C22. What an error of \<open>Produce\<close> says, for each code: with ResourceExhausted the limiter turned the
  message away and nothing was sent; with Unavailable the topic could not be created or announced and
  the message was not sent; with FailedPrecondition the topic was there and Kafka refused the message,
  whose error is passed on. No other code is returned.
\<close>

theorem Produce_error:
  assumes "Produce env t s = Ret (Inl e, s')"
  shows "(limited env (tContext t) 1 s \<and> turned_away s (topicOf s (tContext t)) 1 (Inl e) s')
    \<or> (\<exists>e'. \<not> limited env (tContext t) 1 s \<and> e = Status Unavailable e'
        \<and> (calls s' = calls s @ [wantedTopic s (tContext t) (topicOf s (tContext t)) (Some e')]
           \<or> calls s' = calls s @ [wantedTopic s (tContext t) (topicOf s (tContext t)) None,
               KSend (topicEvent s (topicOf s (tContext t))) (Some e')]))
    \<or> (\<exists>e' cs. \<not> limited env (tContext t) 1 s \<and> e = Status FailedPrecondition e'
        \<and> ensure_calls s (tContext t) (topicOf s (tContext t)) None cs
        \<and> calls s' = calls s @ cs @ [KSend (produced env s t) (Some e')])"
proof (cases "limited env (tContext t) 1 s")
  case True
  with Produce_limited [OF assms] show ?thesis by simp
next
  case False
  let ?topic = "topicOf s (tContext t)"
  obtain cs where cs: "calls s' = calls s @ cs"
    and pc: "produce_calls s (tContext t) ?topic (produced env s t) (Some e) cs"
    using Produce_admitted_effect [OF assms False] by (auto split: option.splits)
  from pc consider
      (create) e' where "e = onCreateTopicErrorGrpc e'" "cs = [wantedTopic s (tContext t) ?topic (Some e')]"
    | (announce) e' where "e = onSendCreateTopicErrorGrpc e'"
        "cs = [wantedTopic s (tContext t) ?topic None, KSend (topicEvent s ?topic) (Some e')]"
    | (store) cs0 e' where "ensure_calls s (tContext t) ?topic None cs0" "e = onStoreErrorGrpc e'"
        "cs = cs0 @ [KSend (produced env s t) (Some e')]"
    unfolding produce_calls_def option.case ensure_calls_def [of s _ _ "Some e"] by blast
  then show ?thesis
  proof cases
    case create
    with False cs show ?thesis unfolding onCreateTopicErrorGrpc_def by blast
  next
    case announce
    with False cs show ?thesis unfolding onSendCreateTopicErrorGrpc_def by blast
  next
    case store
    with False cs show ?thesis unfolding onStoreErrorGrpc_def by blast
  qed
qed

theorem Produce_error_witness:
  "\<exists>e s'. Produce (demo_env [''p_app_pb''] (\<lambda>_. Some (Err ''down''))) (demo_timber 5) demo_service = Ret (Inl e, s')
    \<and> (e = Status FailedPrecondition (Err ''down'') \<or> e = Status Unavailable (Err ''down''))"
proof -
  let ?env = "demo_env [''p_app_pb''] (\<lambda>_. Some (Err ''down''))"
  have lim: "\<not> limited ?env (tContext (demo_timber 5)) 1 demo_service"
    using demo_hit [of 5 1] by (simp add: demo_timber_def demo_limited)
  obtain l where l: "checkLimit ?env (tContext (demo_timber 5)) 1 demo_service = (False, demo_service\<lparr>limiter := l\<rparr>)"
    using checkLimit_admitted [of ?env "tContext (demo_timber 5)" 1 demo_service] lim by auto
  have "\<exists>s'. Produce ?env (demo_timber 5) demo_service = Ret (Inl (Status FailedPrecondition (Err ''down'')), s')"
    unfolding Produce_def Let_def l
    by (simp add: produce_defs demo_defs)
  then obtain s' where s': "Produce ?env (demo_timber 5) demo_service =
      Ret (Inl (Status FailedPrecondition (Err ''down'')), s')" by blast
  with Produce_error [OF s'] lim show ?thesis by auto
qed

section \<open>Batches\<close>

text \<open>The messages of a batch sent one by one, item by item with the time of each.\<close>

definition itemMessage :: "('l, 'k) producer_env \<Rightarrow> TimberContext option \<Rightarrow> string \<Rightarrow> Timber \<Rightarrow> string \<Rightarrow> ProducerMessage" where
  "itemMessage env c topic t ts =
     ConvertTimberToKafkaMessage (marshalTimber env) (t\<lparr>tContext := c, tTimestamp := ts\<rparr>) topic"

fun creations :: "kafka_call list \<Rightarrow> nat" where
  "creations [] = 0"
| "creations (KCreate _ _ _ _ # cs) = Suc (creations cs)"
| "creations (_ # cs) = creations cs"

lemma creations_append [simp]: "creations (cs @ cs') = creations cs + creations cs'"
  by (induction cs rule: creations.induct) auto

lemma ensure_calls_counts:
  assumes "ensure_calls s c topic err cs" and "newEventTopic s \<noteq> topic"
  shows "acked topic cs = []" "creations cs \<le> 1"
  using assms by (auto simp: ensure_calls_def wantedTopic_def topicEvent_def split: option.splits if_splits)

lemma produce_calls_counts:
  assumes "produce_calls s c topic m err cs" and "newEventTopic s \<noteq> topic" and "pmTopic m = topic"
  shows "acked topic cs = (if err = None then [m] else [])" "creations cs \<le> 1"
  using assms ensure_calls_counts [OF _ assms(2)]
  by (auto simp: produce_calls_def split: option.splits)

lemma handleProduce_known:
  assumes "handleProduce env t topic s = Ret (err, s')" and "knows s topic"
  shows "knows s' topic \<and>
    (\<exists>e. err = map_option onStoreErrorGrpc e
      \<and> calls s' = calls s @ [KSend (ConvertTimberToKafkaMessage (marshalTimber env) t topic) e])"
proof -
  obtain e s1 where 1: "sendMessage env (ConvertTimberToKafkaMessage (marshalTimber env) t topic) s = Ret (e, s1)"
    using assms by (auto simp: handleProduce_def createTopicIfNotExist_known sendLogs_def go_bind_Ret_iff)
  note send = sendMessage_handler [OF 1]
  show ?thesis
  proof (cases e)
    case None
    with assms 1 obtain h s3 where "observeGo h (observe (ObserveSendToKafkaTime topic) s1) = Ret s3"
      "s' = observe (IncreaseKafkaMessagesStoredTotal topic) s3" "err = None"
      by (auto simp: handleProduce_def createTopicIfNotExist_known sendLogs_def go_bind_Ret_iff)
    with None send assms(2) show ?thesis by (auto simp: knows_def handler dest!: observeGo_handler)
  next
    case (Some e')
    with assms 1 send show ?thesis
      by (auto simp: handleProduce_def createTopicIfNotExist_known sendLogs_def knows_def handler)
  qed
qed

lemma ConvertTimberToKafkaMessage_topic [simp]: "pmTopic (ConvertTimberToKafkaMessage mt t topic) = topic"
  by (simp add: ConvertTimberToKafkaMessage_def)

lemma produceItems_step:
  assumes "produceItems env c topic (t # items) s = Ret (err, s')" and "newEventTopic s \<noteq> topic"
  obtains ts e1 s1 cs where "calls s1 = calls s @ cs" "newEventTopic s1 = newEventTopic s"
    "acked topic cs = (if e1 = None then [itemMessage env c topic t ts] else [])"
    "creations cs \<le> (if knows s topic then 0 else 1)" "e1 = None \<longrightarrow> knows s1 topic"
    "if e1 = None then produceItems env c topic items s1 = Ret (err, s') else err = e1 \<and> s' = s1"
proof -
  obtain t0 s0 where 0: "stamp env (t\<lparr>tContext := c\<rparr>) s = (t0, s0)" by (metis surj_pair)
  note st = stamp_handler [OF 0]
  then have t0: "t0 = t\<lparr>tContext := c, tTimestamp := tTimestamp t0\<rparr>" by simp
  obtain e1 s1 where 1: "handleProduce env t0 topic s0 = Ret (e1, s1)"
    and k: "(case e1 of None \<Rightarrow> produceItems env c topic items s1 | Some e \<Rightarrow> Ret (Some e, s1)) = Ret (err, s')"
    using assms(1) 0 by (auto simp: go_bind_Ret_iff)
  from k have rest: "if e1 = None then produceItems env c topic items s1 = Ret (err, s') else err = e1 \<and> s' = s1"
    by (cases e1) auto
  let ?m = "ConvertTimberToKafkaMessage (marshalTimber env) t0 topic"
  have m: "?m = itemMessage env c topic t (tTimestamp t0)" unfolding itemMessage_def by (subst t0) simp
  obtain cs where cs: "calls s1 = calls s0 @ cs" "produce_calls s0 (tContext t0) topic ?m e1 cs"
    and same: "same_service s0 s1" and kn: "e1 = None \<longrightarrow> knows s1 topic"
    using handleProduce_effect [OF 1] by blast
  have ev: "newEventTopic s0 = newEventTopic s" "newEventTopic s1 = newEventTopic s"
    using st same by (auto simp: same_service_fields)
  have "creations cs = 0" if "knows s topic"
    using handleProduce_known [OF 1] that st cs(1) by (auto simp: knows_def)
  with produce_calls_counts [OF cs(2)] assms(2) ev have "creations cs \<le> (if knows s topic then 0 else 1)" by auto
  moreover have "acked topic cs = (if e1 = None then [itemMessage env c topic t (tTimestamp t0)] else [])"
    using produce_calls_counts(1) [OF cs(2)] assms(2) ev(1) unfolding m [symmetric] by simp
  moreover have "calls s1 = calls s @ cs" using cs(1) st by simp
  ultimately show thesis using that ev(2) kn rest by blast
qed

lemma produceItems_effect:
  assumes "produceItems env c topic items s = Ret (err, s')" and "newEventTopic s \<noteq> topic"
  shows "\<exists>cs tss. calls s' = calls s @ cs \<and> length tss \<le> length items
    \<and> acked topic cs = map2 (itemMessage env c topic) items tss
    \<and> (err = None \<longleftrightarrow> length tss = length items) \<and> creations cs \<le> (if knows s topic then 0 else 1)"
  using assms
proof (induction items arbitrary: s)
  case Nil
  then show ?case by simp
next
  case (Cons t items)
  obtain ts e1 s1 cs where step: "calls s1 = calls s @ cs" "newEventTopic s1 = newEventTopic s"
      "acked topic cs = (if e1 = None then [itemMessage env c topic t ts] else [])"
      "creations cs \<le> (if knows s topic then 0 else 1)" "e1 = None \<longrightarrow> knows s1 topic"
      "if e1 = None then produceItems env c topic items s1 = Ret (err, s') else err = e1 \<and> s' = s1"
    using produceItems_step [OF Cons.prems] .
  show ?case
  proof (cases e1)
    case None
    with step Cons.prems(2) have run: "produceItems env c topic items s1 = Ret (err, s')" "newEventTopic s1 \<noteq> topic"
      and k1: "knows s1 topic" by auto
    obtain cs' tss where "calls s' = calls s1 @ cs'" "length tss \<le> length items"
        "acked topic cs' = map2 (itemMessage env c topic) items tss"
        "err = None \<longleftrightarrow> length tss = length items" "creations cs' = 0"
      using Cons.IH [OF run] k1 by auto
    with None step show ?thesis by (intro exI [of _ "cs @ cs'"] exI [of _ "ts # tss"]) auto
  next
    case (Some e)
    with step show ?thesis by (intro exI [of _ cs] exI [of _ "[]"]) auto
  qed
qed

text \<open>
  C16. A batch sent message by message delivers a prefix: when the limiter admits it, Kafka acknowledges
  the messages of the first \<open>n\<close> items, each once, in the order of the batch, with the batch's context
  and each with its own time stamp; the answer is success exactly when that is the whole batch; and the
  topic is created at most once, and not at all when it is known. (\<open>map2\<close> pairs the items with the \<open>n\<close>
  time stamps.) The event topic must not be the topic itself.
\<close>

theorem ProduceBatch_delivers_prefix:
  assumes "ProduceBatch env tc s = Ret (r, s')" and "\<not> limited env (cContext tc) (length (cItems tc)) s"
    and "kafkaMessageFormat s \<noteq> TimberCollectionMessageFormat"
    and "newEventTopic s \<noteq> topicOf s (cContext tc)"
  shows "\<exists>cs tss. calls s' = calls s @ cs \<and> length tss \<le> length (cItems tc)
    \<and> acked (topicOf s (cContext tc)) cs =
        map2 (itemMessage env (cContext tc) (topicOf s (cContext tc))) (cItems tc) tss
    \<and> (r = Inr (topicOf s (cContext tc)) \<longleftrightarrow> length tss = length (cItems tc))
    \<and> creations cs \<le> (if knows s (topicOf s (cContext tc)) then 0 else 1)"
proof -
  let ?n = "length (cItems tc)" and ?topic = "topicOf s (cContext tc)"
  obtain l where l: "checkLimit env (cContext tc) (word_of_nat ?n) s = (False, s\<lparr>limiter := l\<rparr>)"
    using checkLimit_admitted [of env "cContext tc" ?n s] assms(2) by auto
  obtain err where run: "produceItems env (cContext tc) ?topic (cItems tc) (s\<lparr>limiter := l\<rparr>) = Ret (err, s')"
    and r: "r = (case err of Some e \<Rightarrow> Inl e | None \<Rightarrow> Inr ?topic)"
    using assms(1,3) l by (auto simp: ProduceBatch_def respond_Ret_iff Let_def)
  from produceItems_effect [OF run] assms(4) r show ?thesis
    by (cases err) (auto simp: knows_def)
qed

theorem ProduceBatch_delivers_prefix_witness:
  "\<exists>s' tss. ProduceBatch (demo_env [''p_app_pb''] (\<lambda>_. None))
      \<lparr>cContext = Some (demo_context 5), cItems = [demo_timber 5, demo_timber 5]\<rparr> demo_service = Ret (Inr ''p_app_pb'', s')
    \<and> length tss = 2 \<and> acked ''p_app_pb'' (calls s') =
        map2 (itemMessage (demo_env [''p_app_pb''] (\<lambda>_. None)) (Some (demo_context 5)) ''p_app_pb'') [demo_timber 5, demo_timber 5] tss"
proof -
  let ?env = "demo_env [''p_app_pb''] (\<lambda>_. None)"
  let ?tc = "\<lparr>cContext = Some (demo_context 5), cItems = [demo_timber 5, demo_timber 5]\<rparr>"
  have lim: "\<not> limited ?env (cContext ?tc) (length (cItems ?tc)) demo_service"
    using demo_hit [of 5 2] by (simp add: demo_limited)
  obtain l where l: "checkLimit ?env (Some (demo_context 5)) 2 demo_service = (False, demo_service\<lparr>limiter := l\<rparr>)"
    using checkLimit_admitted [of ?env "Some (demo_context 5)" 2 demo_service] lim by (auto simp: numeral_2_eq_2)
  have topic: "topicOf demo_service (Some (demo_context 5)) = ''p_app_pb''" by (simp add: demo_defs)
  have "\<exists>s'. ProduceBatch ?env ?tc demo_service = Ret (Inr ''p_app_pb'', s')"
    by (simp add: ProduceBatch_def l Let_def) (simp add: produce_defs demo_defs)
  then obtain s' where s': "ProduceBatch ?env ?tc demo_service = Ret (Inr ''p_app_pb'', s')" by blast
  have cfg: "kafkaMessageFormat demo_service \<noteq> TimberCollectionMessageFormat"
      "newEventTopic demo_service \<noteq> ''p_app_pb''" "calls demo_service = []"
    by (simp_all add: demo_service_def TimberCollectionMessageFormat_def)
  obtain cs tss where "calls s' = calls demo_service @ cs" "length tss = length (cItems ?tc)"
      "acked ''p_app_pb'' cs = map2 (itemMessage ?env (cContext ?tc) ''p_app_pb'') (cItems ?tc) tss"
    using ProduceBatch_delivers_prefix [OF s' lim cfg(1)] cfg(2) unfolding TimberCollection.simps topic by blast
  with s' cfg(3) show ?thesis by (intro exI [of _ s'] exI [of _ tss]) simp
qed

section \<open>The announcement of a new topic\<close>



end
