(* ===== verification/Producer_Service.thy ===== *)
theory Producer_Service
  imports Producer_Correct
begin

text \<open>
  The life of the producer: connecting with retries, reaching the state in which the handlers run,
  and that no handler panics in it.
\<close>

section \<open>Starting, serving, retrying\<close>

definition ready :: "('l, 'k) producerService \<Rightarrow> bool" where
  "ready s \<longleftrightarrow> producer s \<and> adminOf s \<noteq> None"

definition suffix_compiles :: "('l, 'k) producer_env \<Rightarrow> ('l, 'k) producerService \<Rightarrow> bool" where
  "suffix_compiles env s \<longleftrightarrow> (\<forall>topic. regexpReplace env (topicSuffix s @ ''$'') topic [] \<noteq> None)"

lemma observeGo_returns:
  assumes "suffix_compiles env s" and "topicSuffix s' = topicSuffix s"
  shows "\<exists>u. observeGo (ObserveByteIngestion (regexpReplace env) topic (topicSuffix s) n) s' = Ret u"
    "\<exists>u. observeGo (ObserveByteIngestionCollection (regexpReplace env) topic (topicSuffix s) n) s' = Ret u"
    "\<exists>u. observeGo (ObserveTPSExceededBytes (regexpReplace env) topic (topicSuffix s) n) s' = Ret u"
  using assms
  by (auto simp: suffix_compiles_def observeGo_def ObserveByteIngestion_def ObserveByteIngestionCollection_def
      ObserveTPSExceededBytes_def appNameOf_def split: option.splits)

lemma sendMessage_returns: "producer s \<Longrightarrow> \<exists>err u. sendMessage env m s = Ret (err, u)"
  by (simp add: sendMessage_def split_beta Let_def)

lemma createTopicIfNotExist_returns:
  assumes "ready s"
  shows "\<exists>err u. createTopicIfNotExist env c topic s = Ret (err, u)"
proof -
  obtain a where "adminOf s = Some a" "producer s" using assms by (auto simp: ready_def)
  then show ?thesis
    by (auto simp: createTopicIfNotExist_def sendCreateTopicEvents_def sendMessage_def split_beta Let_def
        split: option.splits)
qed

lemma createTopicIfNotExist_admin:
  "createTopicIfNotExist env c topic s = Ret (err, s') \<Longrightarrow> adminOf s' \<noteq> None"
  by (auto simp: createTopicIfNotExist_def sendCreateTopicEvents_def sendMessage_def observe_def split_beta Let_def
      split: option.splits if_splits)

lemma produce_returns:
  assumes "ready s" and "\<And>u. same_service s u \<Longrightarrow> \<exists>v. observeGo h u = Ret v"
  shows "\<exists>err s'. go_bind (createTopicIfNotExist env c topic s) (\<lambda>(err, s1).
      case err of
        Some e \<Rightarrow> Ret (Some e, s1)
      | None \<Rightarrow>
          go_bind (go_bind (sendMessage env m s1) (\<lambda>(err, s1). Ret (err, observe f s1))) (\<lambda>(err, s2).
            case err of
              Some e \<Rightarrow> Ret (Some (onStoreErrorGrpc e), observe g s2)
            | None \<Rightarrow> go_bind (observeGo h s2) (\<lambda>s3. Ret (None, observe j s3)))) = Ret (err, s') \<and> ready s' \<and> same_service s s'"
proof -
  obtain e1 s1 where 1: "createTopicIfNotExist env c topic s = Ret (e1, s1)"
    using createTopicIfNotExist_returns [OF assms(1)] by blast
  have s1: "same_service s s1" "adminOf s1 \<noteq> None" "producer s1"
    using createTopicIfNotExist_effect [OF 1] createTopicIfNotExist_admin [OF 1] assms(1)
    by (auto simp: same_service_fields ready_def)
  obtain e2 s2 where 2: "sendMessage env m s1 = Ret (e2, s2)" using sendMessage_returns [OF s1(3)] by blast
  note send = sendMessage_handler [OF 2]
  have s2: "same_service s (observe f s2)" using send s1 by (auto simp: handler intro: same_service_trans)
  obtain v where v: "observeGo h (observe f s2) = Ret v" using assms(2) [OF s2] by blast
  have s3: "same_service s v" "adminOf v = adminOf s2"
    using observeGo_handler [OF v] same_service_trans [OF s2] by (auto simp: handler)
  have "producer v" "producer s2" using s3(1) s2 s1 assms(1) send by (auto simp: ready_def same_service_fields)
  with 1 2 v s1 s2 s3 send show ?thesis by (cases e1; cases e2) (auto simp: handler ready_def)
qed

lemma handleProduce_returns:
  assumes "ready s" and "suffix_compiles env s"
  shows "\<exists>err s'. handleProduce env t topic s = Ret (err, s') \<and> ready s' \<and> same_service s s'"
  unfolding handleProduce_def sendLogs_def
  by (rule produce_returns [OF assms(1) observeGo_returns(1) [OF assms(2)]]) (simp add: same_service_fields)

lemma handleProduceBatch_returns:
  assumes "ready s" and "suffix_compiles env s"
  shows "\<exists>err s'. handleProduceBatch env tc topic s = Ret (err, s') \<and> ready s' \<and> same_service s s'"
  unfolding handleProduceBatch_def sendLogsTimberCollection_def
  by (rule produce_returns [OF assms(1) observeGo_returns(2) [OF assms(2)]]) (simp add: same_service_fields)

lemma same_service_ready:
  "same_service s s' \<Longrightarrow> adminOf s' = adminOf s \<Longrightarrow> ready s' = ready s"
  "same_service s s' \<Longrightarrow> suffix_compiles env s' = suffix_compiles env s"
  by (auto simp: ready_def suffix_compiles_def same_service_fields)

lemma ready_limiter [simp]:
  "ready (s\<lparr>limiter := l\<rparr>) = ready s" "suffix_compiles env (s\<lparr>limiter := l\<rparr>) = suffix_compiles env s"
  by (simp_all add: ready_def suffix_compiles_def)

lemma ready_observe:
  assumes "ready s" and "suffix_compiles env s"
  shows "ready (observe f (s\<lparr>limiter := l\<rparr>))" "suffix_compiles env (observe f (s\<lparr>limiter := l\<rparr>))"
  using assms by (simp_all add: ready_def suffix_compiles_def observe_def)

lemma stamp_ready:
  "stamp env t s = (t', s') \<Longrightarrow> ready s' = ready s \<and> suffix_compiles env s' = suffix_compiles env s"
  using stamp_handler [of env t s t' s'] by (auto simp: same_service_ready)

lemma stampItems_ready:
  "stampItems env ts s = (ts', s') \<Longrightarrow> ready s' = ready s \<and> suffix_compiles env s' = suffix_compiles env s"
proof (induction ts arbitrary: s ts')
  case (Cons t ts)
  then show ?case by (auto dest!: stamp_ready split: prod.splits)
qed auto

lemma produceItems_returns:
  assumes "ready s" and "suffix_compiles env s"
  shows "\<exists>err s'. produceItems env c topic items s = Ret (err, s') \<and> ready s'"
  using assms
proof (induction items arbitrary: s)
  case (Cons t items)
  obtain t0 s0 where 0: "stamp env (t\<lparr>tContext := c\<rparr>) s = (t0, s0)" by (metis surj_pair)
  with Cons.prems obtain e1 s1 where "handleProduce env t0 topic s0 = Ret (e1, s1)" "ready s1" "same_service s0 s1"
    using handleProduce_returns [of s0 env t0 topic] stamp_ready [OF 0] by blast
  moreover from this Cons.prems have "suffix_compiles env s1" using stamp_ready [OF 0] by (simp add: same_service_ready)
  ultimately show ?case using 0 Cons.IH [of s1] by (cases e1) auto
qed simp

lemma observeExceeded_returns:
  assumes "ready s" and "suffix_compiles env s"
  shows "\<exists>s'. observeExceeded env topic t s = Ret s' \<and> ready s' \<and> suffix_compiles env s'"
proof -
  obtain t0 s0 where 0: "stamp env t s = (t0, s0)" by (metis surj_pair)
  note st = stamp_handler [OF 0]
  obtain u where u: "observeGo (ObserveTPSExceededBytes (regexpReplace env) topic (topicSuffix s)
      (length (fst (marshalTimber env t0)))) s0 = Ret u"
    using observeGo_returns(3) [OF assms(2), of s0] st by (auto simp: same_service_fields)
  from observeGo_handler [OF u] have "ready u" "suffix_compiles env u"
    using assms stamp_ready [OF 0] by (auto simp: same_service_ready)
  with u 0 show ?thesis by (simp add: observeExceeded_def)
qed

lemma observeExceededItems_returns:
  assumes "ready s" and "suffix_compiles env s"
  shows "\<exists>s'. observeExceededItems env c topic items s = Ret s' \<and> ready s'"
  using assms
proof (induction items arbitrary: s)
  case (Cons t items)
  obtain u where "observeExceeded env topic (t\<lparr>tContext := c\<rparr>) s = Ret u" "ready u" "suffix_compiles env u"
    using observeExceeded_returns [OF Cons.prems] by blast
  with Cons.IH [of u] show ?case by auto
qed simp

lemma respond_returns:
  "\<exists>err s'. m = Ret (err, s') \<and> ready s' \<Longrightarrow> \<exists>r s'. respond topic m = Ret (r, s') \<and> ready s'"
  by (auto simp: respond_def)

lemma Produce_returns:
  assumes "ready s" and "suffix_compiles env s"
  shows "\<exists>r s'. Produce env t s = Ret (r, s') \<and> ready s'"
proof -
  let ?topic = "topicOf s (tContext t)"
  obtain h l where 1: "checkLimit env (tContext t) 1 s = (h, s\<lparr>limiter := l\<rparr>)"
    by (simp add: checkLimit_def split_beta)
  obtain t0 s0 where 0: "stamp env t (s\<lparr>limiter := l\<rparr>) = (t0, s0)" by (metis surj_pair)
  have s0: "ready s0" "suffix_compiles env s0" using stamp_ready [OF 0] assms by auto
  show ?thesis
  proof (cases h)
    case True
    obtain u where "observeExceeded env ?topic t
        (observe (IncreaseProducerTPSExceededCounter ?topic 1) (s\<lparr>limiter := l\<rparr>)) = Ret u" "ready u"
      using observeExceeded_returns [OF ready_observe [OF assms]] by blast
    with True 1 show ?thesis by (simp add: Produce_def Let_def)
  next
    case False
    have "\<exists>r s'. respond ?topic
        (if kafkaMessageFormat s = TimberCollectionMessageFormat
         then handleProduceBatch env \<lparr>cContext = tContext t, cItems = [t0]\<rparr> ?topic s0
         else handleProduce env t0 ?topic s0) = Ret (r, s') \<and> ready s'"
      using handleProduce_returns [OF s0] handleProduceBatch_returns [OF s0] by (intro respond_returns) (simp, blast)
    with False 0 1 show ?thesis by (auto simp: Produce_def Let_def split: if_splits)
  qed
qed

lemma ProduceBatch_returns:
  assumes "ready s" and "suffix_compiles env s"
  shows "\<exists>r s'. ProduceBatch env tc s = Ret (r, s') \<and> ready s'"
proof -
  let ?c = "cContext tc" and ?topic = "topicOf s (cContext tc)"
  obtain h l where 1: "checkLimit env ?c (word_of_nat (length (cItems tc))) s = (h, s\<lparr>limiter := l\<rparr>)"
    by (simp add: checkLimit_def split_beta)
  obtain ts s0 where 0: "stampItems env (cItems tc) (s\<lparr>limiter := l\<rparr>) = (ts, s0)" by (metis surj_pair)
  have s0: "ready s0" "suffix_compiles env s0" using stampItems_ready [OF 0] assms by auto
  show ?thesis
  proof (cases h)
    case True
    obtain u where "observeExceededItems env ?c ?topic (cItems tc)
        (observe (IncreaseProducerTPSExceededCounter ?topic (int (length (cItems tc)))) (s\<lparr>limiter := l\<rparr>)) = Ret u" "ready u"
      using observeExceededItems_returns [OF ready_observe [OF assms]] by blast
    with True 1 show ?thesis by (simp add: ProduceBatch_def Let_def)
  next
    case False
    have "\<exists>r s'. respond ?topic
        (if kafkaMessageFormat s = TimberCollectionMessageFormat
         then handleProduceBatch env \<lparr>cContext = ?c, cItems = ts\<rparr> ?topic s0
         else produceItems env ?c ?topic (cItems tc) (s\<lparr>limiter := l\<rparr>)) = Ret (r, s') \<and> ready s'"
      using produceItems_returns [of "s\<lparr>limiter := l\<rparr>" env] handleProduceBatch_returns [OF s0] assms
      by (intro respond_returns) (simp, blast)
    with False 0 1 show ?thesis by (auto simp: ProduceBatch_def Let_def split: if_splits)
  qed
qed

lemma MakeSyncProducer_result:
  "MakeSyncProducer env v = (Inr a, w) \<Longrightarrow> producer w"
  by (auto simp: MakeSyncProducer_def split: prod.splits option.splits)

lemma makeAdmin_result:
  "makeAdmin env v = (Inr a, w) \<Longrightarrow> adminOf w \<noteq> None \<and> producer w = producer v"
  by (auto simp: makeAdmin_def split: prod.splits sum.splits)

lemma connecting_frame [simp]:
  "topicSuffix (snd (MakeSyncProducer env v)) = topicSuffix v"
  "topicSuffix (snd (makeAdmin env v)) = topicSuffix v" "producer (snd (makeAdmin env v)) = producer v"
  by (auto simp: MakeSyncProducer_def makeAdmin_def split: prod.splits option.splits sum.splits)

text \<open>A started service has its connections, and its configuration is the one it was given.\<close>

lemma Start_ready:
  assumes "StartService env s = Some (None, s')"
  shows "ready s' \<and> grpcServer s' \<and> topicSuffix s' = topicSuffix s"
proof -
  obtain n s1 where 1: "initProducer env s = Some (Inr (), n, s1)"
    using assms by (auto simp: StartService_def split: option.splits sum.splits)
  have p1: "producer s1" and t1: "topicSuffix s1 = topicSuffix s"
    using retryLoop_invariant [OF 1 [unfolded initProducer_def], where P = "\<lambda>v. topicSuffix v = topicSuffix s"]
    by (auto simp: observe_def sleepRetry_def dest: MakeSyncProducer_result)
  obtain m s2 where 2: "initKafkaAdmin env s1 = Some (Inr (), m, s2)"
    using assms 1 by (auto simp: StartService_def split: option.splits sum.splits)
  have s2: "producer s2 \<and> topicSuffix s2 = topicSuffix s \<and> adminOf s2 \<noteq> None"
    using retryLoop_invariant [OF 2 [unfolded initKafkaAdmin_def],
        where P = "\<lambda>v. producer v \<and> topicSuffix v = topicSuffix s"] p1 t1
    by (auto simp: sleepRetry_def dest: makeAdmin_result)
  from assms 1 2 s2 show ?thesis
    by (auto simp: StartService_def initGrpcServer_def ready_def Let_def split: prod.splits option.splits)
qed

text \<open>
  C20. Once started, no request panics: in a state with a producer and an admin, as a successful \<open>Start\<close>
  leaves it, and with a topic suffix that compiles as a regular expression, \<open>Produce\<close> and
  \<open>ProduceBatch\<close> return, whatever the request, Kafka and the limiter answer, and leave such a state.
\<close>

theorem handlers_return:
  assumes "StartService env s0 = Some (None, s)" and "suffix_compiles env s0"
  shows "ready s \<and> (\<exists>r s'. Produce env t s = Ret (r, s') \<and> ready s')
    \<and> (\<exists>r s'. ProduceBatch env tc s = Ret (r, s') \<and> ready s')"
  using Start_ready [OF assms(1)] Produce_returns [of s env t] ProduceBatch_returns [of s env tc] assms(2)
  by (auto simp: suffix_compiles_def)

theorem handlers_return_witness:
  "\<exists>s. StartService (demo_env [] (\<lambda>_. None)) demo_service = Some (None, s) \<and> ready s
    \<and> (\<exists>r s'. Produce (demo_env [] (\<lambda>_. None)) (demo_timber 5) s = Ret (r, s') \<and> ready s')"
proof -
  let ?env = "demo_env [] (\<lambda>_. None)"
  have i: "\<exists>n u. initProducer ?env demo_service = Some (Inr (), n, u) \<and> u = demo_service"
    by (simp add: initProducer_def retryLoop.simps MakeSyncProducer_def demo_env_def quiet_kafka_def demo_service_def)
  have k: "\<exists>n u. initKafkaAdmin ?env demo_service = Some (Inr (), n, u)"
    by (simp add: initKafkaAdmin_def retryLoop.simps makeAdmin_def MakeKafkaAdmin_def demo_env_def quiet_kafka_def)
  have "\<exists>s. StartService ?env demo_service = Some (None, s)"
    using i k by (auto simp: StartService_def initGrpcServer_def demo_env_def Let_def)
  then obtain s where s: "StartService ?env demo_service = Some (None, s)" by blast
  have "suffix_compiles ?env demo_service" by (simp add: suffix_compiles_def demo_env_def)
  from handlers_return [OF s this, of "demo_timber 5"] s show ?thesis by blast
qed

lemma metrics_attempt:
  "metrics (attempt (MakeSyncProducer env) (observe IncreaseProducerKafkaClientFailed) (sleepRetry env) n s) =
    metrics s @ replicate n (CounterAdd ''barito_producer_kafka_client_failed'' [] 1)"
proof (induction n arbitrary: s)
  case (Suc n)
  have "metrics (snd (MakeSyncProducer env s)) = metrics s"
    by (auto simp: MakeSyncProducer_def split: prod.splits option.splits)
  with Suc show ?case
    by (simp add: sleepRetry_def observe_def IncreaseProducerKafkaClientFailed_def)
qed simp

lemma counter_value_replicate [simp]:
  "counter_value n ls (replicate k e) = int k * counter_amount n ls e"
  by (induction k) (auto simp: algebra_simps)

definition refusedAt :: "('l, 'k) producer_env \<Rightarrow> ('l, 'k) producerService \<Rightarrow> nat \<Rightarrow> bool" where
  "refusedAt env s i \<longleftrightarrow>
     failsAt (MakeSyncProducer env) (observe IncreaseProducerKafkaClientFailed) (sleepRetry env) i s"

text \<open>
  C21. Connecting to Kafka: when the first \<open>n\<close> attempts are refused and the next one is not, and the
  configured limit is 0 (none) or greater than \<open>n\<close>, \<open>initProducer\<close> succeeds at attempt \<open>n + 1\<close> with a
  producer, having counted \<open>n\<close> failures; with a limit \<open>n + 1\<close> and all \<open>n + 1\<close> attempts refused it returns
  the retry-limit error, having counted them all; with no limit and every attempt refused it never
  returns.
\<close>

theorem initProducer_retries:
  "((\<forall>i<n. refusedAt env s i) \<and> \<not> refusedAt env s n \<and> (kafkaMaxRetry s = 0 \<or> int n < kafkaMaxRetry s) \<longrightarrow>
      (\<exists>s'. initProducer env s = Some (Inr (), int n + 1, s') \<and> producer s'
        \<and> counter_value ''barito_producer_kafka_client_failed'' [] (metrics s') =
          counter_value ''barito_producer_kafka_client_failed'' [] (metrics s) + int n))
   \<and> ((\<forall>i\<le>n. refusedAt env s i) \<and> kafkaMaxRetry s = int n + 1 \<longrightarrow>
      (\<exists>s'. initProducer env s = Some (Inl ErrKafkaRetryLimitReached, int n + 1, s')
        \<and> counter_value ''barito_producer_kafka_client_failed'' [] (metrics s') =
          counter_value ''barito_producer_kafka_client_failed'' [] (metrics s) + int n + 1))
   \<and> ((\<forall>i. refusedAt env s i) \<and> kafkaMaxRetry s = 0 \<longrightarrow> initProducer env s = None)"
proof -
  let ?mk = "MakeSyncProducer env" and ?f = "observe IncreaseProducerKafkaClientFailed" and ?z = "sleepRetry env"
  let ?v = "attempt ?mk ?f ?z n s"
  have keep: "metrics (snd (?mk ?v)) = metrics ?v" by (auto simp: MakeSyncProducer_def split: prod.splits option.splits)
  have ok: "\<exists>s'. initProducer env s = Some (Inr (), int n + 1, s') \<and> producer s' \<and> metrics s' = metrics ?v"
    if a: "\<forall>i<n. refusedAt env s i" "\<not> refusedAt env s n" "kafkaMaxRetry s = 0 \<or> int n < kafkaMaxRetry s"
  proof -
    obtain s' where s': "?mk ?v = (Inr (), s')"
      using a(2) by (cases "?mk ?v"; cases "fst (?mk ?v)") (auto simp: refusedAt_def failsAt_def)
    have "initProducer env s = Some (Inr (), 0 + int n + 1, s')"
      unfolding initProducer_def using a s'
      by (intro retryLoop_success) (auto simp: refusedAt_def)
    with s' keep MakeSyncProducer_result [OF s'] show ?thesis by simp
  qed
  have fail: "initProducer env s = Some (Inl ErrKafkaRetryLimitReached, int n + 1, ?f (snd (?mk ?v)))"
    if "\<forall>i\<le>n. refusedAt env s i" "kafkaMaxRetry s = int n + 1"
    using retryLoop_limit [of n ?mk ?f ?z s 0 "kafkaMaxRetry s"] that by (simp add: initProducer_def refusedAt_def)
  have div: "initProducer env s = None" if "\<forall>i. refusedAt env s i" "kafkaMaxRetry s = 0"
    using that by (simp add: initProducer_def refusedAt_def retryLoop_diverges)
  show ?thesis
    using ok fail div keep
    by (auto simp: metrics_attempt handler IncreaseProducerKafkaClientFailed_def)
qed

definition refusing :: "(rateLimiter, unit) producer_env" where
  "refusing = (demo_env [] (\<lambda>_. None))\<lparr>kenv := (quiet_kafka (Inr []))\<lparr>NewSyncProducer := (\<lambda>k. (Some (Err ''refused''), k))\<rparr>\<rparr>"

theorem initProducer_retries_witness:
  "initProducer refusing demo_service = None
   \<and> (\<exists>s'. initProducer refusing (demo_service\<lparr>kafkaMaxRetry := 3\<rparr>) = Some (Inl ErrKafkaRetryLimitReached, 3, s')
        \<and> counter_value ''barito_producer_kafka_client_failed'' [] (metrics s') = 3)"
proof -
  have r: "refusedAt refusing u i" for u i
    by (simp add: refusedAt_def failsAt_def MakeSyncProducer_def refusing_def)
  show ?thesis
    using initProducer_retries [of 0 refusing demo_service]
      initProducer_retries [of 2 refusing "demo_service\<lparr>kafkaMaxRetry := 3\<rparr>"] r
    by (simp add: demo_service_def)
qed

end
