(* ===== verification/Producer_Rate.thy ===== *)
theory Producer_Rate
  imports Producer_Service
begin

text \<open>
  The producer and its limiter together: a sequence of calls of the two handlers of
  \<open>flow/grpc_producer.go\<close> on one service, between two refills. The bound on what the limiter admits, proved
  in \<open>window_limiter\<close> for any limiter, becomes a bound on what Kafka acknowledges.
\<close>

section \<open>Calls of the handlers\<close>

datatype produce_request = One Timber | Batch TimberCollection

fun contextOf :: "produce_request \<Rightarrow> TimberContext option" where
  "contextOf (One t) = tContext t"
| "contextOf (Batch tc) = cContext tc"

fun messageCount :: "produce_request \<Rightarrow> nat" where
  "messageCount (One t) = 1"
| "messageCount (Batch tc) = length (cItems tc)"

fun handle :: "('l, 'k) producer_env \<Rightarrow> produce_request \<Rightarrow> ('l, 'k) producerService \<Rightarrow>
    ((error + string) \<times> ('l, 'k) producerService) go" where
  "handle env (One t) s = Produce env t s"
| "handle env (Batch tc) s = ProduceBatch env tc s"

text \<open>What the limiter is asked for a request, and the log messages Kafka acknowledged while it was handled.\<close>

definition limiterRequest :: "('l, 'k) producerService \<Rightarrow> produce_request \<Rightarrow> request" where
  "limiterRequest s r =
     (fst (getRateLimitInfo s (contextOf r)), word_of_nat (messageCount r), snd (getRateLimitInfo s (contextOf r)))"

definition delivered :: "produce_request \<Rightarrow> ('l, 'k) producerService \<Rightarrow> ('l, 'k) producerService \<Rightarrow> nat" where
  "delivered r s s' = length (acked (topicOf s (contextOf r)) (drop (length (calls s)) (calls s')))"

fun serveAll :: "('l, 'k) producer_env \<Rightarrow> produce_request list \<Rightarrow> ('l, 'k) producerService \<Rightarrow>
    ((produce_request \<times> nat) list \<times> ('l, 'k) producerService) go" where
  "serveAll env [] s = Ret ([], s)"
| "serveAll env (r # rs) s =
     go_bind (handle env r s) (\<lambda>(_, s1).
       go_bind (serveAll env rs s1) (\<lambda>(log, s2). Ret ((r, delivered r s s1) # log, s2)))"

definition deliveredFor :: "('l, 'k) producerService \<Rightarrow> string \<Rightarrow> (produce_request \<times> nat) list \<Rightarrow> int" where
  "deliveredFor s key log =
     sum_list (map (\<lambda>(r, n). if fst (getRateLimitInfo s (contextOf r)) = key then int n else 0) log)"

section \<open>One call\<close>

lemma stampItems_same: "stampItems env items s = (ts, s') \<Longrightarrow> same_service s s'"
  by (induction items arbitrary: ts s)
    (auto simp: Let_def split: prod.splits dest!: stamp_handler intro: same_service_trans)

lemma produceItems_same: "produceItems env c topic items s = Ret (err, s') \<Longrightarrow> same_service s s'"
proof (induction items arbitrary: s)
  case (Cons t items)
  obtain t0 s0 where 0: "stamp env (t\<lparr>tContext := c\<rparr>) s = (t0, s0)" by (metis surj_pair)
  obtain e1 s1 where 1: "handleProduce env t0 topic s0 = Ret (e1, s1)"
    and k: "(case e1 of None \<Rightarrow> produceItems env c topic items s1 | Some e \<Rightarrow> Ret (Some e, s1)) = Ret (err, s')"
    using Cons.prems 0 by (auto simp: go_bind_Ret_iff)
  have "same_service s s1"
    using stamp_handler [OF 0] handleProduce_effect [OF 1] by (blast intro: same_service_trans)
  with k Cons.IH [of s1] show ?case by (cases e1) (auto intro: same_service_trans)
qed simp

lemma same_service_after_observe: "same_service (observe f s) t \<longleftrightarrow> same_service s t"
  by (cases s; cases t) (auto simp: observe_def same_service_def)

text \<open>A handler asks the limiter once and changes it no further.\<close>

lemma checkLimit_request:
  "checkLimit env (contextOf r) (word_of_nat (messageCount r)) s =
    (case limiterRequest s r of (k, n, m) \<Rightarrow>
       (fst (hitLimit env (limiter s) k n m), s\<lparr>limiter := snd (hitLimit env (limiter s) k n m)\<rparr>))"
  by (simp add: checkLimit_def limiterRequest_def split_beta Let_def)

lemma handle_same:
  assumes "handle env r s = Ret (resp, s')" and "limiterRequest s r = (k, n, m)"
  shows "same_service (s\<lparr>limiter := snd (hitLimit env (limiter s) k n m)\<rparr>) s'"
proof -
  let ?h = "fst (hitLimit env (limiter s) k n m)" and ?s1 = "s\<lparr>limiter := snd (hitLimit env (limiter s) k n m)\<rparr>"
  note cl = checkLimit_request [of env r s, unfolded assms(2), simplified]
  show ?thesis
  proof (cases r)
    case (One t)
    obtain t' s2 where st: "stamp env t ?s1 = (t', s2)" by (metis surj_pair)
    have "checkLimit env (tContext t) 1 s = (?h, ?s1)" using cl One by simp
    with assms(1) One st show ?thesis
      using stamp_handler [OF st]
      by (auto simp: Produce_def Let_def go_bind_Ret_iff respond_Ret_iff same_service_after_observe split: if_splits
          dest!: observeExceeded_effect handleProduceBatch_effect handleProduce_effect intro: same_service_trans)
  next
    case (Batch tc)
    obtain ts s2 where st: "stampItems env (cItems tc) ?s1 = (ts, s2)" by (metis surj_pair)
    have "checkLimit env (cContext tc) (word_of_nat (length (cItems tc))) s = (?h, ?s1)" using cl Batch by simp
    with assms(1) Batch st show ?thesis
      using stampItems_same [OF st]
      by (auto simp: ProduceBatch_def Let_def go_bind_Ret_iff respond_Ret_iff same_service_after_observe split: if_splits
          dest!: observeExceededItems_effect handleProduceBatch_effect produceItems_same intro: same_service_trans)
  qed
qed

lemma Produce_delivered:
  assumes "Produce env t s = Ret (r, s')" and "newEventTopic s \<noteq> topicOf s (tContext t)"
  shows "delivered (One t) s s' \<le> (if limited env (tContext t) 1 s then 0 else 1)"
proof (cases "limited env (tContext t) 1 s")
  case True
  with Produce_limited [OF assms(1)] show ?thesis by (simp add: turned_away_def delivered_def)
next
  case False
  obtain err cs where cs: "calls s' = calls s @ cs"
      "produce_calls s (tContext t) (topicOf s (tContext t)) (produced env s t) err cs"
    using Produce_admitted_effect [OF assms(1) False] by blast
  have "pmTopic (produced env s t) = topicOf s (tContext t)"
    by (simp add: produced_def Let_def ConvertTimberCollectionToKafkaMessage_def)
  with produce_calls_counts(1) [OF cs(2) assms(2)] cs(1) False show ?thesis by (simp add: delivered_def)
qed

lemma ProduceBatch_delivered:
  assumes "ProduceBatch env tc s = Ret (r, s')" and "newEventTopic s \<noteq> topicOf s (cContext tc)"
    and "kafkaMessageFormat s \<noteq> TimberCollectionMessageFormat"
  shows "delivered (Batch tc) s s' \<le> (if limited env (cContext tc) (length (cItems tc)) s then 0 else length (cItems tc))"
proof (cases "limited env (cContext tc) (length (cItems tc)) s")
  case True
  with ProduceBatch_limited [OF assms(1)] show ?thesis by (simp add: turned_away_def delivered_def)
next
  case False
  let ?n = "length (cItems tc)"
  obtain l where l: "checkLimit env (cContext tc) (word_of_nat ?n) s = (False, s\<lparr>limiter := l\<rparr>)"
    using checkLimit_admitted [OF False] by blast
  obtain err where "produceItems env (cContext tc) (topicOf s (cContext tc)) (cItems tc) (s\<lparr>limiter := l\<rparr>) = Ret (err, s')"
    using assms(1,3) l by (auto simp: ProduceBatch_def respond_Ret_iff Let_def)
  from produceItems_effect [OF this] assms(2) False show ?thesis by (auto simp: delivered_def)
qed

lemma handle_delivered:
  assumes "handle env r s = Ret (resp, s')" and "newEventTopic s \<noteq> topicOf s (contextOf r)"
    and "kafkaMessageFormat s \<noteq> TimberCollectionMessageFormat" and "limiterRequest s r = (k, n, m)"
  shows "delivered r s s' \<le> (if fst (hitLimit env (limiter s) k n m) then 0 else messageCount r)"
  using assms Produce_delivered [of env _ s resp s'] ProduceBatch_delivered [of env _ s resp s']
  by (cases r) (force simp: limited_def limiterRequest_def)+

section \<open>A window\<close>

definition sameNames :: "('l, 'k) producerService \<Rightarrow> ('l, 'k) producerService \<Rightarrow> bool" where
  "sameNames s s' \<longleftrightarrow> topicPrefix s' = topicPrefix s \<and> topicSuffix s' = topicSuffix s \<and> newEventTopic s' = newEventTopic s
     \<and> kafkaMessageFormat s' = kafkaMessageFormat s"

lemma sameNames_handle: "handle env r s = Ret (resp, s') \<Longrightarrow> sameNames s s'"
  using same_service_fields [OF handle_same [of env r s resp s']]
  by (cases "limiterRequest s r") (auto simp: sameNames_def)

lemma sameNames_same:
  assumes "sameNames s s'"
  shows "getRateLimitInfo s' = getRateLimitInfo s" "topicOf s' = topicOf s" "limiterRequest s' = limiterRequest s"
    "deliveredFor s' = deliveredFor s"
proof -
  have eq: "topicPrefix s' = topicPrefix s" "topicSuffix s' = topicSuffix s" using assms by (simp_all add: sameNames_def)
  show 1: "getRateLimitInfo s' = getRateLimitInfo s" by (intro ext) (simp only: getRateLimitInfo_def eq)
  show "topicOf s' = topicOf s" by (intro ext) (simp only: topicOf_def eq)
  show "limiterRequest s' = limiterRequest s" by (intro ext) (simp only: limiterRequest_def 1)
  show "deliveredFor s' = deliveredFor s" by (intro ext) (simp only: deliveredFor_def 1)
qed

text \<open>The log of a run is bounded, request by request, by the run of the limiter on the same requests.\<close>

lemma serveAll_admitted:
  assumes "serveAll env rs s = Ret (log, s')" and "kafkaMessageFormat s \<noteq> TimberCollectionMessageFormat"
    and "\<forall>r\<in>set rs. newEventTopic s \<noteq> topicOf s (contextOf r) \<and> int (messageCount r) < 2 ^ 63"
  shows "deliveredFor s key log \<le>
      admitted key (fst (run_limiter (hitLimit env) (limiter s) (map (limiterRequest s) rs)))"
  using assms
proof (induction rs arbitrary: s log)
  case Nil
  then show ?case by (simp add: deliveredFor_def)
next
  case (Cons r rs)
  obtain resp s1 log1 where 1: "handle env r s = Ret (resp, s1)" and 2: "serveAll env rs s1 = Ret (log1, s')"
    and log: "log = (r, delivered r s s1) # log1"
    using Cons.prems(1) by (auto simp: go_bind_Ret_iff)
  obtain k n m where q: "limiterRequest s r = (k, n, m)" by (metis prod_cases3)
  note same = sameNames_handle [OF 1]
  have l1: "limiter s1 = snd (hitLimit env (limiter s) k n m)"
    using same_service_fields(7) [OF handle_same [OF 1 q]] by simp
  have "deliveredFor s key log1 \<le> admitted key (fst (run_limiter (hitLimit env) (limiter s1) (map (limiterRequest s) rs)))"
    using Cons.IH [OF 2] Cons.prems(2,3) same by (simp add: sameNames_same [OF same] sameNames_def)
  moreover have "int (delivered r s s1) \<le> (if fst (hitLimit env (limiter s) k n m) then 0 else sint n)"
    using handle_delivered [OF 1 _ Cons.prems(2) q] Cons.prems(3) q
    by (auto simp: limiterRequest_def sint_word_of_nat)
  moreover have k: "fst (getRateLimitInfo s (contextOf r)) = k" using q by (simp add: limiterRequest_def)
  moreover have "deliveredFor s key log = (if k = key then int (delivered r s s1) else 0) + deliveredFor s key log1"
    using log k by (simp add: deliveredFor_def)
  ultimately show ?case
    using q l1 by (cases "k = key") (simp_all add: split_beta Let_def split: if_splits)
qed

context rate_cap
begin

lemma producer_bound:
  assumes "serveAll env rs s = Ret (log, s')" and "hitLimit env = hit" and "safe (limiter s) (map (limiterRequest s) rs)"
    and "kafkaMessageFormat s \<noteq> TimberCollectionMessageFormat"
    and "\<forall>r\<in>set rs. newEventTopic s \<noteq> topicOf s (contextOf r) \<and> int (messageCount r) < 2 ^ 63"
  shows "used (limiter s) key + deliveredFor s key log \<le> max (used (limiter s) key) (cap key)"
  using serveAll_admitted [OF assms(1,4,5), of key] admitted_max [OF assms(3), of key] assms(2) by auto

end

section \<open>The service at its rate\<close>

lemma handle_returns:
  assumes "ready s" and "suffix_compiles env s"
  shows "\<exists>resp s'. handle env r s = Ret (resp, s') \<and> ready s' \<and> suffix_compiles env s'"
proof -
  obtain resp s' where 1: "handle env r s = Ret (resp, s')" "ready s'"
    using Produce_returns [OF assms] ProduceBatch_returns [OF assms] by (cases r; simp; blast)
  from sameNames_handle [OF 1(1)] assms(2) have "suffix_compiles env s'"
    by (simp add: sameNames_def suffix_compiles_def)
  with 1 show ?thesis by blast
qed

lemma serveAll_returns:
  assumes "ready s" and "suffix_compiles env s"
  shows "\<exists>log s'. serveAll env rs s = Ret (log, s') \<and> map fst log = rs"
  using assms
proof (induction rs arbitrary: s)
  case (Cons r rs)
  obtain resp s1 where 1: "handle env r s = Ret (resp, s1)" "ready s1" "suffix_compiles env s1"
    using handle_returns [OF Cons.prems] by blast
  from Cons.IH [OF 1(2,3)] 1(1) show ?case by auto
qed simp

text \<open>After a run the limiter is the one that was asked the same requests.\<close>

lemma serveAll_limiter:
  "serveAll env rs s = Ret (log, s') \<Longrightarrow>
    limiter s' = snd (run_limiter (hitLimit env) (limiter s) (map (limiterRequest s) rs)) \<and> sameNames s s'"
proof (induction rs arbitrary: s log)
  case (Cons r rs)
  obtain resp s1 log1 where 1: "handle env r s = Ret (resp, s1)" and 2: "serveAll env rs s1 = Ret (log1, s')"
    using Cons.prems by (auto simp: go_bind_Ret_iff)
  obtain k n m where q: "limiterRequest s r = (k, n, m)" by (metis prod_cases3)
  note same = sameNames_handle [OF 1]
  have "limiter s1 = snd (hitLimit env (limiter s) k n m)"
    using same_service_fields(7) [OF handle_same [OF 1 q]] by simp
  with Cons.IH [OF 2] q same show ?case
    by (auto simp: sameNames_same [OF same] split_beta Let_def) (simp add: sameNames_def)
qed (simp add: sameNames_def)

lemma serveAll_ready:
  "serveAll env rs s = Ret (log, s') \<Longrightarrow> ready s \<Longrightarrow> suffix_compiles env s \<Longrightarrow> ready s' \<and> suffix_compiles env s'"
proof (induction rs arbitrary: s log)
  case (Cons r rs)
  then obtain resp s1 log1 where "handle env r s = Ret (resp, s1)" "serveAll env rs s1 = Ret (log1, s')"
    by (auto simp: go_bind_Ret_iff)
  with handle_returns [OF Cons.prems(2,3), of r] Cons.IH [of s1 log1] show ?case by auto
qed simp

section \<open>Many windows\<close>

text \<open>Windows of requests, each begun by a tick of the refill loop.\<close>

fun serveWindows :: "(rateLimiter, 'k) producer_env \<Rightarrow> produce_request list list \<Rightarrow> (rateLimiter, 'k) producerService \<Rightarrow>
    ((produce_request \<times> nat) list list \<times> (rateLimiter, 'k) producerService) go" where
  "serveWindows env [] s = Ret ([], s)"
| "serveWindows env (rs # ws) s =
     go_bind (serveAll env rs (s\<lparr>limiter := refillBuckets (limiter s)\<rparr>)) (\<lambda>(log, s1).
       go_bind (serveWindows env ws s1) (\<lambda>(logs, s2). Ret (log # logs, s2)))"

definition legalFor :: "(string \<Rightarrow> int32) \<Rightarrow> int32 \<Rightarrow> ('l, 'k) producerService \<Rightarrow> produce_request \<Rightarrow> bool" where
  "legalFor rate d s r \<longleftrightarrow> newEventTopic s \<noteq> topicOf s (contextOf r) \<and> int (messageCount r) < 2 ^ 63
     \<and> legal_request rate d (limiterRequest s r)"

lemma legalFor_same: "sameNames s s' \<Longrightarrow> legalFor rate d s' = legalFor rate d s"
  by (auto simp: fun_eq_iff legalFor_def sameNames_same) (auto simp: sameNames_def)

lemma one_window:
  assumes "hitLimit env = IsHitLimit" and "ready s" and "suffix_compiles env s"
    and "kafkaMessageFormat s \<noteq> TimberCollectionMessageFormat"
    and "settled rate d (limiter s)" and "0 \<le> sint (rate key * d)" and "\<forall>r\<in>set rs. legalFor rate d s r"
  shows "\<exists>log s'. serveAll env rs (s\<lparr>limiter := refillBuckets (limiter s)\<rparr>) = Ret (log, s') \<and> map fst log = rs
    \<and> deliveredFor s key log \<le> sint (rate key * d)
    \<and> ready s' \<and> suffix_compiles env s' \<and> sameNames s s' \<and> settled rate d (limiter s')"
proof -
  let ?s = "s\<lparr>limiter := refillBuckets (limiter s)\<rparr>"
  have same: "sameNames s ?s" by (simp add: sameNames_def)
  note eq = sameNames_same [OF same]
  obtain log s' where run: "serveAll env rs ?s = Ret (log, s')" "map fst log = rs"
    using serveAll_returns [of ?s env rs] assms(2,3) by auto
  have legal: "\<forall>q\<in>set (map (limiterRequest ?s) rs). legal_request rate d q" using assms(7) by (auto simp: legalFor_def eq)
  have "used_tokens (limiter ?s) key + deliveredFor ?s key log \<le> max (used_tokens (limiter ?s) key) (sint (rate key * d))"
    by (rule local_limiter.producer_bound [OF run(1) assms(1)])
      (use assms(4-7) legal settled_refillBuckets in \<open>auto simp: eq legalFor_def\<close>)
  moreover have "settled rate d (limiter s')"
    using serveAll_limiter [OF run(1)] local_limiter.ok_run [OF _ legal, of "limiter ?s"] assms(1,5)
    by (simp add: settled_refillBuckets)
  moreover have "sameNames s s'" using serveAll_limiter [OF run(1)] by (simp add: sameNames_def)
  ultimately show ?thesis using run assms(2,3,6) serveAll_ready [OF run(1)] by (auto simp: eq)
qed

text \<open>
  C2. The producer keeps to the rate in every window: a started service with the local limiter answers any
  number of windows of \<open>Produce\<close> and \<open>ProduceBatch\<close> calls, each begun by a refill, and in every one of them Kafka
  acknowledges, of the requests charged to one rate-limit key (a topic, or the whole application group), at
  most the key's rate times the interval many log messages. All requests of a key must ask for the same
  non-negative 32-bit limit, no log topic may be the topic of the new-topic events, and messages are sent
  one by one (format Timber).
\<close>

theorem producer_enforces_rate:
  assumes "hitLimit env = IsHitLimit" and "ready s" and "suffix_compiles env s"
    and "kafkaMessageFormat s \<noteq> TimberCollectionMessageFormat"
    and "settled rate d (limiter s)" and "0 \<le> sint (rate key * d)"
    and "\<forall>rs\<in>set ws. \<forall>r\<in>set rs. legalFor rate d s r"
  shows "\<exists>logs s'. serveWindows env ws s = Ret (logs, s') \<and> map (map fst) logs = ws
    \<and> (\<forall>log\<in>set logs. deliveredFor s key log \<le> sint (rate key * d))"
  using assms(2-5,7)
proof (induction ws arbitrary: s)
  case (Cons rs ws)
  obtain log s1 where 1: "serveAll env rs (s\<lparr>limiter := refillBuckets (limiter s)\<rparr>) = Ret (log, s1)" "map fst log = rs"
      "deliveredFor s key log \<le> sint (rate key * d)" "ready s1" "suffix_compiles env s1" "sameNames s s1"
      "settled rate d (limiter s1)"
    using one_window [OF assms(1) Cons.prems(1-4) assms(6), of rs] Cons.prems(5) by auto
  have fmt: "kafkaMessageFormat s1 \<noteq> TimberCollectionMessageFormat" using 1(6) Cons.prems(3) by (simp add: sameNames_def)
  have "\<forall>rs\<in>set ws. \<forall>r\<in>set rs. legalFor rate d s1 r" using Cons.prems(5) by (simp add: legalFor_same [OF 1(6)])
  note Cons.IH [OF 1(4,5) fmt 1(7) this]
  then obtain logs s' where "serveWindows env ws s1 = Ret (logs, s')" "map (map fst) logs = ws"
      "\<forall>log\<in>set logs. deliveredFor s key log \<le> sint (rate key * d)"
    by (auto simp: sameNames_same [OF 1(6)])
  with 1 show ?case by auto
qed simp

theorem producer_enforces_rate_witness:
  "\<exists>log1 log2 s'. serveWindows (demo_env [] (\<lambda>_. None))
      [[One (demo_timber 1), Batch \<lparr>cContext = Some (demo_context 1), cItems = replicate 9 (demo_timber 1)\<rparr>, One (demo_timber 1)],
       [One (demo_timber 1)]] demo_service = Ret ([log1, log2], s')
    \<and> length log1 = 3 \<and> deliveredFor demo_service ''p_app_pb'' log1 \<le> 10 \<and> deliveredFor demo_service ''p_app_pb'' log2 \<le> 10"
proof -
  let ?env = "demo_env [] (\<lambda>_. None)"
  let ?rs = "[One (demo_timber 1), Batch \<lparr>cContext = Some (demo_context 1), cItems = replicate 9 (demo_timber 1)\<rparr>, One (demo_timber 1)]"
  have e: "hitLimit ?env = IsHitLimit" "suffix_compiles ?env demo_service" "ready demo_service"
    by (simp_all add: demo_env_def suffix_compiles_def ready_def demo_service_def)
  have f: "kafkaMessageFormat demo_service \<noteq> TimberCollectionMessageFormat"
    by (simp add: demo_service_def TimberCollectionMessageFormat_def)
  have st: "settled (\<lambda>_. 1) 10 (limiter demo_service)"
    using settled_New [of "\<lambda>_. 1" 10] by (simp add: to_int32_def demo_service_def)
  have legal: "\<forall>rs\<in>set [?rs, [One (demo_timber 1)]]. \<forall>r\<in>set rs. legalFor (\<lambda>_. 1) 10 demo_service r"
    by (simp add: legalFor_def demo_service_def topicOf_def demo_timber_def demo_context_def GetKafkaTopic_def limiterRequest_def
        getRateLimitInfo_def GetDisableAppTps_def GetAppMaxTps_def GetAppGroupMaxTps_def ProberTopic_def HasPrefix_def
        legal_request_def wf_count_def)
  obtain logs s' where logs: "serveWindows ?env [?rs, [One (demo_timber 1)]] demo_service = Ret (logs, s')"
      "map (map fst) logs = [?rs, [One (demo_timber 1)]]"
      "\<forall>log\<in>set logs. deliveredFor demo_service ''p_app_pb'' log \<le> sint (1 * 10 :: int32)"
    using producer_enforces_rate [OF e(1,3,2) f st _ legal, of "''p_app_pb''"] by auto
  then obtain log1 log2 where l: "logs = [log1, log2]" "map fst log1 = ?rs" by (auto simp: map_eq_Cons_conv)
  from arg_cong [OF l(2), of length] have "length log1 = 3" by simp
  with logs l show ?thesis by auto
qed

end
