(* ===== verification/Redis_Limiter.thy ===== *)
theory Redis_Limiter
  imports Rate_Limiter Go_Strings
begin

text \<open>
  The rate limiters that keep their counters elsewhere: \<open>flow/redis_rate_limiter.go\<close>,
  \<open>flow/gubernator_rate_limiter.go\<close>, and the test double \<open>flow/dummy_rate_limiter.go\<close>. The Redis client
  is a parameter: a record of its two commands on an arbitrary state of the outside world, each of
  which also says whether it had to open a connection, since the client then calls the hook
  \<open>onConnect\<close> before the command runs. The commands sent are logged in the limiter's state.
\<close>

section \<open>The Redis client\<close>

datatype redis_error =
    RedisNil
  | ConnRefused
  | OtherError string
  | Wrapped string redis_error

fun errors_Is :: "redis_error \<Rightarrow> redis_error \<Rightarrow> bool" where
  "errors_Is (Wrapped msg e) target = (Wrapped msg e = target \<or> errors_Is e target)"
| "errors_Is e target = (e = target)"

record 'r redis_env =
  IncrByCmd :: "string \<Rightarrow> int64 \<Rightarrow> 'r \<Rightarrow> bool \<times> (int64 \<times> redis_error option) \<times> 'r"
  ExpireNXCmd :: "string \<Rightarrow> int \<Rightarrow> 'r \<Rightarrow> bool \<times> redis_error option \<times> 'r"

datatype redis_cmd = IncrBy string int64 | ExpireNX string int

section \<open>The limiter\<close>

text \<open>
  The local limiter is a function of type \<open>LimiterFunc\<close> or an implementation of the full interface,
  whose operations are the fields of \<open>limiter_impl\<close>. Durations are nanoseconds.
\<close>

record 'l limiter_impl =
  impl_IsHitLimit :: "'l hit_limit"
  impl_Start :: "'l \<Rightarrow> 'l"
  impl_Stop :: "'l \<Rightarrow> 'l"
  impl_IsStart :: "'l \<Rightarrow> bool"

datatype 'l localLimiter =
    LimiterFunc "string \<Rightarrow> int64 \<Rightarrow> int32 \<Rightarrow> bool"
  | FullLimiter 'l

record ('l, 'r) RedisRateLimiter =
  rr_mutex :: bool
  rr_timeout :: int
  rr_duration :: int
  rr_keyPrefix :: string
  rr_localLimiter :: "'l localLimiter"
  rr_isUsingLocal :: bool
  rr_cmds :: "redis_cmd list"
  rr_db :: 'r

definition defaultTimeout :: int where
  "defaultTimeout = 1000000000"

definition defaultDuration :: int where
  "defaultDuration = 60 * 1000000000"

definition defaultKeyPrefix :: string where
  "defaultKeyPrefix = []"

definition WithDuration :: "int \<Rightarrow> ('l, 'r) RedisRateLimiter \<Rightarrow> ('l, 'r) RedisRateLimiter" where
  "WithDuration d l = l\<lparr>rr_duration := d\<rparr>"

definition WithKeyPrefix :: "string \<Rightarrow> ('l, 'r) RedisRateLimiter \<Rightarrow> ('l, 'r) RedisRateLimiter" where
  "WithKeyPrefix p l = l\<lparr>rr_keyPrefix := TrimSpace p\<rparr>"

definition WithTimeout :: "int \<Rightarrow> ('l, 'r) RedisRateLimiter \<Rightarrow> ('l, 'r) RedisRateLimiter" where
  "WithTimeout t l = l\<lparr>rr_timeout := t\<rparr>"

definition WithFallbackToLocal :: "'l localLimiter \<Rightarrow> ('l, 'r) RedisRateLimiter \<Rightarrow> ('l, 'r) RedisRateLimiter" where
  "WithFallbackToLocal ll l = l\<lparr>rr_localLimiter := ll\<rparr>"

definition WithMutex :: "('l, 'r) RedisRateLimiter \<Rightarrow> ('l, 'r) RedisRateLimiter" where
  "WithMutex l = l\<lparr>rr_mutex := True\<rparr>"

definition NewRedisRateLimiter :: "'r \<Rightarrow> (('l, 'r) RedisRateLimiter \<Rightarrow> ('l, 'r) RedisRateLimiter) list \<Rightarrow> ('l, 'r) RedisRateLimiter" where
  "NewRedisRateLimiter db opts =
     foldl (\<lambda>d opt. opt d)
       \<lparr>rr_mutex = False, rr_timeout = defaultTimeout, rr_duration = defaultDuration, rr_keyPrefix = defaultKeyPrefix,
        rr_localLimiter = LimiterFunc (\<lambda>_ _ _. False), rr_isUsingLocal = False, rr_cmds = [], rr_db = db\<rparr> opts"

text \<open>
  \<open>int32(duration.Seconds())\<close>: the whole seconds, towards zero. The detour through \<open>float64\<close> is exact
  for durations below \<open>2 ^ 22\<close> seconds and for every duration of whole seconds that fits 32 bits.
\<close>

definition durationSeconds :: "int \<Rightarrow> int32" where
  "durationSeconds d = word_of_int (sgn d * (\<bar>d\<bar> div 1000000000))"

definition getKeyFormatted :: "('l, 'r) RedisRateLimiter \<Rightarrow> string \<Rightarrow> string" where
  "getKeyFormatted l topic = (if rr_keyPrefix l \<noteq> [] then rr_keyPrefix l @ '':'' @ topic else topic)"

definition isLegitRedisError :: "redis_error option \<Rightarrow> bool" where
  "isLegitRedisError err = (case err of None \<Rightarrow> False | Some e \<Rightarrow> \<not> errors_Is e RedisNil)"

definition isRedisConnectionRefused :: "redis_error option \<Rightarrow> bool" where
  "isRedisConnectionRefused err = (case err of None \<Rightarrow> False | Some e \<Rightarrow> errors_Is e ConnRefused)"

definition onConnect :: "('l, 'r) RedisRateLimiter \<Rightarrow> ('l, 'r) RedisRateLimiter" where
  "onConnect l = l\<lparr>rr_isUsingLocal := False\<rparr>"

definition onErr :: "redis_error option \<Rightarrow> ('l, 'r) RedisRateLimiter \<Rightarrow> bool \<times> ('l, 'r) RedisRateLimiter" where
  "onErr err l =
     (if \<not> isLegitRedisError err then (False, l)
      else (True, if isRedisConnectionRefused err then l\<lparr>rr_isUsingLocal := True\<rparr> else l))"

definition incrBy :: "'r redis_env \<Rightarrow> string \<Rightarrow> int64 \<Rightarrow> ('l, 'r) RedisRateLimiter \<Rightarrow>
    (int32 \<times> redis_error option) \<times> ('l, 'r) RedisRateLimiter" where
  "incrBy env key val l =
     (let (connected, (token, err), db) = IncrByCmd env key val (rr_db l);
          l1 = l\<lparr>rr_db := db, rr_cmds := rr_cmds l @ [IncrBy key val]\<rparr>;
          l2 = (if connected then onConnect l1 else l1)
      in if isLegitRedisError err then ((0, err), l2) else ((to_int32 token, None), l2))"

definition expireNx :: "'r redis_env \<Rightarrow> string \<Rightarrow> ('l, 'r) RedisRateLimiter \<Rightarrow> redis_error option \<times> ('l, 'r) RedisRateLimiter" where
  "expireNx env key l =
     (let (connected, err, db) = ExpireNXCmd env key (rr_duration l) (rr_db l);
          l1 = l\<lparr>rr_db := db, rr_cmds := rr_cmds l @ [ExpireNX key (rr_duration l)]\<rparr>;
          l2 = (if connected then onConnect l1 else l1)
      in (if isLegitRedisError err then err else None, l2))"

definition localIsHitLimit :: "'l limiter_impl \<Rightarrow> ('l, 'r) RedisRateLimiter hit_limit" where
  "localIsHitLimit impl l topic n m =
     (case rr_localLimiter l of
        LimiterFunc f \<Rightarrow> (f topic n m, l)
      | FullLimiter x \<Rightarrow>
          let (h, x') = impl_IsHitLimit impl x topic n m in (h, l\<lparr>rr_localLimiter := FullLimiter x'\<rparr>))"

text \<open>One call, under the mutex when there is one; without it calls are atomic in this model too.\<close>

definition redisIsHitLimit :: "'l limiter_impl \<Rightarrow> 'r redis_env \<Rightarrow> ('l, 'r) RedisRateLimiter hit_limit" where
  "redisIsHitLimit impl env l topic count maxTokenIfNotExist =
     (if rr_isUsingLocal l then localIsHitLimit impl l topic count maxTokenIfNotExist
      else
        let key = getKeyFormatted l topic;
            ((currentToken, err), l1) = incrBy env key count l;
            (failed, l2) = onErr err l1
        in if failed then (True, l2)
           else if maxTokenIfNotExist * durationSeconds (rr_duration l2) <s currentToken then (True, l2)
           else if widen currentToken \<noteq> count then (False, l2)
           else let (err', l3) = expireNx env key l2; (failed', l4) = onErr err' l3
                in (failed', l4))"

text \<open>The type assertion: it succeeds for a value of the full interface. The field is never nil, as the constructor sets it.\<close>

definition isLocalRateLimiter :: "('l, 'r) RedisRateLimiter \<Rightarrow> 'l option" where
  "isLocalRateLimiter l = (case rr_localLimiter l of FullLimiter x \<Rightarrow> Some x | LimiterFunc f \<Rightarrow> None)"

definition callLocalStartFunction :: "'l limiter_impl \<Rightarrow> ('l, 'r) RedisRateLimiter \<Rightarrow> ('l, 'r) RedisRateLimiter" where
  "callLocalStartFunction impl l =
     (case isLocalRateLimiter l of Some x \<Rightarrow> l\<lparr>rr_localLimiter := FullLimiter (impl_Start impl x)\<rparr> | None \<Rightarrow> l)"

definition callLocalStopFunction :: "'l limiter_impl \<Rightarrow> ('l, 'r) RedisRateLimiter \<Rightarrow> ('l, 'r) RedisRateLimiter" where
  "callLocalStopFunction impl l =
     (case isLocalRateLimiter l of Some x \<Rightarrow> l\<lparr>rr_localLimiter := FullLimiter (impl_Stop impl x)\<rparr> | None \<Rightarrow> l)"

definition callLocalIsStartFunction :: "'l limiter_impl \<Rightarrow> ('l, 'r) RedisRateLimiter \<Rightarrow> bool" where
  "callLocalIsStartFunction impl l = (case isLocalRateLimiter l of Some x \<Rightarrow> impl_IsStart impl x | None \<Rightarrow> True)"

definition redisStart :: "'l limiter_impl \<Rightarrow> ('l, 'r) RedisRateLimiter \<Rightarrow> ('l, 'r) RedisRateLimiter" where
  "redisStart impl l = callLocalStartFunction impl l"

definition redisStop :: "'l limiter_impl \<Rightarrow> ('l, 'r) RedisRateLimiter \<Rightarrow> ('l, 'r) RedisRateLimiter" where
  "redisStop impl l = callLocalStopFunction impl l"

definition redisIsStart :: "'l limiter_impl \<Rightarrow> ('l, 'r) RedisRateLimiter \<Rightarrow> bool" where
  "redisIsStart impl l = callLocalIsStartFunction impl l"

definition redisPutBucket :: "string \<Rightarrow> LeakyBucket \<Rightarrow> ('l, 'r) RedisRateLimiter \<Rightarrow> ('l, 'r) RedisRateLimiter" where
  "redisPutBucket topic bucket l = l"

definition redisBucket :: "string \<Rightarrow> ('l, 'r) RedisRateLimiter \<Rightarrow> LeakyBucket option" where
  "redisBucket topic l = None"

section \<open>Gubernator and the test double\<close>

text \<open>
  Gubernator is an embedded daemon: its \<open>GetRateLimits\<close> returns an error, or the statuses of the
  responses. The request goes out with the duration in milliseconds.
\<close>

datatype gub_status = UNDER_LIMIT | OVER_LIMIT

record gub_request =
  gr_Name :: string
  gr_UniqueKey :: string
  gr_Hits :: int64
  gr_Limit :: int64
  gr_Duration :: int64

record 'g GubernatorRateLimiter =
  gub_interval :: int64
  gub_daemon :: 'g

definition NewGubernatorRateLimiter :: "'g \<Rightarrow> int64 \<Rightarrow> 'g GubernatorRateLimiter" where
  "NewGubernatorRateLimiter daemon interval = \<lparr>gub_interval = interval, gub_daemon = daemon\<rparr>"

definition gubRequest :: "'g GubernatorRateLimiter \<Rightarrow> string \<Rightarrow> int64 \<Rightarrow> int32 \<Rightarrow> gub_request" where
  "gubRequest g topic count maxTokenIfNotExist =
     \<lparr>gr_Name = ''abc'', gr_UniqueKey = topic, gr_Hits = count,
      gr_Limit = widen (maxTokenIfNotExist * to_int32 (gub_interval g)), gr_Duration = 1000 * gub_interval g\<rparr>"

definition gubIsHitLimit :: "(gub_request \<Rightarrow> 'g \<Rightarrow> (error + gub_status list) \<times> 'g) \<Rightarrow> 'g GubernatorRateLimiter hit_limit" where
  "gubIsHitLimit getRateLimits g topic count maxTokenIfNotExist =
     (case getRateLimits (gubRequest g topic count maxTokenIfNotExist) (gub_daemon g) of
        (Inl e, d) \<Rightarrow> (True, g\<lparr>gub_daemon := d\<rparr>)
      | (Inr [], d) \<Rightarrow> (True, g\<lparr>gub_daemon := d\<rparr>)
      | (Inr (st # _), d) \<Rightarrow> (st = OVER_LIMIT, g\<lparr>gub_daemon := d\<rparr>))"

definition gubStart :: "'g GubernatorRateLimiter \<Rightarrow> 'g GubernatorRateLimiter" where
  "gubStart g = g"

definition gubStop :: "('g \<Rightarrow> 'g) \<Rightarrow> 'g GubernatorRateLimiter \<Rightarrow> 'g GubernatorRateLimiter" where
  "gubStop close g = g\<lparr>gub_daemon := close (gub_daemon g)\<rparr>"

definition gubIsStart :: "'g GubernatorRateLimiter \<Rightarrow> bool" where
  "gubIsStart g = True"

definition gubPutBucket :: "string \<Rightarrow> LeakyBucket \<Rightarrow> 'g GubernatorRateLimiter \<Rightarrow> 'g GubernatorRateLimiter" where
  "gubPutBucket topic bucket g = g"

definition gubBucket :: "string \<Rightarrow> 'g GubernatorRateLimiter \<Rightarrow> LeakyBucket option" where
  "gubBucket topic g = None"

text \<open>The functions of the double are closures on the state \<open>'w\<close> of the test; \<open>IsStartFunc\<close> is never set nor called.\<close>

record 'w dummyRateLimiter =
  IsHitLimitFunc :: "string \<Rightarrow> int64 \<Rightarrow> int32 \<Rightarrow> 'w \<Rightarrow> bool \<times> 'w"
  StartFunc :: "'w \<Rightarrow> 'w"
  StopFunc :: "'w \<Rightarrow> 'w"
  PutBucketFunc :: "string \<Rightarrow> LeakyBucket \<Rightarrow> 'w \<Rightarrow> 'w"
  BucketFunc :: "string \<Rightarrow> 'w \<Rightarrow> LeakyBucket option \<times> 'w"
  IsStartBool :: bool
  testState :: 'w

definition NewDummyRateLimiter :: "'w \<Rightarrow> 'w dummyRateLimiter" where
  "NewDummyRateLimiter w =
     \<lparr>IsHitLimitFunc = (\<lambda>_ _ _ w. (False, w)), StartFunc = (\<lambda>w. w), StopFunc = (\<lambda>w. w), PutBucketFunc = (\<lambda>_ _ w. w),
      BucketFunc = (\<lambda>_ w. (None, w)), IsStartBool = False, testState = w\<rparr>"

definition dummyIsHitLimit :: "'w dummyRateLimiter hit_limit" where
  "dummyIsHitLimit l topic n m = (let (h, w) = IsHitLimitFunc l topic n m (testState l) in (h, l\<lparr>testState := w\<rparr>))"

definition dummyStart :: "'w dummyRateLimiter \<Rightarrow> 'w dummyRateLimiter" where
  "dummyStart l = l\<lparr>testState := StartFunc l (testState l), IsStartBool := True\<rparr>"

definition dummyStop :: "'w dummyRateLimiter \<Rightarrow> 'w dummyRateLimiter" where
  "dummyStop l = l\<lparr>testState := StopFunc l (testState l)\<rparr>"

definition dummyIsStart :: "'w dummyRateLimiter \<Rightarrow> bool" where
  "dummyIsStart l = IsStartBool l"

definition dummyPutBucket :: "string \<Rightarrow> LeakyBucket \<Rightarrow> 'w dummyRateLimiter \<Rightarrow> 'w dummyRateLimiter" where
  "dummyPutBucket topic bucket l = l\<lparr>testState := PutBucketFunc l topic bucket (testState l)\<rparr>"

definition dummyBucket :: "string \<Rightarrow> 'w dummyRateLimiter \<Rightarrow> LeakyBucket option \<times> 'w dummyRateLimiter" where
  "dummyBucket topic l = (let (b, w) = BucketFunc l topic (testState l) in (b, l\<lparr>testState := w\<rparr>))"

definition Expect_IsHitLimit_AlwaysTrue :: "'w dummyRateLimiter \<Rightarrow> 'w dummyRateLimiter" where
  "Expect_IsHitLimit_AlwaysTrue l = l\<lparr>IsHitLimitFunc := (\<lambda>_ _ _ w. (True, w))\<rparr>"

text \<open>A stopped double still says it is started: \<open>Stop\<close> does not reset the flag.\<close>

lemma dummy_stop_keeps_flag: "dummyIsStart (dummyStop (dummyStart l))"
  by (simp add: dummyIsStart_def dummyStop_def dummyStart_def)

section \<open>A Redis that counts\<close>

text \<open>
  What the limiter relies on between two expirations of a key, as Redis documents it: \<open>INCRBY\<close> adds to
  the key's value, 0 for a missing key, and answers the sum; \<open>EXPIRE NX\<close> changes no value.
\<close>

definition counting_redis :: "'r redis_env \<Rightarrow> ('r \<Rightarrow> string \<Rightarrow> int) \<Rightarrow> bool" where
  "counting_redis env val \<longleftrightarrow>
     (\<forall>k n r. \<exists>c r'. IncrByCmd env k n r = (c, (word_of_int (val r k + sint n), None), r')
        \<and> val r' = (val r)(k := val r k + sint n))
     \<and> (\<forall>k d r. \<exists>c r'. ExpireNXCmd env k d r = (c, None, r') \<and> val r' = val r)"

lemma getKeyFormatted_inj: "getKeyFormatted l t = getKeyFormatted l t' \<longleftrightarrow> t = t'"
  by (simp add: getKeyFormatted_def)

definition windowCap :: "('l, 'r) RedisRateLimiter \<Rightarrow> int32 \<Rightarrow> int" where
  "windowCap l m = sint (m * durationSeconds (rr_duration l))"

lemma sint64_word_of_int: "- (2 ^ 63) \<le> i \<Longrightarrow> i < 2 ^ 63 \<Longrightarrow> sint (word_of_int i :: int64) = i"
  by transfer (simp add: signed_take_bit_int_eq_self)

lemma widen_to_int32:
  assumes "0 \<le> v" and "0 \<le> sint n" and "v + sint n < 2 ^ 31"
  shows "widen (to_int32 (word_of_int (v + sint n))) = n \<longleftrightarrow> v = 0"
    and "sint (to_int32 (word_of_int (v + sint n))) = v + sint n"
proof -
  have 64: "sint (word_of_int (v + sint n) :: int64) = v + sint n"
    using assms by (intro sint64_word_of_int) auto
  then show 32: "sint (to_int32 (word_of_int (v + sint n))) = v + sint n"
    using assms by (subst sint_to_int32) auto
  show "widen (to_int32 (word_of_int (v + sint n))) = n \<longleftrightarrow> v = 0"
    using 32 by (metis add_cancel_right_left sint_widen signed_word_eqI)
qed

lemma redisIsHitLimit_counting:
  assumes c: "counting_redis env val" and "\<not> rr_isUsingLocal l"
    and v: "0 \<le> val (rr_db l) (getKeyFormatted l k)" "0 \<le> sint n"
      "val (rr_db l) (getKeyFormatted l k) + sint n < 2 ^ 31"
  shows "\<exists>l'. redisIsHitLimit impl env l k n m =
      (windowCap l m < val (rr_db l) (getKeyFormatted l k) + sint n, l')
    \<and> val (rr_db l') = (val (rr_db l))(getKeyFormatted l k := val (rr_db l) (getKeyFormatted l k) + sint n)
    \<and> \<not> rr_isUsingLocal l' \<and> rr_duration l' = rr_duration l \<and> rr_keyPrefix l' = rr_keyPrefix l
    \<and> rr_cmds l' = rr_cmds l @ IncrBy (getKeyFormatted l k) n #
        (if val (rr_db l) (getKeyFormatted l k) = 0 \<and> sint n \<le> windowCap l m
         then [ExpireNX (getKeyFormatted l k) (rr_duration l)] else [])"
proof -
  let ?key = "getKeyFormatted l k"
  let ?v = "val (rr_db l) ?key"
  obtain b r' where incr: "IncrByCmd env ?key n (rr_db l) = (b, (word_of_int (?v + sint n), None), r')"
      "val r' = (val (rr_db l))(?key := ?v + sint n)"
    using c unfolding counting_redis_def by blast
  obtain b' r'' where ex: "ExpireNXCmd env ?key (rr_duration l) r' = (b', None, r'')" "val r'' = val r'"
    using c unfolding counting_redis_def by blast
  note w = widen_to_int32 [OF v]
  have "m * durationSeconds (rr_duration l) <s to_int32 (word_of_int (?v + sint n)) \<longleftrightarrow> windowCap l m < ?v + sint n"
    using w(2) by (simp add: word_sless_alt windowCap_def)
  with assms(2) incr ex w(1) show ?thesis
    by (auto simp: redisIsHitLimit_def incrBy_def onErr_def expireNx_def isLegitRedisError_def onConnect_def Let_def)
qed

text \<open>The messages of a key that a sequence of requests asks for.\<close>

definition demand :: "string \<Rightarrow> request list \<Rightarrow> int" where
  "demand key rs = sum_list (map (\<lambda>(k, n, m). if k = key then sint n else 0) rs)"

lemma demand_simps [simp]:
  "demand key [] = 0" "demand key ((k, n, m) # rs) = (if k = key then sint n else 0) + demand key rs"
  by (simp_all add: demand_def)

definition counted :: "(string \<Rightarrow> int32) \<Rightarrow> request list \<Rightarrow> bool" where
  "counted rate rs \<longleftrightarrow> (\<forall>(k, n, m)\<in>set rs. 0 \<le> sint n \<and> m = rate k)"

lemma demand_nonneg: "counted rate rs \<Longrightarrow> 0 \<le> demand key rs"
proof (induction rs)
  case (Cons r rs)
  then show ?case by (cases r) (auto simp: counted_def)
qed simp

text \<open>The Redis limiter while Redis answers: it charges refused requests too, so that the total demand must fit.\<close>

definition redisSafe :: "('r \<Rightarrow> string \<Rightarrow> int) \<Rightarrow> (string \<Rightarrow> int32) \<Rightarrow> int32 \<Rightarrow> ('l, 'r) RedisRateLimiter \<Rightarrow> request list \<Rightarrow> bool" where
  "redisSafe val rate d l rs \<longleftrightarrow> \<not> rr_isUsingLocal l \<and> durationSeconds (rr_duration l) = d \<and> counted rate rs
     \<and> (\<forall>k. 0 \<le> val (rr_db l) (getKeyFormatted l k) \<and> val (rr_db l) (getKeyFormatted l k) + demand k rs < 2 ^ 31)"

lemma redis_cap:
  assumes "counting_redis env val"
  shows "rate_cap (redisIsHitLimit impl env) (\<lambda>l k. val (rr_db l) (getKeyFormatted l k)) (\<lambda>k. sint (rate k * d)) (redisSafe val rate d)"
proof -
  let ?val = "\<lambda>l k. val (rr_db l) (getKeyFormatted l k)"
  have step: "redisSafe val rate d (snd (redisIsHitLimit impl env l k n m)) rs
      \<and> (fst (redisIsHitLimit impl env l k n m) \<longleftrightarrow> sint (rate k * d) < ?val l k + sint n) \<and> 0 \<le> sint n
      \<and> (\<forall>k'. ?val (snd (redisIsHitLimit impl env l k n m)) k' = ?val l k' + (if k' = k then sint n else 0))"
    if safe: "redisSafe val rate d l ((k, n, m) # rs)" for l k n m rs
  proof -
    have rs: "counted rate rs" and n: "0 \<le> sint n" "m = rate k" using safe by (auto simp: redisSafe_def counted_def)
    have v: "0 \<le> ?val l k'" "?val l k' + (if k' = k then sint n else 0) + demand k' rs < 2 ^ 31" for k'
      using safe [unfolded redisSafe_def] by (auto dest!: spec [of _ k'] simp: algebra_simps split: if_splits)
    have "?val l k + sint n < 2 ^ 31" using v(2) [of k] demand_nonneg [OF rs, of k] by simp
    then obtain l' where l': "redisIsHitLimit impl env l k n m = (windowCap l m < ?val l k + sint n, l')"
        "val (rr_db l') = (val (rr_db l))(getKeyFormatted l k := ?val l k + sint n)"
        "\<not> rr_isUsingLocal l'" "rr_duration l' = rr_duration l" "rr_keyPrefix l' = rr_keyPrefix l"
      using redisIsHitLimit_counting [OF assms _ v(1) n(1), where k = k and impl = impl and m = m] safe by (auto simp: redisSafe_def)
    have key: "getKeyFormatted l' = getKeyFormatted l" using l'(5) by (auto simp: getKeyFormatted_def)
    have val': "?val l' k' = ?val l k' + (if k' = k then sint n else 0)" for k'
      using l'(2) by (simp add: key getKeyFormatted_inj)
    have "redisSafe val rate d l' rs"
      using safe l'(3,4) rs v val' n(1) unfolding redisSafe_def by (auto simp: add_nonneg_nonneg)
    then show ?thesis using l'(1) val' n safe by (simp add: windowCap_def redisSafe_def)
  qed
  show ?thesis
    by unfold_locales (use step in fastforce)+
qed

text \<open>
  One Redis limiter enforces the rate too: with a Redis that counts, and starting with the value
  \<open>v\<close> of the key, no sequence of requests, for any keys and in any order, gets more than the key's rate
  times the interval less \<open>v\<close> messages admitted before the key expires, provided that no key is asked
  for so much that its counter reaches \<open>2 ^ 31\<close>.
\<close>

lemma redis_limiter_enforces_rate:
  assumes "counting_redis env val" and "\<not> rr_isUsingLocal l" and "counted rate rs"
    and "\<And>k. 0 \<le> val (rr_db l) (getKeyFormatted l k)"
    and "\<And>k. val (rr_db l) (getKeyFormatted l k) + demand k rs < 2 ^ 31"
  shows "admitted key (fst (run_limiter (redisIsHitLimit impl env) l rs)) \<le>
    max 0 (sint (rate key * durationSeconds (rr_duration l)) - val (rr_db l) (getKeyFormatted l key))"
proof -
  have "redisSafe val rate (durationSeconds (rr_duration l)) l rs" using assms(2-5) by (simp add: redisSafe_def)
  from rate_cap.admitted_max [OF redis_cap [OF assms(1)] this, of key impl] show ?thesis by simp
qed

text \<open>A Redis in memory, for the witnesses: values only.\<close>

definition memory_redis :: "(string \<Rightarrow> int) redis_env" where
  "memory_redis =
     \<lparr>IncrByCmd = (\<lambda>k n r. (False, (word_of_int (r k + sint n), None), r(k := r k + sint n))),
      ExpireNXCmd = (\<lambda>k d r. (False, None, r))\<rparr>"

lemma counting_memory_redis: "counting_redis memory_redis (\<lambda>r. r)"
  by (auto simp: counting_redis_def memory_redis_def)

definition local_impl :: "rateLimiter limiter_impl" where
  "local_impl = \<lparr>impl_IsHitLimit = IsHitLimit, impl_Start = (\<lambda>l. l\<lparr>isStart := True\<rparr>),
     impl_Stop = (\<lambda>l. l\<lparr>isStart := False\<rparr>), impl_IsStart = IsStart\<rparr>"

definition demo_redis :: "(rateLimiter, string \<Rightarrow> int) RedisRateLimiter" where
  "demo_redis = NewRedisRateLimiter (\<lambda>_. 0)
     [WithDuration (10 * 1000000000), WithKeyPrefix '' barito '', WithFallbackToLocal (FullLimiter (NewRateLimiter 10)), WithMutex]"

lemmas redis_new_defs = NewRedisRateLimiter_def WithDuration_def WithKeyPrefix_def WithFallbackToLocal_def WithMutex_def

lemma redis_limiter_enforces_rate_example:
  "admitted ''a'' (fst (run_limiter (redisIsHitLimit local_impl memory_redis) demo_redis
     [(''a'', 20, 5), (''b'', 60, 5), (''a'', 40, 5), (''a'', 30, 5)])) \<le> 50"
proof -
  let ?rs = "[(''a'', 20, 5), (''b'', 60, 5), (''a'', 40, 5), (''a'', 30, 5)] :: request list"
  have "\<not> rr_isUsingLocal demo_redis" "rr_duration demo_redis = 10 * 1000000000" "rr_db demo_redis = (\<lambda>_. 0)"
    by (simp_all add: demo_redis_def redis_new_defs)
  moreover have "counted (\<lambda>_. 5) ?rs" by (simp add: counted_def)
  ultimately show ?thesis
    using redis_limiter_enforces_rate [OF counting_memory_redis, of demo_redis "\<lambda>_. 5" ?rs "''a''" local_impl]
    by (simp add: durationSeconds_def)
qed

section \<open>The time to live\<close>

text \<open>Requests for a key that is already over its limit: all are turned away, and no expiry is ever set.\<close>

lemma over_limit_run:
  assumes "counting_redis env val" and "\<not> rr_isUsingLocal l" and "counted (\<lambda>_. m) rs"
    and "\<forall>r\<in>set rs. fst r = k"
    and "0 < val (rr_db l) (getKeyFormatted l k)" and "windowCap l m < val (rr_db l) (getKeyFormatted l k)"
    and "val (rr_db l) (getKeyFormatted l k) + demand k rs < 2 ^ 31"
  shows "(\<forall>(r, h)\<in>set (fst (run_limiter (redisIsHitLimit impl env) l rs)). h)
    \<and> rr_cmds (snd (run_limiter (redisIsHitLimit impl env) l rs)) =
      rr_cmds l @ map (\<lambda>(k, n, m). IncrBy (getKeyFormatted l k) n) rs"
  using assms
proof (induction rs arbitrary: l)
  case (Cons r rs)
  let ?val = "\<lambda>l. val (rr_db l) (getKeyFormatted l k)"
  obtain n where r: "r = (k, n, m)" and n: "0 \<le> sint n" and rs: "counted (\<lambda>_. m) rs"
    using Cons.prems(3,4) by (cases r) (auto simp: counted_def)
  have small: "?val l + sint n < 2 ^ 31" using Cons.prems(7) demand_nonneg [OF rs, of k] by (simp add: r)
  obtain l' where l': "redisIsHitLimit impl env l k n m = (True, l')"
      "val (rr_db l') = (val (rr_db l))(getKeyFormatted l k := ?val l + sint n)"
      "\<not> rr_isUsingLocal l'" "rr_duration l' = rr_duration l" "rr_keyPrefix l' = rr_keyPrefix l"
      "rr_cmds l' = rr_cmds l @ [IncrBy (getKeyFormatted l k) n]"
    using redisIsHitLimit_counting [OF Cons.prems(1,2) _ n small, of impl m] Cons.prems(5,6) n by auto
  have key: "getKeyFormatted l' = getKeyFormatted l" using l'(5) by (auto simp: getKeyFormatted_def)
  have val': "?val l' = ?val l + sint n" using l'(2) by (simp add: key)
  have cap: "windowCap l' m = windowCap l m" using l'(4) by (simp add: windowCap_def)
  have "(\<forall>(r, h)\<in>set (fst (run_limiter (redisIsHitLimit impl env) l' rs)). h)
    \<and> rr_cmds (snd (run_limiter (redisIsHitLimit impl env) l' rs)) =
      rr_cmds l' @ map (\<lambda>(k, n, m). IncrBy (getKeyFormatted l' k) n) rs"
    using Cons.prems(4-7) n by (intro Cons.IH [OF Cons.prems(1) l'(3) rs]) (auto simp: val' cap r)
  with l'(1,6) key show ?case by (auto simp: r Let_def split: prod.splits)
qed simp

text \<open>
  C35. A first request larger than the limit locks its key out: when the first request of a fresh key
  asks for more than the key's rate times the interval, it is turned away, and then so is every later
  request for the key, of any size; and the limiter sends Redis only \<open>INCRBY\<close> commands for it, never the
  \<open>EXPIRE\<close> that would let the key end, as long as the counter stays below \<open>2 ^ 31\<close>.
\<close>

theorem oversized_first_request_blocks_key:
  assumes "counting_redis env val" and "\<not> rr_isUsingLocal l" and "val (rr_db l) (getKeyFormatted l k) = 0"
    and "0 \<le> sint (m * durationSeconds (rr_duration l))" and "sint (m * durationSeconds (rr_duration l)) < sint n"
    and "counted (\<lambda>_. m) rs" and "\<forall>r\<in>set rs. fst r = k" and "sint n + demand k rs < 2 ^ 31"
  shows "(\<forall>(r, h)\<in>set (fst (run_limiter (redisIsHitLimit impl env) l ((k, n, m) # rs))). h)
    \<and> rr_cmds (snd (run_limiter (redisIsHitLimit impl env) l ((k, n, m) # rs))) =
      rr_cmds l @ map (\<lambda>(k, n, m). IncrBy (getKeyFormatted l k) n) ((k, n, m) # rs)"
proof -
  have n: "0 \<le> sint n" "windowCap l m < sint n" using assms(4,5) by (simp_all add: windowCap_def)
  have small: "sint n < 2 ^ 31" using assms(6,8) demand_nonneg [of "\<lambda>_. m" rs k] by simp
  obtain l' where l': "redisIsHitLimit impl env l k n m = (True, l')"
      "val (rr_db l') = (val (rr_db l))(getKeyFormatted l k := sint n)"
      "\<not> rr_isUsingLocal l'" "rr_duration l' = rr_duration l" "rr_keyPrefix l' = rr_keyPrefix l"
      "rr_cmds l' = rr_cmds l @ [IncrBy (getKeyFormatted l k) n]"
    using redisIsHitLimit_counting [OF assms(1,2) _ n(1), where k = k and impl = impl and m = m] assms(3) n small by auto
  have key: "getKeyFormatted l' = getKeyFormatted l" using l'(5) by (auto simp: getKeyFormatted_def)
  have cap: "windowCap l' m = windowCap l m" using l'(4) by (simp add: windowCap_def)
  have "0 < sint n" using assms(4,5) by simp
  then have "(\<forall>(r, h)\<in>set (fst (run_limiter (redisIsHitLimit impl env) l' rs)). h)
    \<and> rr_cmds (snd (run_limiter (redisIsHitLimit impl env) l' rs)) =
      rr_cmds l' @ map (\<lambda>(k, n, m). IncrBy (getKeyFormatted l' k) n) rs"
    using l'(2) n assms(8) by (intro over_limit_run [OF assms(1) l'(3) assms(6,7)]) (auto simp: key cap)
  with l'(1,6) key show ?thesis by (auto simp: Let_def split: prod.splits)
qed

theorem oversized_first_request_blocks_key_witness:
  "fst (redisIsHitLimit local_impl memory_redis
      (snd (redisIsHitLimit local_impl memory_redis demo_redis ''a'' 51 5)) ''a'' 1 5)"
proof -
  have d: "\<not> rr_isUsingLocal demo_redis" "rr_duration demo_redis = 10 * 1000000000" "rr_db demo_redis = (\<lambda>_. 0)"
    by (simp_all add: demo_redis_def redis_new_defs)
  have "counted (\<lambda>_. 5) [(''a'', 1, 5)]" by (simp add: counted_def)
  with d show ?thesis
    using oversized_first_request_blocks_key [OF counting_memory_redis, of demo_redis "''a''" 5 51 "[(''a'', 1, 5)]" local_impl]
    by (auto simp: durationSeconds_def Let_def split_beta)
qed

text \<open>
  The counter is read in 32 bits: when Redis answers a sum from \<open>2 ^ 31\<close> up to but not including \<open>2 ^ 32\<close>,
  a request whose limit is not negative is admitted, however far over its limit the key is.
\<close>

lemma redis_counter_wraps:
  assumes "\<not> rr_isUsingLocal l" and "IncrByCmd env (getKeyFormatted l k) n (rr_db l) = (c, (token, None), r')"
    and "2 ^ 31 \<le> sint token" and "sint token < 2 ^ 32" and "0 \<le> sint n"
    and "0 \<le> sint (m * durationSeconds (rr_duration l))"
  shows "\<not> fst (redisIsHitLimit impl env l k n m)"
proof -
  have "sint (to_int32 token) = signed_take_bit 31 (sint token)"
    unfolding to_int32_def by transfer (simp add: signed_take_bit_take_bit signed_take_bit_signed_take_bit)
  also have "\<dots> = sint token - 2 ^ 32"
  proof -
    have "(sint token + 2147483648) mod 4294967296 = (sint token - 2147483648 + 4294967296) mod 4294967296"
      by (simp add: add.commute)
    also have "\<dots> = sint token - 2147483648" using assms(3,4) by (simp only: mod_add_self2) simp
    finally show ?thesis by (simp add: signed_take_bit_eq_take_bit_shift take_bit_eq_mod)
  qed
  finally have neg: "sint (to_int32 token) < 0" using assms(4) by simp
  have "widen (to_int32 token) \<noteq> n" using neg assms(5) by (metis sint_widen not_le)
  moreover have "\<not> m * durationSeconds (rr_duration l) <s to_int32 token"
    using neg assms(6) by (simp add: word_sless_alt)
  ultimately show ?thesis
    using assms(1,2) by (auto simp: redisIsHitLimit_def incrBy_def onErr_def isLegitRedisError_def onConnect_def Let_def)
qed

lemma redis_counter_wraps_example:
  "\<not> fst (redisIsHitLimit local_impl memory_redis (demo_redis\<lparr>rr_db := (\<lambda>_. 2147483640)\<rparr>) ''a'' 20 5)"
proof -
  let ?l = "demo_redis\<lparr>rr_db := (\<lambda>_. 2147483640)\<rparr>"
  have d: "\<not> rr_isUsingLocal ?l" "rr_duration ?l = 10 * 1000000000"
    by (simp_all add: demo_redis_def redis_new_defs)
  show ?thesis
    by (rule redis_counter_wraps [of _ _ _ _ False 2147483660 "(\<lambda>_. 2147483640)(getKeyFormatted ?l ''a'' := 2147483660)"])
      (use d in \<open>simp_all add: memory_redis_def durationSeconds_def\<close>)
qed

section \<open>Falling back to the local limiter\<close>


definition refusing_redis :: "unit redis_env" where
  "refusing_redis = \<lparr>IncrByCmd = (\<lambda>k n r. (False, (0, Some (Wrapped ''dial tcp'' ConnRefused)), r)),
     ExpireNXCmd = (\<lambda>k d r. (False, Some ConnRefused, r))\<rparr>"


section \<open>A Gubernator that counts\<close>

text \<open>
  What the limiter relies on within one duration of a key, as Gubernator documents its token bucket: a
  request that fits what is left is counted and answered under the limit, one that does not is answered
  over the limit and not counted; a failed call counts nothing.
\<close>

definition counting_daemon :: "(gub_request \<Rightarrow> 'g \<Rightarrow> (error + gub_status list) \<times> 'g) \<Rightarrow> ('g \<Rightarrow> string \<Rightarrow> int) \<Rightarrow> bool" where
  "counting_daemon get cnt \<longleftrightarrow>
     (\<forall>q d. 0 \<le> sint (gr_Hits q) \<longrightarrow>
        (\<exists>e d'. get q d = (Inl e, d') \<and> cnt d' = cnt d)
        \<or> (\<exists>d'. get q d = (Inr [UNDER_LIMIT], d')
             \<and> cnt d (gr_UniqueKey q) + sint (gr_Hits q) \<le> sint (gr_Limit q)
             \<and> cnt d' = (cnt d)(gr_UniqueKey q := cnt d (gr_UniqueKey q) + sint (gr_Hits q)))
        \<or> (\<exists>d'. get q d = (Inr [OVER_LIMIT], d') \<and> cnt d' = cnt d))"

lemma gubIsHitLimit_counts:
  assumes "counting_daemon get cnt" and "0 \<le> sint n"
  shows "gub_interval (snd (gubIsHitLimit get g k n m)) = gub_interval g"
    and "cnt (gub_daemon (snd (gubIsHitLimit get g k n m))) =
      (if fst (gubIsHitLimit get g k n m) then cnt (gub_daemon g)
       else (cnt (gub_daemon g))(k := cnt (gub_daemon g) k + sint n))"
    and "\<not> fst (gubIsHitLimit get g k n m) \<Longrightarrow>
      cnt (gub_daemon g) k + sint n \<le> sint (m * to_int32 (gub_interval g))"
proof -
  let ?q = "gubRequest g k n m"
  have q: "gr_Hits ?q = n" "gr_UniqueKey ?q = k" "sint (gr_Limit ?q) = sint (m * to_int32 (gub_interval g))"
    by (simp_all add: gubRequest_def sint_widen)
  with assms consider e d' where "get ?q (gub_daemon g) = (Inl e, d')" "cnt d' = cnt (gub_daemon g)"
    | d' where "get ?q (gub_daemon g) = (Inr [UNDER_LIMIT], d')" "cnt (gub_daemon g) k + sint n \<le> sint (gr_Limit ?q)"
        "cnt d' = (cnt (gub_daemon g))(k := cnt (gub_daemon g) k + sint n)"
    | d' where "get ?q (gub_daemon g) = (Inr [OVER_LIMIT], d')" "cnt d' = cnt (gub_daemon g)"
    unfolding counting_daemon_def by metis
  then have "gub_interval (snd (gubIsHitLimit get g k n m)) = gub_interval g \<and>
      cnt (gub_daemon (snd (gubIsHitLimit get g k n m))) =
      (if fst (gubIsHitLimit get g k n m) then cnt (gub_daemon g)
       else (cnt (gub_daemon g))(k := cnt (gub_daemon g) k + sint n)) \<and>
      (\<not> fst (gubIsHitLimit get g k n m) \<longrightarrow> cnt (gub_daemon g) k + sint n \<le> sint (m * to_int32 (gub_interval g)))"
    by cases (use q in \<open>simp_all add: gubIsHitLimit_def\<close>)
  then show "gub_interval (snd (gubIsHitLimit get g k n m)) = gub_interval g"
    "cnt (gub_daemon (snd (gubIsHitLimit get g k n m))) =
      (if fst (gubIsHitLimit get g k n m) then cnt (gub_daemon g)
       else (cnt (gub_daemon g))(k := cnt (gub_daemon g) k + sint n))"
    "\<not> fst (gubIsHitLimit get g k n m) \<Longrightarrow>
      cnt (gub_daemon g) k + sint n \<le> sint (m * to_int32 (gub_interval g))" by blast+
qed

text \<open>Such a daemon makes the limiter one that keeps a window: the contract of the local limiter.\<close>

lemma gubernator_window:
  fixes get :: "gub_request \<Rightarrow> 'g \<Rightarrow> (error + gub_status list) \<times> 'g"
  assumes "counting_daemon get cnt"
  shows "window_limiter (gubIsHitLimit get) (\<lambda>g. cnt (gub_daemon g)) (\<lambda>k. sint (rate k * d))
    (\<lambda>g. to_int32 (gub_interval g) = d) (legal_request rate d)"
proof unfold_locales
  fix g :: "'g GubernatorRateLimiter" and k n m
  assume ok: "to_int32 (gub_interval g) = d" and legal: "legal_request rate d (k, n, m)"
  then have n: "0 \<le> sint n" and m: "m = rate k" by (simp_all add: legal_request_def wf_count_def)
  note c = gubIsHitLimit_counts [OF assms n]
  show "to_int32 (gub_interval (snd (gubIsHitLimit get g k n m))) = d" using ok c(1) by simp
  show "cnt (gub_daemon (snd (gubIsHitLimit get g k n m))) k = cnt (gub_daemon g) k + sint n
      \<and> cnt (gub_daemon g) k + sint n \<le> sint (rate k * d)" if "\<not> fst (gubIsHitLimit get g k n m)"
    using that c(2,3) [of g k m] ok m by simp
  show "cnt (gub_daemon g) k \<le> cnt (gub_daemon (snd (gubIsHitLimit get g k n m))) k" if "fst (gubIsHitLimit get g k n m)"
    using that c(2) [of g k m] by simp
  show "cnt (gub_daemon (snd (gubIsHitLimit get g k n m))) k' = cnt (gub_daemon g) k'" if "k' \<noteq> k" for k'
    using that c(2) [of g k m] by simp
qed

end
