(* ===== verification/Elastic.thy ===== *)
theory Elastic
  imports Convert Metrics
begin

text \<open>
  Writing to Elasticsearch: the client of \<open>flow/elastic.go\<close>, the retrier of \<open>flow/elastic_retrier.go\<close>, and
  the counters of \<open>flow/instrumentation.go\<close>. The client library and the cluster are parameters: a record
  of calls on an arbitrary state of the outside world. The calls that change the cluster are logged.
\<close>

section \<open>Counters of the instru package\<close>

text \<open>Events are logged; \<open>app_secrets\<close> is the metric's value, \<^const>\<open>None\<close> before the first \<open>Put\<close>.\<close>

record instru =
  events :: "(string \<times> string) list"
  app_secrets :: "string list option"

definition instruESCreateIndex :: "error option \<Rightarrow> instru \<Rightarrow> instru" where
  "instruESCreateIndex err i =
     i\<lparr>events := events i @ [(''es_create_index'', if err \<noteq> None then ''fail'' else ''success'')]\<rparr>"

definition containsString :: "string list \<Rightarrow> string \<Rightarrow> bool" where
  "containsString s e = (e \<in> set s)"

definition GetApplicationSecretCollection :: "instru \<Rightarrow> string list" where
  "GetApplicationSecretCollection i = (case app_secrets i of None \<Rightarrow> [] | Some xs \<Rightarrow> xs)"

definition InstruApplicationSecret :: "string \<Rightarrow> instru \<Rightarrow> instru" where
  "InstruApplicationSecret appSecret i =
     (let xs = GetApplicationSecretCollection i
      in i\<lparr>app_secrets := Some (if \<not> containsString xs appSecret then xs @ [appSecret] else xs)\<rparr>)"

definition instruESStore :: "string \<Rightarrow> error option \<Rightarrow> instru \<Rightarrow> instru" where
  "instruESStore appSecret err i =
     (let i1 = InstruApplicationSecret appSecret i
      in i1\<lparr>events := events i1 @ [(appSecret @ ''_es_store'', if err \<noteq> None then ''fail'' else ''success'')]\<rparr>)"

section \<open>The retrier\<close>

definition ECONNREFUSED :: error where
  "ECONNREFUSED = Err ''connection refused''"

text \<open>A constant backoff always says to retry, after its interval. The callbacks act on the state \<open>'w\<close>.\<close>

record 'w ElasticRetrier =
  backoff :: int
  onRetryFunc :: "error option \<Rightarrow> 'w \<Rightarrow> 'w"
  onMaxRetryReached :: "'w \<Rightarrow> 'w"
  maxRetry :: int

definition NewElasticRetrier :: "int \<Rightarrow> int \<Rightarrow> (error option \<Rightarrow> 'w \<Rightarrow> 'w) \<Rightarrow> ('w \<Rightarrow> 'w) \<Rightarrow> 'w ElasticRetrier" where
  "NewElasticRetrier t n f g = \<lparr>backoff = t, onRetryFunc = f, onMaxRetryReached = g, maxRetry = n\<rparr>"

definition Retry :: "'w ElasticRetrier \<Rightarrow> int \<Rightarrow> error option \<Rightarrow> 'w \<Rightarrow> (int \<times> bool \<times> error option) \<times> 'w" where
  "Retry r retry err w =
     (let err1 = (if err = Some ECONNREFUSED then Some (Err ''Elasticsearch or network down'') else err);
          w1 = onRetryFunc r err1 w
      in if 0 < maxRetry r \<and> maxRetry r \<le> retry
         then ((backoff r, False, None), onMaxRetryReached r w1)
         else ((backoff r, True, None), w1))"

section \<open>The client\<close>

definition IndexMethodBulkProcessor :: string where
  "IndexMethodBulkProcessor = ''BulkProcessor''"

definition IndexMethodDatastream :: string where
  "IndexMethodDatastream = ''DataStream''"

definition IndexMethodSingleInsert :: string where
  "IndexMethodSingleInsert = ''SingleInsert''"

definition DEFAULT_ELASTIC_DOCUMENT_TYPE :: string where
  "DEFAULT_ELASTIC_DOCUMENT_TYPE = ''_doc''"

record esConfig =
  indexMethod :: string
  dataStreamDefaultComponentTemplate :: string
  bulkSize :: int
  flushMs :: int
  printTPS :: bool

definition NewEsConfig :: "string \<Rightarrow> int \<Rightarrow> int \<Rightarrow> bool \<Rightarrow> string \<Rightarrow> esConfig" where
  "NewEsConfig method sz flush tps tmpl =
     \<lparr>indexMethod = method, dataStreamDefaultComponentTemplate = tmpl, bulkSize = sz, flushMs = flush, printTPS = tps\<rparr>"

datatype store_func = bulkInsertFunc | bulkInsertDataStreamFunc | singleInsertFunc

datatype es_call =
    CreateIndex string "error option"
  | PutTemplate string string string "error option"
  | BulkAdd string string string string
  | IndexDoc string string string "error option"

text \<open>
  \<open>BulkAdd\<close> carries the operation type (empty for an index request), index, document type and document.
  A redactor takes the index prefix and a document; \<open>CacheAlive\<close> says whether an entry of the timed map
  has not yet expired; \<open>Today\<close> is the date formatted as \<open>2006.01.02\<close>.
\<close>

record 'e es_env =
  CacheAlive :: "string \<Rightarrow> 'e \<Rightarrow> bool"
  IndexExistsCmd :: "string \<Rightarrow> 'e \<Rightarrow> (error + bool) \<times> 'e"
  CreateIndexCmd :: "string \<Rightarrow> 'e \<Rightarrow> error option \<times> 'e"
  PutTemplateCmd :: "string \<Rightarrow> string \<Rightarrow> string \<Rightarrow> 'e \<Rightarrow> error option \<times> 'e"
  BulkAddCmd :: "string \<Rightarrow> string \<Rightarrow> string \<Rightarrow> string \<Rightarrow> 'e \<Rightarrow> 'e"
  IndexDocCmd :: "string \<Rightarrow> string \<Rightarrow> string \<Rightarrow> 'e \<Rightarrow> error option \<times> 'e"
  Today :: "'e \<Rightarrow> string \<times> 'e"
  SleepSeconds :: "int \<Rightarrow> 'e \<Rightarrow> 'e"
  structJson :: struct_json

type_synonym redact_fun = "string \<Rightarrow> string \<Rightarrow> metrics \<Rightarrow> ((error + string) \<times> metrics) go"

definition DummyRedactor_Redact :: redact_fun where
  "DummyRedactor_Redact indexName document ms = Ret (Inr document, ms)"

text \<open>
  \<open>connected\<close> is false for the zero client, all of whose pointers are nil, so that storing panics before it
  asks the redactor. \<open>onFailureFunc\<close> can be set but nothing calls it. \<open>counter\<close> is the package's variable.
\<close>

record 'e elasticClient =
  connected :: bool
  onFailureFunc :: "(Timber \<Rightarrow> unit) option"
  onStoreFunc :: "store_func option"
  indexExistsCache :: "string set"
  useDataStream :: bool
  componentTemplate :: string
  redactor :: redact_fun
  es_metrics :: metrics
  es_instru :: instru
  counter :: int
  es_calls :: "es_call list"
  es :: 'e

text \<open>\<open>clientErr\<close> and \<open>bulkErr\<close> are the errors of \<open>elastic.NewClient\<close> and of starting the bulk processor.\<close>

definition NewElastic :: "error option \<Rightarrow> error option \<Rightarrow> esConfig \<Rightarrow> metrics \<Rightarrow> instru \<Rightarrow> 'e \<Rightarrow> error option \<times> 'e elasticClient" where
  "NewElastic clientErr bulkErr cfg ms i e =
     (case clientErr of
        Some err \<Rightarrow>
          (Some err, \<lparr>connected = False, onFailureFunc = None, onStoreFunc = None, indexExistsCache = {}, useDataStream = False,
             componentTemplate = [], redactor = DummyRedactor_Redact, es_metrics = ms, es_instru = i, counter = 0,
             es_calls = [], es = e\<rparr>)
      | None \<Rightarrow>
          (bulkErr, \<lparr>connected = True, onFailureFunc = None,
             onStoreFunc =
               (if indexMethod cfg = IndexMethodBulkProcessor then Some bulkInsertFunc
                else if indexMethod cfg = IndexMethodDatastream then Some bulkInsertDataStreamFunc
                else if indexMethod cfg = IndexMethodSingleInsert then Some singleInsertFunc
                else None),
             indexExistsCache = {}, useDataStream = (indexMethod cfg = IndexMethodDatastream),
             componentTemplate = dataStreamDefaultComponentTemplate cfg, redactor = DummyRedactor_Redact,
             es_metrics = ms, es_instru = i, counter = 0, es_calls = [], es = e\<rparr>))"

definition WithRedactor :: "redact_fun \<Rightarrow> 'e elasticClient \<Rightarrow> 'e elasticClient" where
  "WithRedactor r c = c\<lparr>redactor := r\<rparr>"

definition OnFailure :: "(Timber \<Rightarrow> unit) \<Rightarrow> 'e elasticClient \<Rightarrow> 'e elasticClient" where
  "OnFailure f c = c\<lparr>onFailureFunc := Some f\<rparr>"

text \<open>One tick of the goroutine that prints the throughput: what it prints, and the counter reset.\<close>

definition printThroughputPerSecond :: "'e elasticClient \<Rightarrow> int \<times> 'e elasticClient" where
  "printThroughputPerSecond c = (counter c, c\<lparr>counter := 0\<rparr>)"

definition cacheIndex :: "string \<Rightarrow> 'e elasticClient \<Rightarrow> 'e elasticClient" where
  "cacheIndex name c = c\<lparr>indexExistsCache := insert name (indexExistsCache c)\<rparr>"

definition ensureIndexIsExistsRegularIndex :: "'e es_env \<Rightarrow> string \<Rightarrow> 'e elasticClient \<Rightarrow> bool \<times> 'e elasticClient" where
  "ensureIndexIsExistsRegularIndex env indexName c =
     (let (err, e1) = CreateIndexCmd env indexName (es c);
          c1 = c\<lparr>es := e1, es_calls := es_calls c @ [CreateIndex indexName err], es_instru := instruESCreateIndex err (es_instru c)\<rparr>
      in case err of Some _ \<Rightarrow> (False, c1) | None \<Rightarrow> (True, cacheIndex indexName c1))"

definition templatePayload :: "string \<Rightarrow> string \<Rightarrow> string" where
  "templatePayload name component =
     ''{\"index_patterns\":[\"'' @ name @ ''\"],\"data_stream\":{},\"composed_of\":[\"'' @ component
     @ ''\"],\"priority\":200,\"_meta\":{\"description\":\"default template\"}} ''"

definition ensureIndexIsExistsDataStream :: "'e es_env \<Rightarrow> string \<Rightarrow> 'e elasticClient \<Rightarrow> bool \<times> 'e elasticClient" where
  "ensureIndexIsExistsDataStream env name c =
     (let payload = templatePayload name (componentTemplate c);
          (err, e1) = PutTemplateCmd env name (name @ ''-template'') payload (es c);
          c1 = c\<lparr>es := e1, es_calls := es_calls c @ [PutTemplate name (name @ ''-template'') payload err]\<rparr>
      in case err of Some _ \<Rightarrow> (False, c1) | None \<Rightarrow> (True, cacheIndex name c1))"

definition ensureIndexIsExists :: "'e es_env \<Rightarrow> string \<Rightarrow> 'e elasticClient \<Rightarrow> bool \<times> 'e elasticClient" where
  "ensureIndexIsExists env indexName c =
     (if indexName \<in> indexExistsCache c \<and> CacheAlive env indexName (es c) then (True, c)
      else case IndexExistsCmd env indexName (es c) of
             (Inl err, e1) \<Rightarrow> (False, c\<lparr>es := e1\<rparr>)
           | (Inr found, e1) \<Rightarrow>
               let c1 = c\<lparr>es := e1\<rparr>
               in if \<not> found
                  then if useDataStream c then ensureIndexIsExistsDataStream env indexName c1
                       else ensureIndexIsExistsRegularIndex env indexName c1
                  else (True, cacheIndex indexName c1))"

text \<open>The loop of \<open>Store\<close> that waits for the index; \<^const>\<open>None\<close> when it waits for ever.\<close>

partial_function (option) ensureLoop :: "'e es_env \<Rightarrow> string \<Rightarrow> 'e elasticClient \<Rightarrow> 'e elasticClient option" where
  "ensureLoop env indexName c =
     (case ensureIndexIsExists env indexName c of (ensured, c1) \<Rightarrow>
        if ensured then Some c1
        else ensureLoop env indexName
            (c1\<lparr>es_metrics := IncreaseConsumerFailedToEnsureIndexExists indexName (es_metrics c1),
                es := SleepSeconds env 5 (es c1)\<rparr>))"

definition bulkInsert :: "'e es_env \<Rightarrow> string \<Rightarrow> string \<Rightarrow> string \<Rightarrow> 'e elasticClient \<Rightarrow> error option \<times> 'e elasticClient" where
  "bulkInsert env indexName documentType document c =
     (None, c\<lparr>es := BulkAddCmd env [] indexName documentType document (es c),
              es_calls := es_calls c @ [BulkAdd [] indexName documentType document]\<rparr>)"

definition bulkInsertDataStream :: "'e es_env \<Rightarrow> string \<Rightarrow> string \<Rightarrow> string \<Rightarrow> 'e elasticClient \<Rightarrow> error option \<times> 'e elasticClient" where
  "bulkInsertDataStream env indexName documentType document c =
     (None, c\<lparr>es := BulkAddCmd env ''create'' indexName documentType document (es c),
              es_calls := es_calls c @ [BulkAdd ''create'' indexName documentType document]\<rparr>)"

definition singleInsert :: "'e es_env \<Rightarrow> string \<Rightarrow> string \<Rightarrow> string \<Rightarrow> 'e elasticClient \<Rightarrow> error option \<times> 'e elasticClient" where
  "singleInsert env indexName documentType document c =
     (let (err, e1) = IndexDocCmd env indexName documentType document (es c)
      in (err, c\<lparr>es := e1, es_calls := es_calls c @ [IndexDoc indexName documentType document err]\<rparr>))"

definition callStoreFunc :: "'e es_env \<Rightarrow> string \<Rightarrow> string \<Rightarrow> string \<Rightarrow> 'e elasticClient \<Rightarrow> (error option \<times> 'e elasticClient) go" where
  "callStoreFunc env indexName documentType document c =
     (case onStoreFunc c of
        None \<Rightarrow> Panic ''nil pointer dereference''
      | Some bulkInsertFunc \<Rightarrow> Ret (bulkInsert env indexName documentType document c)
      | Some bulkInsertDataStreamFunc \<Rightarrow> Ret (bulkInsertDataStream env indexName documentType document c)
      | Some singleInsertFunc \<Rightarrow> Ret (singleInsert env indexName documentType document c))"

definition indexNameFor :: "'e elasticClient \<Rightarrow> string \<Rightarrow> string \<Rightarrow> string" where
  "indexNameFor c indexPrefix date = (if useDataStream c then indexPrefix else indexPrefix @ ''-'' @ date)"

text \<open>
  \<open>Store\<close> once the index is there: convert, redact, hand over, count. The timber's field map is shared
  with the caller, who gets it back with the timestamp the conversion stored in it.
\<close>

definition storeDocument :: "'e es_env \<Rightarrow> string \<Rightarrow> Timber \<Rightarrow> 'e elasticClient \<Rightarrow> (error option \<times> Timber \<times> 'e elasticClient) go" where
  "storeDocument env indexName timber c =
     (let indexPrefix = GetEsIndexPrefix (tContext timber);
          appSecret = GetAppSecret (tContext timber);
          (doc, timber1) = ConvertTimberToEsDocumentString (structJson env) timber
      in case doc of
           Inl err \<Rightarrow> Ret (Some err, timber1, c\<lparr>es_metrics := IncreaseConsumerTimberConvertError indexPrefix (es_metrics c)\<rparr>)
         | Inr document \<Rightarrow>
             go_bind (redactor c indexPrefix document (es_metrics c)) (\<lambda>(r, ms1).
               case r of
                 Inl err \<Rightarrow> Ret (Some err, timber1, c\<lparr>es_metrics := ms1\<rparr>)
               | Inr redactDocument \<Rightarrow>
                   go_bind (callStoreFunc env indexName DEFAULT_ELASTIC_DOCUMENT_TYPE redactDocument (c\<lparr>es_metrics := ms1\<rparr>))
                     (\<lambda>(err, c1). Ret (err, timber1, c1\<lparr>counter := counter c1 + 1, es_instru := instruESStore appSecret err (es_instru c1)\<rparr>))))"

definition Store :: "'e es_env \<Rightarrow> Timber \<Rightarrow> 'e elasticClient \<Rightarrow> (error option \<times> Timber \<times> 'e elasticClient) go option" where
  "Store env timber c =
     (if \<not> connected c then Some (Panic ''nil pointer dereference'')
      else
        let (date, e1) = Today env (es c);
            indexName = indexNameFor c (GetEsIndexPrefix (tContext timber)) date
        in case ensureLoop env indexName (c\<lparr>es := e1\<rparr>) of
             None \<Rightarrow> None
           | Some c1 \<Rightarrow> Some (storeDocument env indexName timber c1))"

section \<open>After a bulk commit\<close>

record responseItem =
  ri_Index :: string
  ri_Result :: string
  ri_Status :: int
  ri_Error :: "ErrorDetails option"

text \<open>The callback after a commit: \<open>order\<close> is the iteration order of the error map at each item.\<close>

fun countItems :: "(nat \<Rightarrow> (string \<times> string) list) \<Rightarrow> nat \<Rightarrow> responseItem list \<Rightarrow> metrics \<Rightarrow> metrics" where
  "countItems order n [] ms = ms"
| "countItems order n (r # rs) ms =
     countItems order (n + 2) rs
       (IncreaseLogStoredCounter (order n) (order (n + 1)) (ri_Index r) (ri_Result r) (ri_Status r) (ri_Error r) ms)"

definition afterCommitCallback :: "(nat \<Rightarrow> (string \<times> string) list) \<Rightarrow> responseItem list list option \<Rightarrow> error option \<Rightarrow> metrics \<Rightarrow> metrics" where
  "afterCommitCallback order response err ms =
     (let ms1 = ObserveBulkProcessTime ms
      in case err of
           Some e \<Rightarrow> ms1
         | None \<Rightarrow> (case response of None \<Rightarrow> ms1 | Some items \<Rightarrow> countItems order 0 (concat items) ms1))"

section \<open>Waiting for the index\<close>

text \<open>The client before try \<open>n\<close> (from 0), when all tries before it failed.\<close>

definition failedTry :: "'e es_env \<Rightarrow> string \<Rightarrow> 'e elasticClient \<Rightarrow> 'e elasticClient" where
  "failedTry env name c =
     (let c1 = snd (ensureIndexIsExists env name c)
      in c1\<lparr>es_metrics := IncreaseConsumerFailedToEnsureIndexExists name (es_metrics c1), es := SleepSeconds env 5 (es c1)\<rparr>)"

definition tryFails :: "'e es_env \<Rightarrow> string \<Rightarrow> 'e elasticClient \<Rightarrow> nat \<Rightarrow> bool" where
  "tryFails env name c n \<longleftrightarrow> \<not> fst (ensureIndexIsExists env name ((failedTry env name ^^ n) c))"

lemma tryFails_Suc: "tryFails env name c (Suc n) = tryFails env name (failedTry env name c) n"
  by (simp add: tryFails_def funpow_swap1)

lemma ensureLoop_step:
  "ensureLoop env name c =
    (if tryFails env name c 0 then ensureLoop env name (failedTry env name c)
     else Some (snd (ensureIndexIsExists env name c)))"
  by (subst ensureLoop.simps) (simp add: tryFails_def failedTry_def split_beta Let_def)

lemma ensureLoop_success:
  assumes "\<forall>i<n. tryFails env name c i" and "\<not> tryFails env name c n"
  shows "ensureLoop env name c = Some (snd (ensureIndexIsExists env name ((failedTry env name ^^ n) c)))"
  using assms
proof (induction n arbitrary: c)
  case 0
  then show ?case by (subst ensureLoop_step) simp
next
  case (Suc n)
  have "\<forall>i<n. tryFails env name (failedTry env name c) i" "\<not> tryFails env name (failedTry env name c) n"
    using Suc.prems by (auto simp flip: tryFails_Suc)
  then have "ensureLoop env name (failedTry env name c) =
      Some (snd (ensureIndexIsExists env name ((failedTry env name ^^ n) (failedTry env name c))))"
    by (rule Suc.IH)
  moreover have "tryFails env name c 0" using Suc.prems(1) by simp
  ultimately show ?case by (subst ensureLoop_step) (simp add: funpow_swap1)
qed

lemma ensureLoop_diverges:
  assumes "\<And>i. tryFails env name c i"
  shows "ensureLoop env name c = None"
proof (cases "ensureLoop env name c")
  case (Some r)
  have "\<exists>i. \<not> tryFails env name c i"
  proof (rule ensureLoop.raw_induct [where P = "\<lambda>env name c r. \<exists>i. \<not> tryFails env name c i", OF _ Some])
    fix loop :: "'a es_env \<Rightarrow> string \<Rightarrow> 'a elasticClient \<Rightarrow> 'a elasticClient option" and env name c r
    assume IH: "\<And>env name c r. loop env name c = Some r \<Longrightarrow> \<exists>i. \<not> tryFails env name c i"
      and eq: "(case ensureIndexIsExists env name c of (ensured, c1) \<Rightarrow>
        if ensured then Some c1 else loop env name
          (c1\<lparr>es_metrics := IncreaseConsumerFailedToEnsureIndexExists name (es_metrics c1), es := SleepSeconds env 5 (es c1)\<rparr>)) = Some r"
    show "\<exists>i. \<not> tryFails env name c i"
    proof (cases "tryFails env name c 0")
      case True
      then have "loop env name (failedTry env name c) = Some r"
        using eq by (simp add: tryFails_def failedTry_def split_beta Let_def)
      then show ?thesis using IH tryFails_Suc by blast
    qed blast
  qed
  with assms show ?thesis by blast
qed simp

text \<open>What the tries keep: the configuration and the documents handed over.\<close>

fun documents :: "es_call list \<Rightarrow> (string \<times> string) list" where
  "documents [] = []"
| "documents (BulkAdd _ i _ d # cs) = (i, d) # documents cs"
| "documents (IndexDoc i _ d None # cs) = (i, d) # documents cs"
| "documents (_ # cs) = documents cs"

lemma documents_append [simp]: "documents (xs @ ys) = documents xs @ documents ys"
  by (induction xs rule: documents.induct) auto

definition same_client :: "'e elasticClient \<Rightarrow> 'e elasticClient \<Rightarrow> bool" where
  "same_client c c' \<longleftrightarrow> onStoreFunc c' = onStoreFunc c \<and> redactor c' = redactor c \<and> useDataStream c' = useDataStream c
     \<and> connected c' = connected c \<and> counter c' = counter c \<and> documents (es_calls c') = documents (es_calls c)"

lemma same_client_trans: "same_client a b \<Longrightarrow> same_client b c \<Longrightarrow> same_client a c"
  by (simp add: same_client_def)

lemma ensureIndexIsExists_same: "same_client c (snd (ensureIndexIsExists env name c))"
  by (auto simp: ensureIndexIsExists_def ensureIndexIsExistsRegularIndex_def ensureIndexIsExistsDataStream_def
      cacheIndex_def same_client_def Let_def split: prod.splits sum.splits option.splits)

lemma createIndex_cached:
  "fst (ensureIndexIsExistsRegularIndex env name c) \<Longrightarrow> name \<in> indexExistsCache (snd (ensureIndexIsExistsRegularIndex env name c))"
  "fst (ensureIndexIsExistsDataStream env name c) \<Longrightarrow> name \<in> indexExistsCache (snd (ensureIndexIsExistsDataStream env name c))"
  by (auto simp: ensureIndexIsExistsRegularIndex_def ensureIndexIsExistsDataStream_def cacheIndex_def Let_def
      split: prod.splits option.splits)

lemma ensureIndexIsExists_cached:
  "fst (ensureIndexIsExists env name c) \<Longrightarrow> name \<in> indexExistsCache (snd (ensureIndexIsExists env name c))"
  by (auto simp: ensureIndexIsExists_def cacheIndex_def Let_def createIndex_cached
      split: prod.splits sum.splits if_splits)

lemma failedTry_same: "same_client c (failedTry env name c)"
  using ensureIndexIsExists_same [of c env name] by (simp add: failedTry_def same_client_def Let_def)

lemma ensureLoop_result:
  assumes "ensureLoop env name c = Some c'"
  shows "same_client c c' \<and> name \<in> indexExistsCache c'"
proof -
  have "\<exists>n. \<not> tryFails env name c n" using assms ensureLoop_diverges [of env name c] by auto
  then obtain n where n: "\<not> tryFails env name c n" "\<forall>i<n. tryFails env name c i"
    using exists_least_iff [of "\<lambda>n. \<not> tryFails env name c n"] by auto
  have "same_client c ((failedTry env name ^^ k) c)" for k
  proof (induction k)
    case (Suc k)
    then show ?case using same_client_trans [OF Suc.IH failedTry_same] by simp
  qed (simp add: same_client_def)
  then have "same_client c (snd (ensureIndexIsExists env name ((failedTry env name ^^ n) c)))"
    using ensureIndexIsExists_same same_client_trans by blast
  moreover have "c' = snd (ensureIndexIsExists env name ((failedTry env name ^^ n) c))"
    using ensureLoop_success [OF n(2,1)] assms by simp
  moreover have "fst (ensureIndexIsExists env name ((failedTry env name ^^ n) c))" using n(1) by (simp add: tryFails_def)
  ultimately show ?thesis by (simp add: ensureIndexIsExists_cached)
qed

section \<open>Storing\<close>

definition handedOver :: "store_func \<Rightarrow> string \<Rightarrow> string \<Rightarrow> error option \<Rightarrow> es_call" where
  "handedOver f index doc err =
     (case f of
        bulkInsertFunc \<Rightarrow> BulkAdd [] index ''_doc'' doc
      | bulkInsertDataStreamFunc \<Rightarrow> BulkAdd ''create'' index ''_doc'' doc
      | singleInsertFunc \<Rightarrow> IndexDoc index ''_doc'' doc err)"

lemma callStoreFunc_result:
  assumes "callStoreFunc env index DEFAULT_ELASTIC_DOCUMENT_TYPE doc c = Ret (err, c')"
  shows "\<exists>f. onStoreFunc c = Some f \<and> es_calls c' = es_calls c @ [handedOver f index doc err]
    \<and> (f \<noteq> singleInsertFunc \<longrightarrow> err = None) \<and> counter c' = counter c \<and> indexExistsCache c' = indexExistsCache c
    \<and> redactor c' = redactor c"
  using assms
  by (auto simp: callStoreFunc_def bulkInsert_def bulkInsertDataStream_def singleInsert_def handedOver_def
      DEFAULT_ELASTIC_DOCUMENT_TYPE_def split: option.splits store_func.splits prod.splits)

lemma Store_cases:
  assumes "Store env t c = Some (Ret (err, t', c'))"
  obtains (converted) e c1 where "same_client c c1" "fst (ConvertTimberToEsDocumentString (structJson env) t) = Inl e" "err = Some e"
      "es_calls c' = es_calls c1" "counter c' = counter c" "redactor c' = redactor c"
  | (redacted) doc e c1 ms ms' where "same_client c c1" "fst (ConvertTimberToEsDocumentString (structJson env) t) = Inr doc"
      "redactor c (GetEsIndexPrefix (tContext t)) doc ms = Ret (Inl e, ms')" "err = Some e"
      "es_calls c' = es_calls c1" "counter c' = counter c" "redactor c' = redactor c"
  | (handed) doc doc' f c1 ms ms' where "same_client c c1" "fst (ConvertTimberToEsDocumentString (structJson env) t) = Inr doc"
      "redactor c (GetEsIndexPrefix (tContext t)) doc ms = Ret (Inr doc', ms')" "onStoreFunc c = Some f"
      "es_calls c' = es_calls c1 @ [handedOver f (indexNameFor c (GetEsIndexPrefix (tContext t)) (fst (Today env (es c)))) doc' err]"
      "f \<noteq> singleInsertFunc \<longrightarrow> err = None" "counter c' = counter c + 1"
      "indexNameFor c (GetEsIndexPrefix (tContext t)) (fst (Today env (es c))) \<in> indexExistsCache c'"
      "redactor c' = redactor c"
proof -
  let ?i = "indexNameFor c (GetEsIndexPrefix (tContext t)) (fst (Today env (es c)))"
  obtain c1 where c1: "ensureLoop env ?i (c\<lparr>es := snd (Today env (es c))\<rparr>) = Some c1"
    and st: "storeDocument env ?i t c1 = Ret (err, t', c')"
    using assms by (auto simp: Store_def split_beta Let_def split: if_splits option.splits)
  have same: "same_client c c1" and cached: "?i \<in> indexExistsCache c1"
    using ensureLoop_result [OF c1] by (simp_all add: same_client_def)
  obtain doc where doc: "fst (ConvertTimberToEsDocumentString (structJson env) t) = doc" by blast
  show thesis
  proof (cases doc)
    case (Inl e)
    with st doc same show thesis
      by (intro converted [of c1 e]) (auto simp: storeDocument_def split_beta Let_def same_client_def)
  next
    case (Inr d)
    then obtain r ms' where r: "redactor c (GetEsIndexPrefix (tContext t)) d (es_metrics c1) = Ret (r, ms')"
      using st doc same by (auto simp: storeDocument_def split_beta Let_def go_bind_Ret_iff same_client_def)
    show thesis
    proof (cases r)
      case (Inl e)
      with Inr r st doc same show thesis
        by (intro redacted [of c1 d "es_metrics c1" e ms']) (auto simp: storeDocument_def split_beta Let_def same_client_def)
    next
      case (Inr d')
      with \<open>doc = Inr d\<close> r st doc same obtain err1 c2 where
          c2: "callStoreFunc env ?i DEFAULT_ELASTIC_DOCUMENT_TYPE d' (c1\<lparr>es_metrics := ms'\<rparr>) = Ret (err1, c2)"
        and fin: "err = err1" "es_calls c' = es_calls c2" "counter c' = counter c2 + 1" "indexExistsCache c' = indexExistsCache c2"
          "redactor c' = redactor c2"
        by (auto simp: storeDocument_def split_beta Let_def go_bind_Ret_iff same_client_def)
      obtain f where f: "onStoreFunc c = Some f" "es_calls c2 = es_calls c1 @ [handedOver f ?i d' err1]"
          "f \<noteq> singleInsertFunc \<longrightarrow> err1 = None" "counter c2 = counter c" "indexExistsCache c2 = indexExistsCache c1"
          "redactor c2 = redactor c"
        using callStoreFunc_result [OF c2] same by (auto simp: same_client_def)
      show thesis
        by (rule handed [of c1 d "es_metrics c1" d' ms' f])
          (use Inr \<open>doc = Inr d\<close> r doc same cached fin f in simp_all)
    qed
  qed
qed

text \<open>The documents that one \<open>Store\<close> adds: the redacted one under its index, or none on an error.\<close>

lemma Store_stored:
  assumes "Store env t c = Some (Ret (None, t', c'))"
  shows "\<exists>doc doc' ms ms'. fst (ConvertTimberToEsDocumentString (structJson env) t) = Inr doc
    \<and> redactor c (GetEsIndexPrefix (tContext t)) doc ms = Ret (Inr doc', ms')
    \<and> documents (es_calls c') = documents (es_calls c)
        @ [(indexNameFor c (GetEsIndexPrefix (tContext t)) (fst (Today env (es c))), doc')]"
  using assms
proof (cases rule: Store_cases)
  case (handed doc doc' f c1 ms ms')
  then have "documents (es_calls c') = documents (es_calls c)
      @ [(indexNameFor c (GetEsIndexPrefix (tContext t)) (fst (Today env (es c))), doc')]"
    by (auto simp: same_client_def handedOver_def split: store_func.splits)
  with handed show ?thesis by blast
qed simp_all

lemma Store_nothing:
  assumes "Store env t c = Some (Ret (Some e, t', c'))"
  shows "documents (es_calls c') = documents (es_calls c)"
  using assms by (cases rule: Store_cases) (auto simp: same_client_def handedOver_def)

text \<open>
  C11. What a successful \<open>Store\<close> did: the document of the timber was put through the redactor under the
  timber's index prefix and the redacted document, nothing else, was handed to Elasticsearch, once, under
  the index name of the day (the prefix itself for a data stream), which was known to exist.
\<close>

theorem Store_success:
  assumes "Store env t c = Some (Ret (None, t', c'))"
  shows "\<exists>doc doc' ms ms'. fst (ConvertTimberToEsDocumentString (structJson env) t) = Inr doc
    \<and> redactor c (GetEsIndexPrefix (tContext t)) doc ms = Ret (Inr doc', ms')
    \<and> documents (es_calls c') = documents (es_calls c)
        @ [(indexNameFor c (GetEsIndexPrefix (tContext t)) (fst (Today env (es c))), doc')]
    \<and> indexNameFor c (GetEsIndexPrefix (tContext t)) (fst (Today env (es c))) \<in> indexExistsCache c'
    \<and> counter c' = counter c + 1"
  using assms by (cases rule: Store_cases) (use Store_stored [OF assms] in simp_all)

text \<open>
  A failed \<open>Store\<close> stores nothing: when it returns an error, Elasticsearch accepted no document, and
  only a single insert can fail after the document was converted and redacted; with the bulk methods an
  error means that nothing was handed over at all.
\<close>

lemma Store_error:
  assumes "Store env t c = Some (Ret (Some e, t', c'))"
  shows "documents (es_calls c') = documents (es_calls c)
    \<and> (counter c' = counter c \<or> onStoreFunc c = Some singleInsertFunc)"
  using assms by (cases rule: Store_cases) (use Store_nothing [OF assms] in auto)

text \<open>A cluster for the witnesses: \<open>found\<close> is the answer on an index, \<open>fate\<close> the answer to an insert.\<close>

definition demo_es :: "(error + bool) \<Rightarrow> error option \<Rightarrow> unit es_env" where
  "demo_es found fate =
     \<lparr>CacheAlive = (\<lambda>_ _. True), IndexExistsCmd = (\<lambda>_ e. (found, e)), CreateIndexCmd = (\<lambda>_ e. (None, e)),
      PutTemplateCmd = (\<lambda>_ _ _ e. (None, e)), BulkAddCmd = (\<lambda>_ _ _ _ e. e), IndexDocCmd = (\<lambda>_ _ _ e. (fate, e)),
      Today = (\<lambda>e. (''2024.01.31'', e)), SleepSeconds = (\<lambda>_ e. e), structJson = (\<lambda>fs. (''{}'', None))\<rparr>"

definition demo_client :: "string \<Rightarrow> unit elasticClient" where
  "demo_client method =
     snd (NewElastic None None (NewEsConfig method 100 500 False []) [] \<lparr>events = [], app_secrets = None\<rparr> ())"

definition demo_log :: Timber where
  "demo_log = \<lparr>tContext = Some \<lparr>KafkaTopic = ''app'', KafkaPartition = 1, KafkaReplicationFactor = 1,
      EsIndexPrefix = ''app'', EsDocumentType = [], AppMaxTps = 10, AppSecret = ''s3'', DisableAppTps = False,
      AppGroupMaxTps = 0\<rparr>, tTimestamp = ''2024-01-31T00:00:00Z'', tContent = Some (Some [])\<rparr>"

lemmas store_defs = Let_def Store_def ensureLoop.simps ensureIndexIsExists_def ensureIndexIsExistsRegularIndex_def
  cacheIndex_def storeDocument_def ConvertTimberToEsDocumentString_def callStoreFunc_def bulkInsert_def singleInsert_def
  DummyRedactor_Redact_def indexNameFor_def NewElastic_def NewEsConfig_def IndexMethodBulkProcessor_def
  IndexMethodDatastream_def IndexMethodSingleInsert_def GetEsIndexPrefix_def GetAppSecret_def

theorem Store_success_witness:
  "\<exists>t' c'. Store (demo_es (Inr False) None) demo_log (demo_client ''BulkProcessor'') = Some (Ret (None, t', c'))
    \<and> documents (es_calls c') = [(''app-2024.01.31'', ''{}'')]"
proof -
  let ?env = "demo_es (Inr False) None" and ?c = "demo_client ''BulkProcessor''"
  have "\<exists>t' c'. Store ?env demo_log ?c = Some (Ret (None, t', c'))"
    by (simp add: store_defs demo_es_def demo_client_def demo_log_def)
  then obtain t' c' where st: "Store ?env demo_log ?c = Some (Ret (None, t', c'))" by blast
  have "redactor ?c = DummyRedactor_Redact" "documents (es_calls ?c) = []" "useDataStream ?c = False"
    by (simp_all add: demo_client_def store_defs)
  moreover have "fst (ConvertTimberToEsDocumentString (structJson ?env) demo_log) = Inr ''{}''"
    by (simp add: ConvertTimberToEsDocumentString_def demo_es_def demo_log_def)
  moreover have "indexNameFor ?c (GetEsIndexPrefix (tContext demo_log)) (fst (Today ?env (es ?c))) = ''app-2024.01.31''"
    by (simp add: indexNameFor_def demo_client_def store_defs demo_es_def demo_log_def)
  ultimately show ?thesis
    using Store_success [OF st] st by (auto simp: DummyRedactor_Redact_def)
qed

lemma Store_error_example:
  "\<exists>t' c'. Store (demo_es (Inr True) (Some (Err ''429''))) demo_log (demo_client ''SingleInsert'') = Some (Ret (Some (Err ''429''), t', c'))
    \<and> documents (es_calls c') = []"
proof -
  let ?env = "demo_es (Inr True) (Some (Err ''429''))" and ?c = "demo_client ''SingleInsert''"
  have "\<exists>t' c'. Store ?env demo_log ?c = Some (Ret (Some (Err ''429''), t', c'))"
    by (simp add: store_defs demo_es_def demo_client_def demo_log_def)
  then obtain t' c' where st: "Store ?env demo_log ?c = Some (Ret (Some (Err ''429''), t', c'))" by blast
  moreover have "documents (es_calls ?c) = []" by (simp add: demo_client_def store_defs)
  ultimately show ?thesis using Store_error [OF st] by auto
qed

lemma ensureIndexIsExists_metrics: "es_metrics (snd (ensureIndexIsExists env name c)) = es_metrics c"
  by (auto simp: ensureIndexIsExists_def ensureIndexIsExistsRegularIndex_def ensureIndexIsExistsDataStream_def
      cacheIndex_def Let_def split: prod.splits sum.splits option.splits)

lemma failures_counted:
  "counter_value ''barito_consumer_failed_to_ensure_index_exists_total'' [name] (es_metrics ((failedTry env name ^^ n) c)) =
   counter_value ''barito_consumer_failed_to_ensure_index_exists_total'' [name] (es_metrics c) + int n"
proof (induction n)
  case (Suc n)
  then show ?case
    by (simp add: failedTry_def Let_def IncreaseConsumerFailedToEnsureIndexExists_def ensureIndexIsExists_metrics)
qed simp

text \<open>
  C30. \<open>Store\<close> waits for its index: if the index cannot be ensured \<open>n\<close> times and then can, \<open>Store\<close> goes on
  to the document, having counted \<open>n\<close> failures; if it can never be ensured, for one because the cluster's
  answer to the check is always an error, \<open>Store\<close> never returns, and with it the worker that called it.
\<close>

theorem Store_waits_for_index:
  assumes "connected c" and "name = indexNameFor c (GetEsIndexPrefix (tContext t)) (fst (Today env (es c)))"
    and "c0 = c\<lparr>es := snd (Today env (es c))\<rparr>"
  shows "((\<forall>i<n. tryFails env name c0 i) \<and> \<not> tryFails env name c0 n \<longrightarrow>
      (\<exists>c1. Store env t c = Some (storeDocument env name t c1) \<and> name \<in> indexExistsCache c1
        \<and> counter_value ''barito_consumer_failed_to_ensure_index_exists_total'' [name] (es_metrics c1) =
          counter_value ''barito_consumer_failed_to_ensure_index_exists_total'' [name] (es_metrics c) + int n))
    \<and> ((\<forall>i. tryFails env name c0 i) \<longrightarrow> Store env t c = None)"
proof (intro conjI impI; (elim conjE)?)
  assume fails: "\<forall>i<n. tryFails env name c0 i" and ok: "\<not> tryFails env name c0 n"
  let ?c1 = "snd (ensureIndexIsExists env name ((failedTry env name ^^ n) c0))"
  have loop: "ensureLoop env name c0 = Some ?c1" using fails ok by (rule ensureLoop_success)
  then have "Store env t c = Some (storeDocument env name t ?c1)"
    using assms by (simp add: Store_def split_beta Let_def)
  moreover have "es_metrics ?c1 = es_metrics ((failedTry env name ^^ n) c0)" by (rule ensureIndexIsExists_metrics)
  moreover have "es_metrics c0 = es_metrics c" using assms(3) by simp
  ultimately show "\<exists>c1. Store env t c = Some (storeDocument env name t c1) \<and> name \<in> indexExistsCache c1
      \<and> counter_value ''barito_consumer_failed_to_ensure_index_exists_total'' [name] (es_metrics c1) =
        counter_value ''barito_consumer_failed_to_ensure_index_exists_total'' [name] (es_metrics c) + int n"
    using ensureLoop_result [OF loop] failures_counted [where name = name and env = env and n = n and c = c0] by auto
next
  assume "\<forall>i. tryFails env name c0 i"
  then show "Store env t c = None" using assms by (simp add: Store_def split_beta Let_def ensureLoop_diverges)
qed

theorem Store_waits_for_index_witness:
  "Store (demo_es (Inl (Err ''timeout'')) None) demo_log (demo_client ''BulkProcessor'') = None"
proof -
  let ?env = "demo_es (Inl (Err ''timeout'')) None" and ?c = "demo_client ''BulkProcessor''"
  have cache: "indexExistsCache ((failedTry ?env n ^^ i) ?c) = {}" for n i
    by (induction i) (simp_all add: failedTry_def ensureIndexIsExists_def demo_es_def demo_client_def store_defs)
  have "tryFails ?env n ?c i" for n i
    using cache [where n = n and i = i] by (simp add: tryFails_def ensureIndexIsExists_def demo_es_def)
  moreover have "connected ?c" "?c\<lparr>es := snd (Today ?env (es ?c))\<rparr> = ?c" by (simp_all add: demo_client_def store_defs)
  ultimately show ?thesis using Store_waits_for_index [of ?c _ demo_log ?env ?c] by simp
qed

section \<open>Retrying requests\<close>

text \<open>The library asks the retrier after each failed try, counting from 1, until it says no.\<close>

fun askRetrier :: "'w ElasticRetrier \<Rightarrow> error option list \<Rightarrow> int \<Rightarrow> 'w \<Rightarrow> bool list \<times> 'w" where
  "askRetrier r [] n w = ([], w)"
| "askRetrier r (err # errs) n w =
     (let ((_, again, _), w1) = Retry r n err w
      in if again then (let (bs, w2) = askRetrier r errs (n + 1) w1 in (True # bs, w2)) else ([False], w1))"

definition log_retrier :: "int \<Rightarrow> int \<Rightarrow> (error option list \<times> nat) ElasticRetrier" where
  "log_retrier t n = NewElasticRetrier t n (\<lambda>e (xs, k). (xs @ [e], k)) (\<lambda>(xs, k). (xs, Suc k))"

definition reported :: "error option \<Rightarrow> error option" where
  "reported err = (if err = Some ECONNREFUSED then Some (Err ''Elasticsearch or network down'') else err)"

lemma askRetrier_log:
  assumes "0 < n" and "n \<le> m \<or> m \<le> 0"
  shows "askRetrier (log_retrier t m) errs n (xs, k) =
    (if 0 < m \<and> m - n < int (length errs)
     then (replicate (nat (m - n)) True @ [False], (xs @ map reported (take (nat (m - n) + 1) errs), Suc k))
     else (replicate (length errs) True, (xs @ map reported errs, k)))"
  using assms
proof (induction errs arbitrary: n xs k)
  case (Cons err errs)
  have step: "Retry (log_retrier t m) n err (xs, k) =
      (if 0 < m \<and> m \<le> n then ((t, False, None), (xs @ [reported err], Suc k)) else ((t, True, None), (xs @ [reported err], k)))"
    by (simp add: Retry_def log_retrier_def NewElasticRetrier_def reported_def Let_def)
  show ?case
  proof (cases "0 < m \<and> m \<le> n")
    case True
    with Cons.prems step show ?thesis by auto
  next
    case False
    have "nat (m - n) = Suc (nat (m - (n + 1)))" if "0 < m" using False that by simp
    with False step Cons.prems Cons.IH [of "n + 1" "xs @ [reported err]" k] show ?thesis
      by (auto simp: Let_def split: if_splits)
  qed
qed auto

text \<open>
  The retrier stops at its limit: for a request that keeps failing, with a positive limit \<open>m\<close> it
  asks for another try \<open>m - 1\<close> times and refuses the next one, reporting each of the \<open>m\<close> errors and calling
  the limit callback once; without a positive limit it always asks for another try and never calls it.
  A refused connection is reported as "Elasticsearch or network down".
\<close>

lemma retrier_limit:
  "(0 < m \<and> m \<le> int (length errs) \<longrightarrow>
      askRetrier (log_retrier t m) errs 1 ([], 0) =
        (replicate (nat m - 1) True @ [False], (map reported (take (nat m) errs), 1)))
   \<and> (m \<le> 0 \<longrightarrow> askRetrier (log_retrier t m) errs 1 ([], 0) = (replicate (length errs) True, (map reported errs, 0)))"
  using askRetrier_log [of 1 m t errs "[]" 0] by (auto simp: nat_diff_distrib Suc_nat_eq_nat_zadd1)

lemma retrier_limit_example:
  "askRetrier (log_retrier 30 2) [Some ECONNREFUSED, None, None] 1 ([], 0) =
    ([True, False], ([Some (Err ''Elasticsearch or network down''), None], 1))"
  using retrier_limit [of 2 "[Some ECONNREFUSED, None, None]" 30] by (simp add: reported_def numeral_2_eq_2)

end
