(* ===== verification/Redact.thy ===== *)
theory Redact
  imports Convert Metrics
begin

text \<open>
  The redactor of the package \<open>redact\<close>: rules that blank matches of a regular expression in a log, or
  the string values at matching paths of a JSON log, and the redactor that picks the rules of an
  application. Go's \<open>regexp\<close> and \<open>encoding/json\<close> are parameters: a compiled expression is what it matches,
  and how it cuts a text into matches and the text between them.
\<close>

section \<open>Rules\<close>

datatype piece = Plain string | Match string

fun text_of :: "piece \<Rightarrow> string" where
  "text_of (Plain s) = s"
| "text_of (Match s) = s"

record Regexp =
  MatchString :: "string \<Rightarrow> bool"
  Pieces :: "string \<Rightarrow> piece list"

record StaticRule =
  sr_Regex :: "Regexp option"
  sr_Name :: string
  sr_HintCharsStart :: int
  sr_HintCharsEnd :: int

record JsonPathRule =
  jr_Path :: "Regexp option"
  jr_Name :: string
  jr_HintCharsStart :: int
  jr_HintCharsEnd :: int

record Rules =
  StaticRules :: "StaticRule list"
  JsonPathRules :: "JsonPathRule list option"

text \<open>\<open>fmt.Sprintf("%s[%s REDACTED]%s", ...)\<close> with the hints that are asked for; slicing may panic.\<close>

definition marker :: "string \<Rightarrow> string" where
  "marker name = ''['' @ name @ '' REDACTED]''"

definition redactText :: "string \<Rightarrow> int \<Rightarrow> int \<Rightarrow> string \<Rightarrow> string go" where
  "redactText name hintStart hintEnd s =
     (if 0 < hintStart
      then if 0 < hintEnd
           then go_bind (sliceTo s hintStart) (\<lambda>a. go_bind (sliceFrom s (int (length s) - hintEnd)) (\<lambda>b.
                  Ret (a @ marker name @ b)))
           else go_bind (sliceTo s hintStart) (\<lambda>a. Ret (a @ marker name))
      else if 0 < hintEnd
           then go_bind (sliceFrom s (int (length s) - hintEnd)) (\<lambda>b. Ret (marker name @ b))
           else Ret (marker name))"

fun replacePieces :: "(string \<Rightarrow> string go) \<Rightarrow> piece list \<Rightarrow> string go" where
  "replacePieces f [] = Ret []"
| "replacePieces f (Plain s # ps) = go_bind (replacePieces f ps) (\<lambda>t. Ret (s @ t))"
| "replacePieces f (Match s # ps) = go_bind (f s) (\<lambda>s'. go_bind (replacePieces f ps) (\<lambda>t. Ret (s' @ t)))"

definition StaticRule_Redact :: "StaticRule \<Rightarrow> string \<Rightarrow> string go" where
  "StaticRule_Redact r s =
     (case sr_Regex r of
        None \<Rightarrow> Panic ''nil pointer dereference''
      | Some re \<Rightarrow> replacePieces (redactText (sr_Name r) (sr_HintCharsStart r) (sr_HintCharsEnd r)) (Pieces re s))"

definition JsonPathRule_Redact :: "JsonPathRule \<Rightarrow> string \<Rightarrow> string go" where
  "JsonPathRule_Redact r s = redactText (jr_Name r) (jr_HintCharsStart r) (jr_HintCharsEnd r) s"

text \<open>The first rule whose path matches redacts a string; a rule without a path panics when it is tried.\<close>

fun firstPathRule :: "JsonPathRule list \<Rightarrow> string \<Rightarrow> JsonPathRule option go" where
  "firstPathRule [] path = Ret None"
| "firstPathRule (r # rs) path =
     (case jr_Path r of
        None \<Rightarrow> Panic ''nil pointer dereference''
      | Some re \<Rightarrow> if MatchString re path then Ret (Some r) else firstPathRule rs path)"

definition redactLeaf :: "JsonPathRule list option \<Rightarrow> string \<Rightarrow> string \<Rightarrow> string go" where
  "redactLeaf rules path v =
     (case rules of
        None \<Rightarrow> Ret v
      | Some rs \<Rightarrow> go_bind (firstPathRule rs path) (\<lambda>r.
          case r of None \<Rightarrow> Ret v | Some rule \<Rightarrow> JsonPathRule_Redact rule v))"

fun traverseJSON :: "JsonPathRule list option \<Rightarrow> json \<Rightarrow> string \<Rightarrow> json go"
and traverseFields :: "JsonPathRule list option \<Rightarrow> (string \<times> json) list \<Rightarrow> string \<Rightarrow> (string \<times> json) list go"
and traverseItems :: "JsonPathRule list option \<Rightarrow> json list \<Rightarrow> string \<Rightarrow> json list go" where
  "traverseJSON rules (JString v) path = go_bind (redactLeaf rules path v) (\<lambda>v'. Ret (JString v'))"
| "traverseJSON rules (JObject kvs) path = go_bind (traverseFields rules kvs path) (\<lambda>kvs'. Ret (JObject kvs'))"
| "traverseJSON rules (JArray xs) path = go_bind (traverseItems rules xs path) (\<lambda>xs'. Ret (JArray xs'))"
| "traverseJSON rules JNull path = Ret JNull"
| "traverseJSON rules (JBool b) path = Ret (JBool b)"
| "traverseJSON rules (JNumber n) path = Ret (JNumber n)"
| "traverseFields rules [] path = Ret []"
| "traverseFields rules ((k, v) # kvs) path =
     go_bind (traverseJSON rules v (path @ ''.'' @ k)) (\<lambda>v'.
       go_bind (traverseFields rules kvs path) (\<lambda>kvs'. Ret ((k, v') # kvs')))"
| "traverseItems rules [] path = Ret []"
| "traverseItems rules (x # xs) path =
     go_bind (traverseJSON rules x (path @ ''[]'')) (\<lambda>x'.
       go_bind (traverseItems rules xs path) (\<lambda>xs'. Ret (x' # xs')))"

fun applyStatic :: "StaticRule list \<Rightarrow> string \<Rightarrow> string go" where
  "applyStatic [] s = Ret s"
| "applyStatic (r # rs) s = go_bind (StaticRule_Redact r s) (applyStatic rs)"

text \<open>\<open>dec\<close> and \<open>enc\<close> are \<open>json.Unmarshal\<close> into an \<open>interface{}\<close> and \<open>json.Marshal\<close>.\<close>

record json_codec =
  dec :: "string \<Rightarrow> error + json"
  enc :: "json \<Rightarrow> error + string"

definition Rules_Redact :: "json_codec \<Rightarrow> Rules \<Rightarrow> string \<Rightarrow> string go" where
  "Rules_Redact c r original =
     go_bind
       (if (case JsonPathRules r of None \<Rightarrow> True | Some rs \<Rightarrow> rs = []) then Ret original
        else case dec c original of
               Inl e \<Rightarrow> Ret original
             | Inr data \<Rightarrow>
                 go_bind (traverseJSON (JsonPathRules r) data []) (\<lambda>data'.
                   Ret (case enc c data' of Inl e \<Rightarrow> original | Inr s \<Rightarrow> s)))
       (applyStatic (StaticRules r))"

section \<open>The redactor\<close>

text \<open>
  \<open>RulesMap\<close> may be nil; the entry of a missing application is the zero value of \<open>Rules\<close>. The lock
  makes \<open>Redact\<close> and \<open>UpdateRulesMap\<close> atomic.
\<close>

record Redactor =
  RulesMap :: "(string \<times> Rules) list option"

definition noRules :: Rules where
  "noRules = \<lparr>StaticRules = [], JsonPathRules = None\<rparr>"

definition rulesFor :: "(string \<times> Rules) list \<Rightarrow> string \<Rightarrow> Rules" where
  "rulesFor m appName =
     (case map_of m appName of
        Some rules \<Rightarrow> rules
      | None \<Rightarrow> (case map_of m ''default'' of Some rules \<Rightarrow> rules | None \<Rightarrow> noRules))"

definition Redactor_Redact :: "json_codec \<Rightarrow> Redactor \<Rightarrow> string \<Rightarrow> string \<Rightarrow> metrics \<Rightarrow> ((error + string) \<times> metrics) go" where
  "Redactor_Redact c r appName doc ms =
     (case RulesMap r of
        None \<Rightarrow> Ret (Inr doc, ms)
      | Some [] \<Rightarrow> Ret (Inr doc, ms)
      | Some m \<Rightarrow>
          let ms1 = ObserveRedactByteIngestion appName doc ms
          in go_bind (Rules_Redact c (rulesFor m appName) doc) (\<lambda>s. Ret (Inr s, ms1)))"

definition UpdateRulesMap :: "Redactor \<Rightarrow> (string \<times> Rules) list \<Rightarrow> Redactor" where
  "UpdateRulesMap r m = r\<lparr>RulesMap := Some m\<rparr>"

text \<open>
  \<open>decRules\<close> is \<open>json.Unmarshal\<close> into the rules map: a panic for a pattern that does not compile
  (\<open>UnmarshalJSON\<close> of \<open>Regexp\<close> uses \<open>MustCompile\<close>), otherwise an error or none, and the entries decoded.
\<close>

type_synonym rules_decoder = "string \<Rightarrow> (error option \<times> (string \<times> Rules) list) go"

definition Regexp_UnmarshalJSON :: "(string \<Rightarrow> error + string) \<Rightarrow> (string \<Rightarrow> Regexp option) \<Rightarrow> string \<Rightarrow> (error + Regexp) go" where
  "Regexp_UnmarshalJSON decString compile b =
     (case decString b of
        Inl e \<Rightarrow> Ret (Inl e)
      | Inr pattern \<Rightarrow> (case compile pattern of None \<Rightarrow> Panic ''regexp: Compile'' | Some re \<Rightarrow> Ret (Inr re)))"

definition NewRedactorFromJSON :: "rules_decoder \<Rightarrow> string \<Rightarrow> Redactor go" where
  "NewRedactorFromJSON decRules jsonRulesMap =
     go_bind (decRules jsonRulesMap) (\<lambda>(_, m). Ret \<lparr>RulesMap = Some m\<rparr>)"

text \<open>\<open>marshal\<close> is \<open>json.Marshal\<close> on a redactor.\<close>

definition ToJson :: "(Redactor \<Rightarrow> error + string) \<Rightarrow> Redactor \<Rightarrow> error + string" where
  "ToJson marshal r = (case marshal r of Inl err \<Rightarrow> Inl err | Inr jsonBytes \<Rightarrow> Inr jsonBytes)"

text \<open>Fetching the rules: \<open>get\<close> is the HTTP request, with the body of its response.\<close>

fun observeRules :: "(string \<times> Rules) list \<Rightarrow> metrics \<Rightarrow> metrics" where
  "observeRules [] ms = ms"
| "observeRules ((appName, rules) # m) ms =
     observeRules m
       (SetRedactionEnabledTotal appName ''JsonPathRules''
          (int (length (case JsonPathRules rules of None \<Rightarrow> [] | Some rs \<Rightarrow> rs)))
          (SetRedactionEnabledTotal appName ''StaticRules'' (int (length (StaticRules rules))) ms))"

definition marketUrl :: "string \<Rightarrow> string \<Rightarrow> string \<Rightarrow> string" where
  "marketUrl endpoint clusterName clientKey =
     endpoint @ ''?cluster_name='' @ clusterName @ ''&client_key='' @ clientKey"

definition fetchRulesMapFromMarket :: "(string \<Rightarrow> 'w \<Rightarrow> (error + string) \<times> 'w) \<Rightarrow> rules_decoder \<Rightarrow>
    string \<Rightarrow> string \<Rightarrow> string \<Rightarrow> metrics \<Rightarrow> 'w \<Rightarrow> ((error + (string \<times> Rules) list) \<times> metrics \<times> 'w) go" where
  "fetchRulesMapFromMarket get decRules endpoint clusterName clientKey ms w =
     (case get (marketUrl endpoint clusterName clientKey) w of
        (Inl e, w1) \<Rightarrow> Ret (Inl e, ms, w1)
      | (Inr body, w1) \<Rightarrow>
          go_bind (decRules body) (\<lambda>(err, m).
            case err of Some e \<Rightarrow> Ret (Inl e, ms, w1) | None \<Rightarrow> Ret (Inr m, observeRules m ms, w1)))"

definition NewRedactorFromMarket :: "(string \<Rightarrow> 'w \<Rightarrow> (error + string) \<times> 'w) \<Rightarrow> rules_decoder \<Rightarrow>
    string \<Rightarrow> string \<Rightarrow> string \<Rightarrow> metrics \<Rightarrow> 'w \<Rightarrow> (Redactor \<times> metrics \<times> 'w) go" where
  "NewRedactorFromMarket get decRules endpoint clusterName clientKey ms w =
     go_bind (fetchRulesMapFromMarket get decRules endpoint clusterName clientKey ms w) (\<lambda>(r, ms1, w1).
       case r of Inl e \<Rightarrow> Panic ''fetch rules'' | Inr m \<Rightarrow> Ret (\<lparr>RulesMap = Some m\<rparr>, ms1, w1))"

text \<open>One turn of the goroutine that refreshes the rules every minute.\<close>

definition refreshRules :: "(string \<Rightarrow> 'w \<Rightarrow> (error + string) \<times> 'w) \<Rightarrow> rules_decoder \<Rightarrow>
    string \<Rightarrow> string \<Rightarrow> string \<Rightarrow> Redactor \<Rightarrow> metrics \<Rightarrow> 'w \<Rightarrow> (Redactor \<times> metrics \<times> 'w) go" where
  "refreshRules get decRules endpoint clusterName clientKey r ms w =
     go_bind (fetchRulesMapFromMarket get decRules endpoint clusterName clientKey ms w) (\<lambda>(res, ms1, w1).
       Ret (case res of Inl e \<Rightarrow> r | Inr m \<Rightarrow> UpdateRulesMap r m, ms1, w1))"

section \<open>What a rule leaves of a text\<close>

lemma sliceTo_eq: "0 < a \<Longrightarrow> sliceTo s a = (if a \<le> int (length s) then Ret (take (nat a) s) else Panic ''slice bounds out of range'')"
  by (simp add: sliceTo_def)

lemma sliceFrom_end:
  "0 < b \<Longrightarrow> sliceFrom s (int (length s) - b) =
    (if b \<le> int (length s) then Ret (drop (length s - nat b) s) else Panic ''slice bounds out of range'')"
  by (auto simp: sliceFrom_def nat_diff_distrib)

lemma redactText_eq:
  "redactText name a b s =
    (if a \<le> int (length s) \<and> b \<le> int (length s)
     then Ret (take (nat a) s @ marker name @ drop (length s - nat b) s)
     else Panic ''slice bounds out of range'')"
  by (auto simp: redactText_def sliceTo_eq sliceFrom_end split: if_splits)


text \<open>
  Overlapping hints hide nothing: when the two hints together are as long as the text or longer,
  the redacted text still contains all of it, the beginning before the marker and the rest after.
\<close>

lemma overlapping_hints_leak:
  assumes "0 \<le> jr_HintCharsStart r" and "0 \<le> jr_HintCharsEnd r"
    and "jr_HintCharsStart r \<le> int (length s)" and "jr_HintCharsEnd r \<le> int (length s)"
    and "int (length s) \<le> jr_HintCharsStart r + jr_HintCharsEnd r"
  shows "\<exists>x y k. JsonPathRule_Redact r s = Ret (x @ marker (jr_Name r) @ y) \<and> s = x @ drop k y"
proof -
  let ?a = "nat (jr_HintCharsStart r)" and ?b = "nat (jr_HintCharsEnd r)"
  have "length s \<le> ?a + ?b" using assms by linarith
  then have "drop (?a - (length s - ?b)) (drop (length s - ?b) s) = drop ?a s" by simp
  then have "s = take ?a s @ drop (?a - (length s - ?b)) (drop (length s - ?b) s)" by simp
  moreover have "JsonPathRule_Redact r s = Ret (take ?a s @ marker (jr_Name r) @ drop (length s - ?b) s)"
    using assms(3,4) by (simp add: JsonPathRule_Redact_def redactText_eq)
  ultimately show ?thesis by blast
qed

lemma overlapping_hints_leak_example:
  "\<exists>x y k. JsonPathRule_Redact \<lparr>jr_Path = None, jr_Name = ''PIN'', jr_HintCharsStart = 2, jr_HintCharsEnd = 2\<rparr> ''1234''
      = Ret (x @ marker ''PIN'' @ y) \<and> ''1234'' = x @ drop k y"
  using overlapping_hints_leak [of "\<lparr>jr_Path = None, jr_Name = ''PIN'', jr_HintCharsStart = 2, jr_HintCharsEnd = 2\<rparr>" "''1234''"]
  by simp

section \<open>What the traversal changes\<close>

text \<open>The strings of a value with their paths, in order, and the value with its strings blanked.\<close>

fun stringsOf :: "json \<Rightarrow> string \<Rightarrow> (string \<times> string) list"
and stringsOfFields :: "(string \<times> json) list \<Rightarrow> string \<Rightarrow> (string \<times> string) list"
and stringsOfItems :: "json list \<Rightarrow> string \<Rightarrow> (string \<times> string) list" where
  "stringsOf (JString v) path = [(path, v)]"
| "stringsOf (JObject kvs) path = stringsOfFields kvs path"
| "stringsOf (JArray xs) path = stringsOfItems xs path"
| "stringsOf _ path = []"
| "stringsOfFields [] path = []"
| "stringsOfFields ((k, v) # kvs) path = stringsOf v (path @ ''.'' @ k) @ stringsOfFields kvs path"
| "stringsOfItems [] path = []"
| "stringsOfItems (x # xs) path = stringsOf x (path @ ''[]'') @ stringsOfItems xs path"

fun blank :: "json \<Rightarrow> json"
and blankFields :: "(string \<times> json) list \<Rightarrow> (string \<times> json) list"
and blankItems :: "json list \<Rightarrow> json list" where
  "blank (JString v) = JString []"
| "blank (JObject kvs) = JObject (blankFields kvs)"
| "blank (JArray xs) = JArray (blankItems xs)"
| "blank JNull = JNull"
| "blank (JBool b) = JBool b"
| "blank (JNumber n) = JNumber n"
| "blankFields [] = []"
| "blankFields ((k, v) # kvs) = (k, blank v) # blankFields kvs"
| "blankItems [] = []"
| "blankItems (x # xs) = blank x # blankItems xs"

definition redactedAs :: "JsonPathRule list option \<Rightarrow> string \<times> string \<Rightarrow> string \<times> string \<Rightarrow> bool" where
  "redactedAs rules old new \<longleftrightarrow> fst new = fst old \<and> redactLeaf rules (fst old) (snd old) = Ret (snd new)"

lemma traverse_effect:
  "traverseJSON rules j path = Ret j' \<Longrightarrow> blank j' = blank j \<and> list_all2 (redactedAs rules) (stringsOf j path) (stringsOf j' path)"
  "traverseFields rules kvs path = Ret kvs' \<Longrightarrow>
    blankFields kvs' = blankFields kvs \<and> list_all2 (redactedAs rules) (stringsOfFields kvs path) (stringsOfFields kvs' path)"
  "traverseItems rules xs path = Ret xs' \<Longrightarrow>
    blankItems xs' = blankItems xs \<and> list_all2 (redactedAs rules) (stringsOfItems xs path) (stringsOfItems xs' path)"
proof (induction rules j path and rules kvs path and rules xs path
    arbitrary: j' and kvs' and xs' rule: traverseJSON_traverseFields_traverseItems.induct)
qed (auto simp: go_bind_Ret_iff redactedAs_def intro!: list_all2_appendI)


definition emailRule :: JsonPathRule where
  "emailRule = \<lparr>jr_Path = Some \<lparr>MatchString = (\<lambda>p. p = ''.email''), Pieces = (\<lambda>s. [Plain s])\<rparr>, jr_Name = ''EMAIL'',
     jr_HintCharsStart = 1, jr_HintCharsEnd = 0\<rparr>"


end
