(* ===== verification/Consumer_Worker.thy ===== *)
theory Consumer_Worker
  imports Convert Metrics
begin

text \<open>
  Reading from Kafka: the adapter of \<open>flow/kafka_factory.go\<close> that turns the callbacks of a sarama
  consumer group into channels, and the worker of \<open>flow/consumer_worker.go\<close> that takes messages from
  them, hands each to its success callback and then marks its offset. The goroutines are steps of one
  state. The consumer group and its session are not part of the repository: the adapter's state logs
  what it marks and commits through the session.
\<close>

section \<open>The adapter\<close>

text \<open>Channels are queues with a capacity. \<open>session\<close> says whether \<open>Setup\<close> has stored one.\<close>

record adapter =
  ad_topics :: "string list"
  ad_session :: bool
  ad_messages :: "ConsumerMessage list"
  ad_notifications :: "string list"
  ad_errors :: "error list"
  ad_marked :: "ConsumerMessage list"
  ad_commits :: nat

definition newConsumerGroupAdapter :: "string list \<Rightarrow> adapter" where
  "newConsumerGroupAdapter ts =
     \<lparr>ad_topics = ts, ad_session = False, ad_messages = [], ad_notifications = [], ad_errors = [],
      ad_marked = [], ad_commits = 0\<rparr>"

text \<open>A send in a \<open>select\<close> with a default: dropped when the channel is full.\<close>

definition trySend :: "nat \<Rightarrow> 'a \<Rightarrow> 'a list \<Rightarrow> 'a list" where
  "trySend cap x q = (if length q < cap then q @ [x] else q)"

definition Setup :: "adapter \<Rightarrow> adapter" where
  "Setup a = a\<lparr>ad_session := True, ad_notifications := trySend 16 ''rebalance_start'' (ad_notifications a)\<rparr>"

definition Cleanup :: "adapter \<Rightarrow> adapter" where
  "Cleanup a = a\<lparr>ad_notifications := trySend 16 ''rebalance_end'' (ad_notifications a)\<rparr>"

text \<open>One turn of the loop of \<open>ConsumeClaim\<close>: it waits while the channel is full.\<close>

definition claimMessage :: "ConsumerMessage \<Rightarrow> adapter \<Rightarrow> adapter option" where
  "claimMessage m a = (if length (ad_messages a) < 256 then Some (a\<lparr>ad_messages := ad_messages a @ [m]\<rparr>) else None)"

definition MarkOffset :: "ConsumerMessage \<Rightarrow> adapter \<Rightarrow> adapter" where
  "MarkOffset m a = (if ad_session a then a\<lparr>ad_marked := ad_marked a @ [m]\<rparr> else a)"

definition CommitOffsets :: "adapter \<Rightarrow> error option \<times> adapter" where
  "CommitOffsets a = (None, if ad_session a then a\<lparr>ad_commits := Suc (ad_commits a)\<rparr> else a)"

text \<open>
  The loop of \<open>consume\<close>, started on \<open>context.Background()\<close>: \<open>Consume\<close> is one call of the group's \<open>Consume\<close>,
  \<open>ctxErr\<close> whether the context has ended. \<^const>\<open>None\<close> when the loop never returns.
\<close>

partial_function (option) consumeLoop ::
    "('g \<Rightarrow> adapter \<Rightarrow> error option \<times> 'g \<times> adapter) \<Rightarrow> ('g \<Rightarrow> bool) \<Rightarrow> 'g \<Rightarrow> adapter \<Rightarrow> ('g \<times> adapter) option" where
  "consumeLoop Consume ctxErr g a =
     (case Consume g a of (err, g1, a1) \<Rightarrow>
        let a2 = (case err of Some e \<Rightarrow> a1\<lparr>ad_errors := trySend 16 e (ad_errors a1)\<rparr> | None \<Rightarrow> a1)
        in if ctxErr g1 then Some (g1, a2) else consumeLoop Consume ctxErr g1 a2)"

text \<open>The channels the worker reads, and closing, which is left to the group.\<close>

definition Messages :: "adapter \<Rightarrow> ConsumerMessage list" where
  "Messages a = ad_messages a"

definition Notifications :: "adapter \<Rightarrow> string list" where
  "Notifications a = ad_notifications a"

definition Errors :: "adapter \<Rightarrow> error list" where
  "Errors a = ad_errors a"

definition adapterClose :: "('g \<Rightarrow> error option \<times> 'g) \<Rightarrow> 'g \<times> adapter \<Rightarrow> error option \<times> 'g \<times> adapter" where
  "adapterClose groupClose = (\<lambda>(g, a). let (err, g1) = groupClose g in (err, g1, a))"

declare Messages_def [simp] Notifications_def [simp] Errors_def [simp]

section \<open>The worker\<close>

text \<open>The callbacks act on the state \<open>'w\<close> of whoever installed them.\<close>

record 'w consumerWorker =
  cw_name :: string
  cw_isStart :: bool
  onErrorFunc :: "(error \<Rightarrow> 'w \<Rightarrow> 'w) option"
  onSuccessFunc :: "(ConsumerMessage \<Rightarrow> 'w \<Rightarrow> 'w) option"
  onNotificationFunc :: "(string \<Rightarrow> 'w \<Rightarrow> 'w) option"

definition RetrieveMessageFailedError :: error where
  "RetrieveMessageFailedError = Err ''Retrieve message failed''"

definition NewConsumerWorker :: "string \<Rightarrow> 'w consumerWorker" where
  "NewConsumerWorker name =
     \<lparr>cw_name = name, cw_isStart = False, onErrorFunc = None, onSuccessFunc = None, onNotificationFunc = None\<rparr>"

definition OnError :: "(error \<Rightarrow> 'w \<Rightarrow> 'w) \<Rightarrow> 'w consumerWorker \<Rightarrow> 'w consumerWorker" where
  "OnError f w = w\<lparr>onErrorFunc := Some f\<rparr>"

definition OnSuccess :: "(ConsumerMessage \<Rightarrow> 'w \<Rightarrow> 'w) \<Rightarrow> 'w consumerWorker \<Rightarrow> 'w consumerWorker" where
  "OnSuccess f w = w\<lparr>onSuccessFunc := Some f\<rparr>"

definition OnNotification :: "(string \<Rightarrow> 'w \<Rightarrow> 'w) \<Rightarrow> 'w consumerWorker \<Rightarrow> 'w consumerWorker" where
  "OnNotification f w = w\<lparr>onNotificationFunc := Some f\<rparr>"

definition workerIsStart :: "'w consumerWorker \<Rightarrow> bool" where
  "workerIsStart w = cw_isStart w"

definition fireSuccess :: "'w consumerWorker \<Rightarrow> ConsumerMessage \<Rightarrow> 'w \<Rightarrow> 'w" where
  "fireSuccess w m x = (case onSuccessFunc w of Some f \<Rightarrow> f m x | None \<Rightarrow> x)"

definition fireError :: "'w consumerWorker \<Rightarrow> error \<Rightarrow> 'w \<Rightarrow> 'w" where
  "fireError w e x = (case onErrorFunc w of Some f \<Rightarrow> f e x | None \<Rightarrow> x)"

definition fireNotification :: "'w consumerWorker \<Rightarrow> string \<Rightarrow> 'w \<Rightarrow> 'w" where
  "fireNotification w n x = (case onNotificationFunc w of Some f \<Rightarrow> f n x | None \<Rightarrow> x)"

definition OnConsumerFlush :: "adapter \<Rightarrow> error option \<times> adapter" where
  "OnConsumerFlush a = CommitOffsets a"

section \<open>The goroutines\<close>

text \<open>
  Where the main loop is: not running, waiting in its \<open>select\<close>, about to call the success callback, or
  about to mark the offset. \<open>arrived\<close> logs the messages claimed from Kafka, \<open>processed\<close> the calls of
  the success callback; \<open>world\<close> is the state the callbacks act on.
\<close>

datatype main_pc = NotRunning | Waiting | Received ConsumerMessage | Fired ConsumerMessage

record 'w worker_sys =
  wk :: "'w consumerWorker"
  ad :: adapter
  pc :: main_pc
  started :: bool
  stopSignals :: nat
  wmetrics :: metrics
  world :: 'w
  arrived :: "ConsumerMessage list"
  processed :: "ConsumerMessage list"

definition workerStart :: "'w worker_sys \<Rightarrow> 'w worker_sys" where
  "workerStart s = s\<lparr>started := True, pc := Waiting, wk := (wk s)\<lparr>cw_isStart := True\<rparr>\<rparr>"

definition workerHalt :: "'w worker_sys \<Rightarrow> 'w worker_sys" where
  "workerHalt s = s\<lparr>stopSignals := Suc (stopSignals s)\<rparr>"

text \<open>\<open>Stop\<close> also closes the group, which ends the session and with it the claims.\<close>

definition workerStop :: "'w worker_sys \<Rightarrow> 'w worker_sys" where
  "workerStop s = workerHalt s"

definition receive :: "'w worker_sys \<Rightarrow> ConsumerMessage \<Rightarrow> ConsumerMessage list \<Rightarrow> 'w worker_sys" where
  "receive s m q =
     s\<lparr>ad := (ad s)\<lparr>ad_messages := q\<rparr>, pc := Received m,
       wmetrics := IncreaseKafkaMessagesIncoming (cmTopic m) (wmetrics s)\<rparr>"

definition fire :: "'w worker_sys \<Rightarrow> ConsumerMessage \<Rightarrow> 'w worker_sys" where
  "fire s m = s\<lparr>pc := Fired m, world := fireSuccess (wk s) m (world s), processed := processed s @ [m]\<rparr>"

definition mark :: "'w worker_sys \<Rightarrow> ConsumerMessage \<Rightarrow> 'w worker_sys" where
  "mark s m = s\<lparr>pc := Waiting, ad := MarkOffset m (ad s)\<rparr>"

inductive worker_step :: "'w worker_sys \<Rightarrow> 'w worker_sys \<Rightarrow> bool" where
  call_start: "\<not> started s \<Longrightarrow> worker_step s (workerStart s)"
| call_halt: "worker_step s (workerHalt s)"
| call_stop: "worker_step s (workerStop s)"
| call_flush: "worker_step s (s\<lparr>ad := snd (OnConsumerFlush (ad s))\<rparr>)"
| session_setup: "worker_step s (s\<lparr>ad := Setup (ad s)\<rparr>)"
| session_cleanup: "worker_step s (s\<lparr>ad := Cleanup (ad s)\<rparr>)"
| claim: "ad_session (ad s) \<Longrightarrow> claimMessage m (ad s) = Some a \<Longrightarrow>
    worker_step s (s\<lparr>ad := a, arrived := arrived s @ [m]\<rparr>)"
| main_receive: "pc s = Waiting \<Longrightarrow> Messages (ad s) = m # q \<Longrightarrow> worker_step s (receive s m q)"
| main_fire: "pc s = Received m \<Longrightarrow> worker_step s (fire s m)"
| main_mark: "pc s = Fired m \<Longrightarrow> worker_step s (mark s m)"
| main_stop: "pc s = Waiting \<Longrightarrow> 0 < stopSignals s \<Longrightarrow>
    worker_step s (s\<lparr>pc := NotRunning, stopSignals := stopSignals s - 1, wk := (wk s)\<lparr>cw_isStart := False\<rparr>\<rparr>)"
| group_error: "worker_step s (s\<lparr>ad := (ad s)\<lparr>ad_errors := trySend 16 e (ad_errors (ad s))\<rparr>\<rparr>)"
| loop_error: "started s \<Longrightarrow> Errors (ad s) = e # q \<Longrightarrow>
    worker_step s (s\<lparr>ad := (ad s)\<lparr>ad_errors := q\<rparr>, world := fireError (wk s) (Concat RetrieveMessageFailedError e) (world s)\<rparr>)"
| loop_notification: "started s \<Longrightarrow> Notifications (ad s) = n # q \<Longrightarrow>
    worker_step s (s\<lparr>ad := (ad s)\<lparr>ad_notifications := q\<rparr>, world := fireNotification (wk s) n (world s)\<rparr>)"

definition worker_init :: "'w consumerWorker \<Rightarrow> string list \<Rightarrow> 'w \<Rightarrow> 'w worker_sys \<Rightarrow> bool" where
  "worker_init w ts x s \<longleftrightarrow>
     \<not> cw_isStart w \<and>
     s = \<lparr>wk = w, ad = newConsumerGroupAdapter ts, pc = NotRunning, started = False, stopSignals = 0, wmetrics = [],
          world = x, arrived = [], processed = []\<rparr>"

section \<open>Nothing is lost, nothing is marked too early\<close>

fun held :: "main_pc \<Rightarrow> ConsumerMessage list" where
  "held (Received m) = [m]"
| "held _ = []"

fun unmarked :: "main_pc \<Rightarrow> ConsumerMessage list" where
  "unmarked (Fired m) = [m]"
| "unmarked _ = []"

definition worker_inv :: "'w worker_sys \<Rightarrow> bool" where
  "worker_inv s \<longleftrightarrow>
     arrived s = processed s @ held (pc s) @ ad_messages (ad s)
     \<and> processed s = ad_marked (ad s) @ unmarked (pc s)
     \<and> length (ad_messages (ad s)) \<le> 256 \<and> length (ad_notifications (ad s)) \<le> 16 \<and> length (ad_errors (ad s)) \<le> 16
     \<and> (arrived s \<noteq> [] \<longrightarrow> ad_session (ad s))
     \<and> (workerIsStart (wk s) \<longleftrightarrow> pc s \<noteq> NotRunning) \<and> (pc s \<noteq> NotRunning \<longrightarrow> started s)
     \<and> (\<forall>t. counter_value ''barito_consumer_kafka_message_incoming_total'' [t] (wmetrics s) =
          int (length (filter (\<lambda>m. cmTopic m = t) (processed s @ held (pc s)))))"

lemma trySend_length: "length q \<le> n \<Longrightarrow> length (trySend n x q) \<le> n"
  by (simp add: trySend_def)

lemmas worker_ops = workerStart_def workerHalt_def workerStop_def OnConsumerFlush_def CommitOffsets_def Setup_def
  Cleanup_def claimMessage_def receive_def fire_def mark_def MarkOffset_def workerIsStart_def
  IncreaseKafkaMessagesIncoming_def

inductive_cases worker_stepE: "worker_step s t"

lemma worker_step_inv: "worker_inv s \<Longrightarrow> worker_step s t \<Longrightarrow> worker_inv t"
  by (erule worker_stepE)
    (auto simp: worker_inv_def worker_ops trySend_length split: if_splits)

interpretation worker: state_machine "worker_init w ts x" worker_step worker_inv for w ts x
proof
  show "worker_inv s" if "worker_init w ts x s" for s
    using that by (auto simp: worker_init_def worker_inv_def newConsumerGroupAdapter_def workerIsStart_def)
qed (rule worker_step_inv)

text \<open>
  C10. Whatever the interleaving of Kafka, rebalances, the worker's loops and stop signals: the success
  callback is called on the claimed messages in the order they were claimed, each once; an offset is
  marked only after the callback returned for it, again in that order; at most one processed message is
  unmarked and at most one received message is unprocessed; nothing claimed is dropped; and the
  incoming counter of a topic counts exactly the messages received of it.
\<close>

theorem worker_processes_then_marks:
  assumes "reach (worker_init w ts x) worker_step s"
  shows "arrived s = processed s @ held (pc s) @ ad_messages (ad s)
    \<and> processed s = ad_marked (ad s) @ unmarked (pc s)
    \<and> length (held (pc s)) + length (unmarked (pc s)) \<le> 1
    \<and> counter_value ''barito_consumer_kafka_message_incoming_total'' [t] (wmetrics s) =
        int (length (filter (\<lambda>m. cmTopic m = t) (processed s @ held (pc s))))"
proof -
  have "worker_inv s" using assms by (rule worker.inv_reach)
  then show ?thesis by (cases "pc s") (simp_all add: worker_inv_def)
qed

text \<open>A run of the worker over one message, step by step.\<close>

definition demo_message :: ConsumerMessage where
  "demo_message = \<lparr>cmTopic = ''p_app_pb'', cmValue = ''v'', cmHeaders = [], cmOffset = 7\<rparr>"

definition demo_worker :: "nat worker_sys" where
  "demo_worker =
     \<lparr>wk = OnSuccess (\<lambda>m n. Suc n) (NewConsumerWorker ''p_app_pb''), ad = newConsumerGroupAdapter [''p_app_pb''],
      pc = NotRunning, started = False, stopSignals = 0, wmetrics = [], world = 0, arrived = [], processed = []\<rparr>"

definition demo_fired :: "nat worker_sys" where
  "demo_fired =
     (let s1 = workerStart demo_worker;
          s2 = s1\<lparr>ad := Setup (ad s1)\<rparr>;
          s3 = s2\<lparr>ad := (ad s2)\<lparr>ad_messages := [demo_message]\<rparr>, arrived := [demo_message]\<rparr>
      in fire (receive s3 demo_message []) demo_message)"

lemma demo_fired_reachable:
  "reach (worker_init (wk demo_worker) [''p_app_pb''] 0) worker_step demo_fired"
proof -
  let ?R = "reach (worker_init (wk demo_worker) [''p_app_pb''] 0) worker_step"
  let ?s1 = "workerStart demo_worker"
  let ?s2 = "?s1\<lparr>ad := Setup (ad ?s1)\<rparr>"
  let ?s3 = "?s2\<lparr>ad := (ad ?s2)\<lparr>ad_messages := [demo_message]\<rparr>, arrived := [demo_message]\<rparr>"
  have "?R demo_worker"
    by (rule reach_init) (simp add: worker_init_def demo_worker_def OnSuccess_def NewConsumerWorker_def)
  then have "?R ?s1" by (rule reach_step) (rule call_start, simp add: demo_worker_def)
  then have 2: "?R ?s2" by (rule reach_step) (rule session_setup)
  have "worker_step ?s2 (?s2\<lparr>ad := (ad ?s2)\<lparr>ad_messages := [demo_message]\<rparr>, arrived := arrived ?s2 @ [demo_message]\<rparr>)"
    by (rule claim) (simp_all add: worker_ops demo_worker_def newConsumerGroupAdapter_def)
  with 2 have "?R ?s3" by (auto intro: reach_step simp: demo_worker_def workerStart_def)
  then have "?R (receive ?s3 demo_message [])"
    by (rule reach_step) (rule main_receive, simp_all add: workerStart_def)
  then have "?R (fire (receive ?s3 demo_message []) demo_message)"
    by (rule reach_step) (rule main_fire, simp add: receive_def)
  then show ?thesis by (simp add: demo_fired_def Let_def)
qed

theorem worker_processes_then_marks_witness:
  "reach (worker_init (wk demo_worker) [''p_app_pb''] 0) worker_step demo_fired
   \<and> processed demo_fired = [demo_message] \<and> ad_marked (ad demo_fired) = [] \<and> world demo_fired = 1"
  using worker_processes_then_marks [OF demo_fired_reachable] demo_fired_reachable
  by (simp add: demo_fired_def fire_def receive_def fireSuccess_def demo_worker_def workerStart_def OnSuccess_def
      NewConsumerWorker_def Setup_def newConsumerGroupAdapter_def)

text \<open>
  Channels of the adapter are bounded and a full one loses what is offered without blocking: in
  every reachable state at most 256 messages wait, and at most 16 notifications and 16 errors; a message
  is claimed only when there is room, while a notification or an error that finds its channel full is
  dropped and leaves the channel as it was.
\<close>

lemma adapter_channels_bounded:
  assumes "reach (worker_init w ts x) worker_step s"
  shows "length (ad_messages (ad s)) \<le> 256 \<and> length (ad_notifications (ad s)) \<le> 16 \<and> length (ad_errors (ad s)) \<le> 16
    \<and> (claimMessage m (ad s) = None \<longleftrightarrow> length (ad_messages (ad s)) = 256)
    \<and> (ad_notifications (Cleanup (ad s)) = ad_notifications (ad s) \<longleftrightarrow> length (ad_notifications (ad s)) = 16)"
proof -
  have "worker_inv s" using assms by (rule worker.inv_reach)
  then show ?thesis by (auto simp: worker_inv_def claimMessage_def Cleanup_def trySend_def)
qed

lemma adapter_channels_bounded_example:
  "claimMessage demo_message (ad demo_fired) \<noteq> None \<and> length (ad_notifications (ad demo_fired)) \<le> 16"
  using adapter_channels_bounded [OF demo_fired_reachable, of demo_message]
  by (simp add: demo_fired_def fire_def receive_def demo_worker_def workerStart_def Setup_def)

section \<open>The consume loop\<close>

lemma consumeLoop_diverges:
  assumes "\<And>g. \<not> ctxErr g"
  shows "consumeLoop Consume ctxErr g a = None"
proof (cases "consumeLoop Consume ctxErr g a")
  case (Some r)
  have "\<exists>g. ctxErr g"
  proof (rule consumeLoop.raw_induct [where P = "\<lambda>Consume ctxErr g a r. \<exists>g. ctxErr g", OF _ Some])
    fix loop :: "('a \<Rightarrow> adapter \<Rightarrow> error option \<times> 'a \<times> adapter) \<Rightarrow> ('a \<Rightarrow> bool) \<Rightarrow> 'a \<Rightarrow> adapter \<Rightarrow> ('a \<times> adapter) option"
      and Consume ctxErr g a r
    assume IH: "\<And>Consume ctxErr g a r. loop Consume ctxErr g a = Some r \<Longrightarrow> \<exists>g. ctxErr g"
      and eq: "(case Consume g a of (err, g1, a1) \<Rightarrow>
        let a2 = (case err of None \<Rightarrow> a1 | Some e \<Rightarrow> a1\<lparr>ad_errors := trySend 16 e (ad_errors a1)\<rparr>)
        in if ctxErr g1 then Some (g1, a2) else loop Consume ctxErr g1 a2) = Some r"
    then show "\<exists>g. ctxErr g" by (auto simp: Let_def split: prod.splits if_splits)
  qed
  with assms show ?thesis by blast
qed simp

text \<open>
  The goroutine that \<open>MakeClusterConsumer\<close> starts never ends: its context is the background context,
  which has no error, so whatever the group answers, also when it has been closed and fails at once, the
  loop calls it again and never returns.
\<close>

lemma consume_never_returns:
  "consumeLoop Consume (\<lambda>_. False) g a = None"
  by (rule consumeLoop_diverges) simp

end
