(* ===== verification/Consumer_Service.thy ===== *)
theory Consumer_Service
  imports Kafka_Admin Elastic Redact Consumer_Worker
begin

text \<open>
  The Elasticsearch consumer of \<open>flow/barito_consumer_service.go\<close>: starting a worker per topic, storing
  each message, following the events on new topics, halting when Elasticsearch is down and resuming.
  A worker is known here by its topic, consumer group, initial offset and whether it runs; what a
  running worker does with its messages is the subject of \<open>Consumer_Worker\<close>, with \<open>onStoreTimber\<close> or
  \<open>onNewTopicEvent\<close> as its success callback.
\<close>

section \<open>State\<close>

datatype initial_offset = OffsetNewest | OffsetOldest

record worker_handle =
  wh_topic :: string
  wh_group :: string
  wh_offset :: initial_offset
  wh_running :: bool

record ('e, 'k) baritoConsumerService =
  bc_groupID :: string
  bc_uniqueGroupID :: bool
  bc_esClient :: "'e elasticClient"
  bc_topicPrefix :: string
  bc_topicSuffix :: string
  bc_kafkaMaxRetry :: int
  bc_kafkaRetryInterval :: int
  bc_newTopicEventName :: string
  bc_workerMap :: "(string \<times> worker_handle) list"
  bc_admin :: "kafkaAdmin option"
  bc_newTopicEventWorker :: "worker_handle option"
  bc_eventWorkerGroupID :: string
  bc_lastError :: "error option"
  bc_lastTimber :: "Timber option"
  bc_lastNewTopic :: string
  bc_isHalt :: bool
  bc_elasticRetrierInterval :: string
  bc_elasticRetrierMaxRetry :: int
  bc_kafka :: 'k

text \<open>What comes from other packages: Kafka, Elasticsearch, the protobuf decoders, identifiers, durations.\<close>

record ('e, 'k) consumer_env =
  ce_kafka :: "'k kafka_env"
  NewConsumerGroup :: "string \<Rightarrow> string \<Rightarrow> initial_offset \<Rightarrow> 'k \<Rightarrow> error option \<times> 'k"
  CloseConsumerGroup :: "string \<Rightarrow> string \<Rightarrow> 'k \<Rightarrow> 'k"
  NewUUID :: "'k \<Rightarrow> string \<times> 'k"
  ce_es :: "'e es_env"
  unmarshalTimber :: "Timber unmarshal"
  unmarshalCollection :: "TimberCollection unmarshal"
  parseDurationNs :: "string \<Rightarrow> int option"

definition ErrConvertKafkaMessage :: error where
  "ErrConvertKafkaMessage = Err ''Convert KafkaMessage Failed''"

definition ErrStore :: error where
  "ErrStore = Err ''Store Failed''"

definition ErrElasticsearchClient :: error where
  "ErrElasticsearchClient = Err ''Elasticsearch Client Failed''"

definition ErrConsumerWorker :: error where
  "ErrConsumerWorker = Err ''Consumer Worker Failed''"

definition ErrMakeAdmin :: error where
  "ErrMakeAdmin = Err ''Make kafka admin failed''"

definition ErrMakeNewTopicWorker :: error where
  "ErrMakeNewTopicWorker = Err ''Make new topic worker failed''"

definition ErrSpawnWorkerOnNewTopic :: error where
  "ErrSpawnWorkerOnNewTopic = Err ''Spawn worker on new topic failed''"

definition ErrSpawnWorker :: error where
  "ErrSpawnWorker = Err ''Span worker failed''"

definition ErrHaltWorker :: error where
  "ErrHaltWorker = Err ''Consumer Worker Halted''"

definition PrefixEventGroupID :: string where
  "PrefixEventGroupID = ''nte''"

definition TimberConvertErrorIndexName :: string where
  "TimberConvertErrorIndexName = ''no_index''"

section \<open>Logging and metrics\<close>

definition logError :: "error \<Rightarrow> ('e, 'k) baritoConsumerService \<Rightarrow> ('e, 'k) baritoConsumerService" where
  "logError err s = s\<lparr>bc_lastError := Some err\<rparr>"

definition logTimber :: "Timber \<Rightarrow> ('e, 'k) baritoConsumerService \<Rightarrow> ('e, 'k) baritoConsumerService" where
  "logTimber timber s = s\<lparr>bc_lastTimber := Some timber\<rparr>"

definition logNewTopic :: "string \<Rightarrow> ('e, 'k) baritoConsumerService \<Rightarrow> ('e, 'k) baritoConsumerService" where
  "logNewTopic topic s = s\<lparr>bc_lastNewTopic := topic\<rparr>"

definition observeC :: "(metrics \<Rightarrow> metrics) \<Rightarrow> ('e, 'k) baritoConsumerService \<Rightarrow> ('e, 'k) baritoConsumerService" where
  "observeC f s = s\<lparr>bc_esClient := (bc_esClient s)\<lparr>es_metrics := f (es_metrics (bc_esClient s))\<rparr>\<rparr>"

section \<open>Stopping, halting\<close>

definition stopWorker :: "worker_handle \<Rightarrow> worker_handle" where
  "stopWorker w = w\<lparr>wh_running := False\<rparr>"

definition closeGroups :: "('e, 'k) consumer_env \<Rightarrow> worker_handle list \<Rightarrow> 'k \<Rightarrow> 'k" where
  "closeGroups env ws k = foldl (\<lambda>k w. CloseConsumerGroup env (wh_group w) (wh_topic w) k) k ws"

definition closeConsumer :: "('e, 'k) consumer_env \<Rightarrow> ('e, 'k) baritoConsumerService \<Rightarrow> ('e, 'k) baritoConsumerService" where
  "closeConsumer env s =
     (let s1 = s\<lparr>bc_workerMap := map (\<lambda>(t, w). (t, stopWorker w)) (bc_workerMap s),
                 bc_kafka := closeGroups env (map snd (bc_workerMap s)) (bc_kafka s)\<rparr>;
          s2 = (case bc_admin s1 of
                  Some a \<Rightarrow> s1\<lparr>bc_kafka := CloseAdmin (ce_kafka env) a (bc_kafka s1)\<rparr>
                | None \<Rightarrow> s1)
      in case bc_newTopicEventWorker s2 of
           Some w \<Rightarrow> s2\<lparr>bc_newTopicEventWorker := Some (stopWorker w), bc_kafka := closeGroups env [w] (bc_kafka s2)\<rparr>
         | None \<Rightarrow> s2)"

definition HaltAllWorker :: "('e, 'k) consumer_env \<Rightarrow> ('e, 'k) baritoConsumerService \<Rightarrow> ('e, 'k) baritoConsumerService" where
  "HaltAllWorker env s =
     (if \<not> bc_isHalt s then closeConsumer env (logError ErrHaltWorker (s\<lparr>bc_isHalt := True\<rparr>)) else s)"

definition concatErr :: "error \<Rightarrow> error option \<Rightarrow> error" where
  "concatErr ctx err = (case err of Some e \<Rightarrow> Concat ctx e | None \<Rightarrow> ctx)"

definition onElasticRetry :: "error option \<Rightarrow> ('e, 'k) baritoConsumerService \<Rightarrow> ('e, 'k) baritoConsumerService" where
  "onElasticRetry err s =
     observeC (IncreaseConsumerElasticsearchClientFailed ''retry'') (logError (concatErr ErrElasticsearchClient err) s)"

definition onElasticMaxRetryReached :: "('e, 'k) consumer_env \<Rightarrow> ('e, 'k) baritoConsumerService \<Rightarrow> ('e, 'k) baritoConsumerService" where
  "onElasticMaxRetryReached env s = HaltAllWorker env s"

text \<open>\<open>utils.ParseDuration\<close> drops the error: a text that is no duration is the duration 0.\<close>

definition ParseDuration :: "(string \<Rightarrow> int option) \<Rightarrow> string \<Rightarrow> int" where
  "ParseDuration parse s = (case parse s of Some d \<Rightarrow> d | None \<Rightarrow> 0)"

definition elasticRetrier :: "('e, 'k) consumer_env \<Rightarrow> ('e, 'k) baritoConsumerService \<Rightarrow> (('e, 'k) baritoConsumerService) ElasticRetrier" where
  "elasticRetrier env s =
     NewElasticRetrier (ParseDuration (parseDurationNs env) (bc_elasticRetrierInterval s)) (bc_elasticRetrierMaxRetry s)
       onElasticRetry (onElasticMaxRetryReached env)"

section \<open>Starting workers\<close>

definition makeConsumerAdmin :: "('e, 'k) consumer_env \<Rightarrow> ('e, 'k) baritoConsumerService \<Rightarrow> (error + kafkaAdmin) \<times> ('e, 'k) baritoConsumerService" where
  "makeConsumerAdmin env s =
     (case NewClient (ce_kafka env) (bc_kafka s) of
        (Inl e, k1) \<Rightarrow> (Inl e, s\<lparr>bc_kafka := k1\<rparr>)
      | (Inr addrs, k1) \<Rightarrow> (Inr (NewKafkaAdmin addrs), s\<lparr>bc_admin := Some (NewKafkaAdmin addrs), bc_kafka := k1\<rparr>))"

definition sleepConsumer :: "('e, 'k) consumer_env \<Rightarrow> ('e, 'k) baritoConsumerService \<Rightarrow> ('e, 'k) baritoConsumerService" where
  "sleepConsumer env s = s\<lparr>bc_kafka := Sleep (ce_kafka env) (bc_kafkaRetryInterval s) (bc_kafka s)\<rparr>"

definition initAdmin :: "('e, 'k) consumer_env \<Rightarrow> ('e, 'k) baritoConsumerService \<Rightarrow>
    ((error + kafkaAdmin) \<times> int \<times> ('e, 'k) baritoConsumerService) option" where
  "initAdmin env s = retryLoop (makeConsumerAdmin env) (\<lambda>s. s) (sleepConsumer env) (bc_kafkaMaxRetry s) 0 s"

definition initNewTopicWorker :: "('e, 'k) consumer_env \<Rightarrow> string \<Rightarrow> ('e, 'k) baritoConsumerService \<Rightarrow>
    error option \<times> ('e, 'k) baritoConsumerService" where
  "initNewTopicWorker env groupID s =
     (let topic = bc_newTopicEventName s
      in case NewConsumerGroup env groupID topic OffsetNewest (bc_kafka s) of
           (Some e, k1) \<Rightarrow> (Some e, s\<lparr>bc_kafka := k1\<rparr>)
         | (None, k1) \<Rightarrow>
             (None, s\<lparr>bc_kafka := k1,
                bc_newTopicEventWorker :=
                  Some \<lparr>wh_topic = topic, wh_group = groupID, wh_offset = OffsetNewest, wh_running = False\<rparr>\<rparr>))"

text \<open>
  The factory's part in this: the group, with the offset in a copy of its settings, and the adapter over it.
  The goroutine it starts is \<^const>\<open>consumeLoop\<close>. The services keep a \<open>worker_handle\<close> in place of the
  adapter and its worker, whose steps are in \<open>Consumer_Worker\<close>.
\<close>

definition MakeClusterConsumer :: "('e, 'k) consumer_env \<Rightarrow> string \<Rightarrow> string \<Rightarrow> initial_offset \<Rightarrow> 'k \<Rightarrow> (error + adapter) \<times> 'k" where
  "MakeClusterConsumer env groupID topic initialOffset k =
     (case NewConsumerGroup env groupID topic initialOffset k of
        (Some e, k1) \<Rightarrow> (Inl e, k1)
      | (None, k1) \<Rightarrow> (Inr (newConsumerGroupAdapter [topic]), k1))"

definition groupFor :: "('e, 'k) baritoConsumerService \<Rightarrow> string \<Rightarrow> string" where
  "groupFor s topic = (if bc_uniqueGroupID s then bc_groupID s @ ''_'' @ topic else bc_groupID s)"

definition spawnLogsWorker :: "('e, 'k) consumer_env \<Rightarrow> string \<Rightarrow> initial_offset \<Rightarrow> ('e, 'k) baritoConsumerService \<Rightarrow>
    error option \<times> ('e, 'k) baritoConsumerService" where
  "spawnLogsWorker env topic initialOffset s =
     (case NewConsumerGroup env (groupFor s topic) topic initialOffset (bc_kafka s) of
        (Some e, k1) \<Rightarrow> (Some (Concat ErrConsumerWorker e), s\<lparr>bc_kafka := k1\<rparr>)
      | (None, k1) \<Rightarrow>
          (None, s\<lparr>bc_kafka := k1,
             bc_workerMap := AList.update topic
               \<lparr>wh_topic = topic, wh_group = groupFor s topic, wh_offset = initialOffset, wh_running = True\<rparr> (bc_workerMap s)\<rparr>))"

text \<open>A worker is spawned exactly when the factory has made its consumer, which reads that topic alone.\<close>

lemma spawnLogsWorker_consumer:
  "case MakeClusterConsumer env (groupFor s topic) topic offset (bc_kafka s) of
     (Inl e, k1) \<Rightarrow> spawnLogsWorker env topic offset s = (Some (Concat ErrConsumerWorker e), s\<lparr>bc_kafka := k1\<rparr>)
   | (Inr a, k1) \<Rightarrow> ad_topics a = [topic] \<and> worker_init (NewConsumerWorker topic) [topic] x
         \<lparr>wk = NewConsumerWorker topic, ad = a, pc = NotRunning, started = False, stopSignals = 0, wmetrics = [],
          world = x, arrived = [], processed = []\<rparr>
       \<and> fst (spawnLogsWorker env topic offset s) = None"
  by (auto simp: MakeClusterConsumer_def spawnLogsWorker_def worker_init_def NewConsumerWorker_def newConsumerGroupAdapter_def
      split: prod.splits option.splits)

definition wantsTopic :: "('e, 'k) baritoConsumerService \<Rightarrow> string \<Rightarrow> bool" where
  "wantsTopic s topic \<longleftrightarrow> HasPrefix topic (bc_topicPrefix s) \<and> HasSuffix topic (bc_topicSuffix s)"

text \<open>The text of a plain error, the only kind whose text the code puts into a metric.\<close>

definition Error :: "error \<Rightarrow> string" where
  "Error e = (case e of Err m \<Rightarrow> m | _ \<Rightarrow> [])"

text \<open>The loop of \<open>Start\<close> over the topics of the cluster.\<close>

fun spawnWorkers :: "('e, 'k) consumer_env \<Rightarrow> string list \<Rightarrow> ('e, 'k) baritoConsumerService \<Rightarrow> ('e, 'k) baritoConsumerService" where
  "spawnWorkers env [] s = s"
| "spawnWorkers env (topic # ts) s =
     (if wantsTopic s topic
      then case spawnLogsWorker env topic OffsetNewest s of
             (None, s1) \<Rightarrow> spawnWorkers env ts s1
           | (Some e, s1) \<Rightarrow>
               spawnWorkers env ts
                 (closeConsumer env
                   (observeC (IncreaseConsumerTimberConvertError (topic @ ''_'' @ Error ErrSpawnWorker))
                     (logError (Concat ErrSpawnWorker e) s1)))
      else spawnWorkers env ts s)"

definition startEventWorker :: "('e, 'k) baritoConsumerService \<Rightarrow> ('e, 'k) baritoConsumerService" where
  "startEventWorker s =
     s\<lparr>bc_newTopicEventWorker := map_option (\<lambda>w. w\<lparr>wh_running := True\<rparr>) (bc_newTopicEventWorker s)\<rparr>"

text \<open>\<^const>\<open>None\<close> when the connection is never made; else the error returned, and the state.\<close>

definition startConsumer :: "('e, 'k) consumer_env \<Rightarrow> ('e, 'k) baritoConsumerService \<Rightarrow>
    (error option \<times> ('e, 'k) baritoConsumerService) option" where
  "startConsumer env s =
     (case initAdmin env s of
        None \<Rightarrow> None
      | Some (Inl e, _, s1) \<Rightarrow> Some (Some (Concat ErrMakeAdmin e), s1)
      | Some (Inr a, _, s1) \<Rightarrow>
          (let (uuid, k2) = NewUUID env (bc_kafka s1);
               s2 = s1\<lparr>bc_kafka := k2, bc_eventWorkerGroupID := PrefixEventGroupID @ ''-'' @ uuid\<rparr>
           in case initNewTopicWorker env (bc_eventWorkerGroupID s2) s2 of
                (Some e, s3) \<Rightarrow>
                  Some (Some (Concat ErrMakeNewTopicWorker e),
                    observeC (IncreaseConsumerTimberConvertError TimberConvertErrorIndexName)
                      (logError (Concat ErrMakeNewTopicWorker e) s3))
              | (None, s3) \<Rightarrow>
                  (let s4 = startEventWorker s3;
                       (ts, a1, k5) = Topics (ce_kafka env) a (bc_kafka s4);
                       s5 = s4\<lparr>bc_admin := Some a1, bc_kafka := k5\<rparr>
                   in Some (None, spawnWorkers env ts s5))))"

definition ResumeWorker :: "('e, 'k) consumer_env \<Rightarrow> ('e, 'k) baritoConsumerService \<Rightarrow>
    (error option \<times> ('e, 'k) baritoConsumerService) option" where
  "ResumeWorker env s = startConsumer env (s\<lparr>bc_isHalt := False\<rparr>)"

definition onNewTopicEvent :: "('e, 'k) consumer_env \<Rightarrow> ConsumerMessage \<Rightarrow> ('e, 'k) baritoConsumerService \<Rightarrow> ('e, 'k) baritoConsumerService" where
  "onNewTopicEvent env message s =
     (let topic = cmValue message
      in if map_of (bc_workerMap s) topic \<noteq> None then s
         else if \<not> HasPrefix topic (bc_topicPrefix s) then s
         else case spawnLogsWorker env topic OffsetOldest s of
                (None, s1) \<Rightarrow> logNewTopic topic s1
              | (Some e, s1) \<Rightarrow>
                  closeConsumer env
                    (observeC (IncreaseConsumerTimberConvertError (topic @ ''_'' @ Error ErrSpawnWorkerOnNewTopic))
                      (logError (Concat ErrSpawnWorkerOnNewTopic e) s1)))"

section \<open>Storing a message\<close>

fun getKafkaMessageFormat :: "(string \<times> string) list \<Rightarrow> string" where
  "getKafkaMessageFormat [] = TimberMessageFormat"
| "getKafkaMessageFormat ((k, v) # hs) = (if k = MessageFormatHeaderKey then v else getKafkaMessageFormat hs)"

text \<open>A message as the collection it carries, whichever of the two formats it has.\<close>

definition collectionOf :: "('e, 'k) consumer_env \<Rightarrow> ConsumerMessage \<Rightarrow> error + TimberCollection" where
  "collectionOf env message =
     (if getKafkaMessageFormat (cmHeaders message) = TimberCollectionMessageFormat
      then ConvertKafkaMessageToTimberCollection (unmarshalCollection env) message
      else case ConvertKafkaMessageToTimber (unmarshalTimber env) message of
             Inl e \<Rightarrow> Inl e
           | Inr timber \<Rightarrow> Inr \<lparr>cContext = tContext timber, cItems = [timber]\<rparr>)"

fun storeItems :: "('e, 'k) consumer_env \<Rightarrow> TimberContext option \<Rightarrow> Timber list \<Rightarrow> ('e, 'k) baritoConsumerService \<Rightarrow>
    ('e, 'k) baritoConsumerService go option" where
  "storeItems env c [] s = Some (Ret s)"
| "storeItems env c (timber # items) s =
     (case Store (ce_es env) (timber\<lparr>tContext := c\<rparr>) (bc_esClient s) of
        None \<Rightarrow> None
      | Some (Panic p) \<Rightarrow> Some (Panic p)
      | Some (Ret (err, timber1, client1)) \<Rightarrow>
          let s1 = s\<lparr>bc_esClient := client1\<rparr>
          in case err of
               Some e \<Rightarrow> Some (Ret (logError (Concat ErrStore e) s1))
             | None \<Rightarrow> storeItems env c items (logTimber timber1 s1))"

definition onStoreTimber :: "('e, 'k) consumer_env \<Rightarrow> ConsumerMessage \<Rightarrow> ('e, 'k) baritoConsumerService \<Rightarrow>
    ('e, 'k) baritoConsumerService go option" where
  "onStoreTimber env message s =
     (case collectionOf env message of
        Inl e \<Rightarrow> Some (Ret (logError (Concat ErrConvertKafkaMessage e) s))
      | Inr timberCollection \<Rightarrow> storeItems env (cContext timberCollection) (cItems timberCollection) s)"

section \<open>Making the service\<close>

text \<open>
  The method \<open>Redact\<close> of a pointer to a \<open>Redactor\<close>; \<^const>\<open>None\<close> is the nil pointer, on which it panics
  when it takes the lock. The rules are those in force at the time of the call.
\<close>

definition redactMethod :: "json_codec \<Rightarrow> Redactor option \<Rightarrow> redact_fun" where
  "redactMethod codec r indexName document ms =
     (case r of
        None \<Rightarrow> Panic ''nil pointer dereference''
      | Some x \<Rightarrow> Redactor_Redact codec x indexName document ms)"

text \<open>
  An HTTP client: plain, or with the certificates for mutual TLS. \<open>readFile\<close> is \<open>os.ReadFile\<close>, with the empty
  text for a file that cannot be read, since that error is dropped; \<open>loadPair\<close> is \<open>tls.LoadX509KeyPair\<close>.
\<close>

record tls_config =
  RootCAs :: string
  Certificates :: "string list"

type_synonym http_client = "tls_config option"

record tls_files =
  readFile :: "string \<Rightarrow> string"
  loadPair :: "string \<Rightarrow> string \<Rightarrow> error + string"

definition newHttpClientWithTLS :: "tls_files \<Rightarrow> string \<Rightarrow> string \<Rightarrow> string \<Rightarrow> http_client go" where
  "newHttpClientWithTLS files caCrt clientCrt clientKey =
     (case loadPair files clientCrt clientKey of
        Inl err \<Rightarrow> Panic ''failed to create http client with tls''
      | Inr cert \<Rightarrow> Ret (Some \<lparr>RootCAs = readFile files caCrt, Certificates = [cert]\<rparr>))"

text \<open>
  The parameters, by their names in the map that \<open>ActionBaritoConsumerService\<close> fills; \<open>p_tls\<close> has the names of
  the files of the CA, the certificate and the key when the map has \<open>elasticCaCrt\<close>. The value under \<open>redactor\<close> is a
  pointer stored in an interface: the interface is not nil even when the pointer is.
\<close>

record consumer_params =
  p_groupID :: string
  p_uniqueGroupID :: bool
  p_topicPrefix :: string
  p_topicSuffix :: string
  p_kafkaMaxRetry :: int
  p_kafkaRetryInterval :: int
  p_newTopicEventName :: string
  p_elasticRetrierInterval :: string
  p_elasticRetrierMaxRetry :: int
  p_esConfig :: esConfig
  p_redactor :: "Redactor option"
  p_tls :: "(string \<times> string \<times> string) option"

text \<open>\<open>newClient\<close> is \<open>elastic.NewClient\<close> with an HTTP client, its error; \<open>bulkErr\<close> that of starting the bulk processor.\<close>

definition NewBaritoConsumerService :: "json_codec \<Rightarrow> tls_files \<Rightarrow> (http_client \<Rightarrow> error option) \<Rightarrow> error option \<Rightarrow> consumer_params \<Rightarrow>
    metrics \<Rightarrow> instru \<Rightarrow> 'e \<Rightarrow> 'k \<Rightarrow> ('e, 'k) baritoConsumerService go" where
  "NewBaritoConsumerService codec files newClient bulkErr p ms i e k =
     go_bind (case p_tls p of
                None \<Rightarrow> Ret None
              | Some (caCrt, clientCrt, clientKey) \<Rightarrow> newHttpClientWithTLS files caCrt clientCrt clientKey) (\<lambda>httpClient.
       let (err, client) = NewElastic (newClient httpClient) bulkErr (p_esConfig p) ms i e;
           s = \<lparr>bc_groupID = p_groupID p, bc_uniqueGroupID = p_uniqueGroupID p,
                bc_esClient = WithRedactor (redactMethod codec (p_redactor p)) client,
                bc_topicPrefix = p_topicPrefix p, bc_topicSuffix = p_topicSuffix p,
                bc_kafkaMaxRetry = p_kafkaMaxRetry p, bc_kafkaRetryInterval = p_kafkaRetryInterval p,
                bc_newTopicEventName = p_newTopicEventName p, bc_workerMap = [], bc_admin = None,
                bc_newTopicEventWorker = None, bc_eventWorkerGroupID = [], bc_lastError = None, bc_lastTimber = None,
                bc_lastNewTopic = [], bc_isHalt = False, bc_elasticRetrierInterval = p_elasticRetrierInterval p,
                bc_elasticRetrierMaxRetry = p_elasticRetrierMaxRetry p, bc_kafka = k\<rparr>
       in Ret (case err of
                 None \<Rightarrow> s
               | Some x \<Rightarrow>
                   observeC (IncreaseConsumerElasticsearchClientFailed ''init'')
                     (logError (Concat ErrElasticsearchClient x) s)))"

section \<open>Storing in order\<close>

text \<open>The documents that a list of stored items adds, with the index and redaction of each.\<close>

definition storedAs :: "('e, 'k) consumer_env \<Rightarrow> redact_fun \<Rightarrow> TimberContext option \<Rightarrow> Timber \<Rightarrow> string \<times> string \<Rightarrow> bool" where
  "storedAs env red c t d \<longleftrightarrow>
     (\<exists>doc ms ms'. fst (ConvertTimberToEsDocumentString (structJson (ce_es env)) (t\<lparr>tContext := c\<rparr>)) = Inr doc
        \<and> red (GetEsIndexPrefix c) doc ms = Ret (Inr (snd d), ms'))"

lemma Store_redactor:
  assumes "Store env t c = Some (Ret (err, t', c'))"
  shows "redactor c' = redactor c"
  using assms by (cases rule: Store_cases) simp_all

lemma storeItems_effect:
  assumes "storeItems env c items s = Some (Ret s')"
  shows "\<exists>ds. documents (es_calls (bc_esClient s')) = documents (es_calls (bc_esClient s)) @ ds
    \<and> length ds \<le> length items
    \<and> list_all2 (storedAs env (redactor (bc_esClient s)) c) (take (length ds) items) ds
    \<and> (length ds < length items \<longrightarrow> (\<exists>e. bc_lastError s' = Some (Concat ErrStore e)))
    \<and> (length ds = length items \<longrightarrow> bc_lastError s' = bc_lastError s)"
  using assms
proof (induction items arbitrary: s)
  case (Cons t items)
  obtain err t1 c1 where st: "Store (ce_es env) (t\<lparr>tContext := c\<rparr>) (bc_esClient s) = Some (Ret (err, t1, c1))"
    using Cons.prems by (auto split: option.splits go.splits)
  note red = Store_redactor [OF st]
  show ?case
  proof (cases err)
    case (Some e)
    with Cons.prems st Store_nothing [of "ce_es env" "t\<lparr>tContext := c\<rparr>" "bc_esClient s" e t1 c1] show ?thesis
      by (intro exI [of _ "[]"]) (auto simp: logError_def Let_def)
  next
    case None
    let ?s1 = "logTimber t1 (s\<lparr>bc_esClient := c1\<rparr>)"
    obtain doc doc' ms ms' i where d: "fst (ConvertTimberToEsDocumentString (structJson (ce_es env)) (t\<lparr>tContext := c\<rparr>)) = Inr doc"
        "redactor (bc_esClient s) (GetEsIndexPrefix c) doc ms = Ret (Inr doc', ms')"
        "documents (es_calls c1) = documents (es_calls (bc_esClient s)) @ [(i, doc')]"
      using Store_stored [of "ce_es env" "t\<lparr>tContext := c\<rparr>" "bc_esClient s" t1 c1] st None by auto
    have "storeItems env c items ?s1 = Some (Ret s')" using Cons.prems st None by (simp add: Let_def)
    from Cons.IH [OF this] obtain ds where ds:
        "documents (es_calls (bc_esClient s')) = documents (es_calls c1) @ ds" "length ds \<le> length items"
        "list_all2 (storedAs env (redactor c1) c) (take (length ds) items) ds"
        "length ds < length items \<longrightarrow> (\<exists>e. bc_lastError s' = Some (Concat ErrStore e))"
        "length ds = length items \<longrightarrow> bc_lastError s' = bc_lastError s"
      by (auto simp: logTimber_def)
    have "storedAs env (redactor (bc_esClient s)) c t (i, doc')" using d(1,2) by (auto simp: storedAs_def)
    with ds d(3) red show ?thesis by (intro exI [of _ "(i, doc') # ds"]) auto
  qed
qed auto

text \<open>
  C17. Storing a message stores a prefix of it: when \<open>onStoreTimber\<close> returns for a message that decodes to
  a collection, Elasticsearch was handed the documents of the first items, redacted under the collection's
  index prefix, in order and each once; all of them if no error was logged, and otherwise the error logged
  is the store error of the next item. A message that does not decode stores nothing and logs that.
\<close>

theorem onStoreTimber_stores_prefix:
  assumes "onStoreTimber env message s = Some (Ret s')"
  shows "(\<forall>tc. collectionOf env message = Inr tc \<longrightarrow>
      (\<exists>ds. documents (es_calls (bc_esClient s')) = documents (es_calls (bc_esClient s)) @ ds
        \<and> length ds \<le> length (cItems tc)
        \<and> list_all2 (storedAs env (redactor (bc_esClient s)) (cContext tc)) (take (length ds) (cItems tc)) ds
        \<and> (length ds < length (cItems tc) \<longrightarrow> (\<exists>e. bc_lastError s' = Some (Concat ErrStore e)))))
    \<and> (\<forall>e. collectionOf env message = Inl e \<longrightarrow> s' = s\<lparr>bc_lastError := Some (Concat ErrConvertKafkaMessage e)\<rparr>)"
  using assms storeItems_effect [of env _ _ s s'] unfolding onStoreTimber_def
  by (cases "collectionOf env message") (auto simp: logError_def, metis)

text \<open>A service for the witnesses, over the cluster \<open>demo_es\<close> with an index method and a fate of inserts.\<close>

definition demo_cenv :: "(error + bool) \<Rightarrow> error option \<Rightarrow> (string \<Rightarrow> error option) \<Rightarrow> (unit, unit) consumer_env" where
  "demo_cenv found fate grp =
     \<lparr>ce_kafka = quiet_kafka (Inr []), NewConsumerGroup = (\<lambda>g t offs k. (grp t, k)), CloseConsumerGroup = (\<lambda>g t k. k),
      NewUUID = (\<lambda>k. (''uuid'', k)), ce_es = demo_es found fate, unmarshalTimber = (\<lambda>v. Inr demo_log),
      unmarshalCollection = (\<lambda>v. Inl (Err ''no collection'')), parseDurationNs = (\<lambda>_. Some 30000000000)\<rparr>"

definition demo_consumer :: "string \<Rightarrow> (unit, unit) baritoConsumerService" where
  "demo_consumer method =
     \<lparr>bc_groupID = ''group'', bc_uniqueGroupID = True, bc_esClient = demo_client method, bc_topicPrefix = ''p_'',
      bc_topicSuffix = ''_pb'', bc_kafkaMaxRetry = 0, bc_kafkaRetryInterval = 10, bc_newTopicEventName = ''events'',
      bc_workerMap = [], bc_admin = None, bc_newTopicEventWorker = None, bc_eventWorkerGroupID = [], bc_lastError = None,
      bc_lastTimber = None, bc_lastNewTopic = [], bc_isHalt = False, bc_elasticRetrierInterval = ''30s'',
      bc_elasticRetrierMaxRetry = 10, bc_kafka = ()\<rparr>"

lemma demo_collection:
  "collectionOf (demo_cenv found fate grp) demo_message = Inr \<lparr>cContext = tContext demo_log, cItems = [demo_log]\<rparr>"
  by (simp add: collectionOf_def demo_message_def demo_cenv_def ConvertKafkaMessageToTimber_def
      TimberCollectionMessageFormat_def TimberMessageFormat_def)

lemma demo_consumer_simps [simp]:
  "ce_es (demo_cenv found fate grp) = demo_es found fate" "bc_esClient (demo_consumer method) = demo_client method"
  "bc_lastError (demo_consumer method) = None"
  by (simp_all add: demo_cenv_def demo_consumer_def)

theorem onStoreTimber_stores_prefix_witness:
  "\<exists>s' ds. onStoreTimber (demo_cenv (Inr True) None (\<lambda>_. None)) demo_message (demo_consumer ''BulkProcessor'') = Some (Ret s')
    \<and> documents (es_calls (bc_esClient s')) = ds \<and> length ds \<le> 1"
proof -
  let ?env = "demo_cenv (Inr True) None (\<lambda>_. None)" and ?s = "demo_consumer ''BulkProcessor''"
  have "\<exists>t' c'. Store (demo_es (Inr True) None) demo_log (demo_client ''BulkProcessor'') = Some (Ret (None, t', c'))"
    by (simp add: store_defs demo_es_def demo_client_def demo_log_def)
  then obtain s' where s': "onStoreTimber ?env demo_message ?s = Some (Ret s')"
    by (auto simp: onStoreTimber_def demo_collection)
  have "documents (es_calls (bc_esClient ?s)) = []" by (simp add: demo_consumer_def demo_client_def store_defs)
  with onStoreTimber_stores_prefix [OF s'] s' demo_collection show ?thesis by (intro exI [of _ s']) auto
qed



end
