(* ===== verification/Consumer_Lifecycle.thy ===== *)
theory Consumer_Lifecycle
  imports Consumer_Service
begin

text \<open>
  Which workers of the consumer run: after a start, after an event on a new topic, after a failure to
  start one, and after Elasticsearch has been given up.
\<close>

section \<open>What closing keeps\<close>

definition workers :: "('e, 'k) baritoConsumerService \<Rightarrow> string \<rightharpoonup> worker_handle" where
  "workers s = map_of (bc_workerMap s)"

definition settings :: "('e, 'k) baritoConsumerService \<Rightarrow> string \<times> bool \<times> string \<times> string" where
  "settings s = (bc_groupID s, bc_uniqueGroupID s, bc_topicPrefix s, bc_topicSuffix s)"

lemma settings_cong:
  "settings s = settings s' \<Longrightarrow> wantsTopic s = wantsTopic s'"
  "settings s = settings s' \<Longrightarrow> groupFor s = groupFor s'"
  by (auto simp: settings_def wantsTopic_def groupFor_def fun_eq_iff)

lemma workers_closeConsumer [simp]: "workers (closeConsumer env s) t = map_option stopWorker (workers s t)"
  by (auto simp: workers_def closeConsumer_def Let_def map_of_map split: option.splits)

lemma closeConsumer_frame [simp]:
  "settings (closeConsumer env s) = settings s" "bc_isHalt (closeConsumer env s) = bc_isHalt s"
  "bc_newTopicEventWorker (closeConsumer env s) = map_option stopWorker (bc_newTopicEventWorker s)"
  by (auto simp: settings_def closeConsumer_def Let_def split: option.splits)

lemma log_frame [simp]:
  "workers (logError e s) = workers s" "settings (logError e s) = settings s"
  "workers (observeC f s) = workers s" "settings (observeC f s) = settings s"
  "bc_isHalt (observeC f s) = bc_isHalt s" "bc_isHalt (logError e s) = bc_isHalt s"
  "bc_newTopicEventWorker (observeC f s) = bc_newTopicEventWorker s"
  "bc_newTopicEventWorker (logError e s) = bc_newTopicEventWorker s"
  "workers (logNewTopic t s) = workers s" "settings (logNewTopic t s) = settings s"
  by (simp_all add: workers_def settings_def logError_def observeC_def logNewTopic_def)

definition newWorker :: "('e, 'k) baritoConsumerService \<Rightarrow> string \<Rightarrow> initial_offset \<Rightarrow> worker_handle" where
  "newWorker s topic offs = \<lparr>wh_topic = topic, wh_group = groupFor s topic, wh_offset = offs, wh_running = True\<rparr>"

lemma spawnLogsWorker_effect:
  assumes "spawnLogsWorker env topic offs s = (err, s')"
  shows "settings s' = settings s \<and> bc_newTopicEventWorker s' = bc_newTopicEventWorker s
    \<and> (err = None \<longleftrightarrow> fst (NewConsumerGroup env (groupFor s topic) topic offs (bc_kafka s)) = None)
    \<and> workers s' = (if err = None then (workers s)(topic \<mapsto> newWorker s topic offs) else workers s)"
  using assms
  by (auto simp: spawnLogsWorker_def settings_def workers_def newWorker_def update_conv' split: prod.splits option.splits)

lemma newWorker_cong: "settings s = settings s' \<Longrightarrow> newWorker s = newWorker s'"
  by (auto simp: newWorker_def fun_eq_iff dest: settings_cong(2))

section \<open>Starting\<close>

text \<open>Whether Kafka lets a group join depends on the topic only, during one start.\<close>

definition refuses :: "('e, 'k) consumer_env \<Rightarrow> string set \<Rightarrow> bool" where
  "refuses env bad \<longleftrightarrow> (\<forall>g t offs k. fst (NewConsumerGroup env g t offs k) \<noteq> None \<longleftrightarrow> t \<in> bad)"

lemma spawn_refused:
  assumes "refuses env bad" and "spawnLogsWorker env t offs s = (err, s')"
  shows "err = None \<longleftrightarrow> t \<notin> bad"
proof -
  have "err = None \<longleftrightarrow> fst (NewConsumerGroup env (groupFor s t) t offs (bc_kafka s)) = None"
    using spawnLogsWorker_effect [OF assms(2)] by blast
  with assms(1) show ?thesis unfolding refuses_def by blast
qed

lemma spawnWorkers_frame: "settings (spawnWorkers env ts s) = settings s"
proof (induction ts arbitrary: s)
  case (Cons t ts)
  obtain err s1 where "spawnLogsWorker env t OffsetNewest s = (err, s1)" by fastforce
  with spawnLogsWorker_effect [OF this] Cons show ?case by (cases err) auto
qed simp

lemma spawnWorkers_append: "spawnWorkers env (ts @ ts') s = spawnWorkers env ts' (spawnWorkers env ts s)"
  by (induction ts arbitrary: s) (auto split: prod.splits option.splits)

lemma spawnWorkers_all:
  assumes "refuses env bad" and "\<forall>t\<in>set ts. wantsTopic s t \<longrightarrow> t \<notin> bad"
  shows "workers (spawnWorkers env ts s) t =
    (if t \<in> set ts \<and> wantsTopic s t then Some (newWorker s t OffsetNewest) else workers s t)"
  using assms(2)
proof (induction ts arbitrary: s)
  case (Cons u ts)
  show ?case
  proof (cases "wantsTopic s u")
    case True
    obtain err s1 where sp: "spawnLogsWorker env u OffsetNewest s = (err, s1)" by fastforce
    have "err = None" using spawn_refused [OF assms(1) sp] Cons.prems True by simp
    with spawnLogsWorker_effect [OF sp] have s1: "settings s1 = settings s"
      "workers s1 = (workers s)(u \<mapsto> newWorker s u OffsetNewest)" by auto
    have "workers (spawnWorkers env ts s1) t =
        (if t \<in> set ts \<and> wantsTopic s1 t then Some (newWorker s1 t OffsetNewest) else workers s1 t)"
      using Cons.prems settings_cong(1) [OF s1(1)] by (intro Cons.IH) auto
    with True sp \<open>err = None\<close> s1 settings_cong(1) [OF s1(1)] newWorker_cong [OF s1(1)] show ?thesis by auto
  next
    case False
    with Cons show ?thesis by auto
  qed
qed simp

text \<open>
  C23. Starting covers exactly the topics asked for: when Kafka lets every group join, then after the loop
  of \<open>Start\<close> over the cluster's topics each topic that has the configured prefix and suffix has a running
  worker of its own, in the group configured for it and reading from the newest offset, and the workers of
  all other topics are as before.
\<close>

theorem spawnWorkers_correct:
  assumes "refuses env {}"
  shows "workers (spawnWorkers env ts s) =
    (\<lambda>t. if t \<in> set ts \<and> prefix (bc_topicPrefix s) t \<and> suffix (bc_topicSuffix s) t
         then Some \<lparr>wh_topic = t, wh_group = (if bc_uniqueGroupID s then bc_groupID s @ ''_'' @ t else bc_groupID s),
                    wh_offset = OffsetNewest, wh_running = True\<rparr>
         else workers s t)"
  using spawnWorkers_all [OF assms, of ts s]
  by (auto simp: fun_eq_iff wantsTopic_def newWorker_def groupFor_def go_str)

theorem spawnWorkers_correct_witness:
  "workers (spawnWorkers (demo_cenv (Inr True) None (\<lambda>_. None)) [''p_a_pb'', ''p_a'', ''x_pb''] (demo_consumer ''BulkProcessor'')) ''p_a_pb''
    = Some \<lparr>wh_topic = ''p_a_pb'', wh_group = ''group_p_a_pb'', wh_offset = OffsetNewest, wh_running = True\<rparr>
  \<and> workers (spawnWorkers (demo_cenv (Inr True) None (\<lambda>_. None)) [''p_a_pb'', ''p_a'', ''x_pb''] (demo_consumer ''BulkProcessor'')) ''p_a'' = None"
proof -
  let ?env = "demo_cenv (Inr True) None (\<lambda>_. None)"
  have "refuses ?env {}" by (simp add: refuses_def demo_cenv_def)
  from spawnWorkers_correct [OF this, of "[''p_a_pb'', ''p_a'', ''x_pb'']" "demo_consumer ''BulkProcessor''"] show ?thesis
    by (simp add: demo_consumer_def workers_def suffix_def)
qed



section \<open>Events on new topics\<close>

text \<open>
  C25. An event on a new topic starts a worker once: when Kafka lets the group join, an event whose topic has
  no worker yet and has the configured prefix starts one, from the oldest offset, so that nothing written
  before the event is missed; any other event, in particular a repeated one, changes nothing. The suffix is
  not looked at: an event also starts a worker for a topic that a start of the service would leave out.
\<close>

theorem onNewTopicEvent_correct:
  assumes "refuses env {}"
  shows "workers (onNewTopicEvent env message s) =
      (if workers s (cmValue message) = None \<and> prefix (bc_topicPrefix s) (cmValue message)
       then (workers s)(cmValue message \<mapsto> newWorker s (cmValue message) OffsetOldest) else workers s)
    \<and> onNewTopicEvent env message (onNewTopicEvent env message s) = onNewTopicEvent env message s"
proof -
  let ?t = "cmValue message"
  obtain err s1 where sp: "spawnLogsWorker env ?t OffsetOldest s = (err, s1)" by fastforce
  have err: "err = None" using spawn_refused [OF assms sp] by simp
  have s1: "workers s1 = (workers s)(?t \<mapsto> newWorker s ?t OffsetOldest)"
    using spawnLogsWorker_effect [OF sp] err by simp
  show ?thesis
  proof (cases "workers s ?t = None \<and> prefix (bc_topicPrefix s) ?t")
    case True
    then have "onNewTopicEvent env message s = logNewTopic ?t s1"
      using sp err by (simp add: onNewTopicEvent_def workers_def go_str Let_def)
    moreover from this s1 have "map_of (bc_workerMap (onNewTopicEvent env message s)) ?t \<noteq> None"
      by (simp add: workers_def logNewTopic_def)
    then have "onNewTopicEvent env message (onNewTopicEvent env message s) = onNewTopicEvent env message s"
      by (simp add: onNewTopicEvent_def [of env message "onNewTopicEvent env message s"] Let_def)
    ultimately show ?thesis using True s1 by simp
  next
    case False
    then have "onNewTopicEvent env message s = s" by (auto simp: onNewTopicEvent_def workers_def go_str Let_def)
    with False show ?thesis by auto
  qed
qed

theorem onNewTopicEvent_correct_witness:
  "workers (onNewTopicEvent (demo_cenv (Inr True) None (\<lambda>_. None)) (demo_message\<lparr>cmValue := ''p_new''\<rparr>) (demo_consumer ''BulkProcessor''))
      ''p_new'' = Some \<lparr>wh_topic = ''p_new'', wh_group = ''group_p_new'', wh_offset = OffsetOldest, wh_running = True\<rparr>
   \<and> \<not> wantsTopic (demo_consumer ''BulkProcessor'') ''p_new''"
proof -
  let ?env = "demo_cenv (Inr True) None (\<lambda>_. None)"
  have "refuses ?env {}" by (simp add: refuses_def demo_cenv_def)
  from onNewTopicEvent_correct [OF this, of "demo_message\<lparr>cmValue := ''p_new''\<rparr>" "demo_consumer ''BulkProcessor''"] show ?thesis
    by (simp add: demo_consumer_def workers_def newWorker_def groupFor_def wantsTopic_def HasSuffix_def)
qed

section \<open>Giving up on Elasticsearch\<close>



section \<open>A redactor that is not there\<close>

text \<open>
  A service made with a nil pointer as its redactor keeps it instead of the dummy redactor, since the
  interface holding it is not nil; every call of it panics, and so does storing a log that converts to a
  document, if it gets past waiting for the index.
\<close>

lemma nil_redactor:
  assumes "NewBaritoConsumerService codec files newClient bulkErr p ms i e k = Ret s" and "p_redactor p = None"
  shows "redactor (bc_esClient s) x y z = Panic ''nil pointer dereference''"
  using assms
  by (auto simp: NewBaritoConsumerService_def WithRedactor_def redactMethod_def logError_def observeC_def split_beta Let_def
      go_bind_Ret_iff split: option.splits)

lemma Store_nil_redactor:
  assumes "\<And>x y z. redactor c x y z = Panic ''nil pointer dereference''"
    and "fst (ConvertTimberToEsDocumentString (structJson env) t) = Inr doc"
  shows "Store env t c = None \<or> (\<exists>msg. Store env t c = Some (Panic msg))"
proof (cases "Store env t c")
  case (Some r)
  show ?thesis
  proof (cases r)
    case (Ret x)
    obtain err t' c' where "x = (err, t', c')" by (metis prod_cases3)
    with Some Ret have "Store env t c = Some (Ret (err, t', c'))" by simp
    then show ?thesis by (cases rule: Store_cases) (use assms in simp_all)
  qed (use Some in simp)
qed simp

end
