(* ===== verification/GCS_Output.thy ===== *)
theory GCS_Output
  imports Convert Metrics
begin

text \<open>
  The output to Google Cloud Storage of \<open>flow/consumer_output_gcs.go\<close>: messages are appended to a file,
  and when enough has been written or enough time has passed the file is uploaded as one object, the
  callbacks are told, and a new file is begun. The file system, the storage client and the compressors are
  parameters, functions of an arbitrary state \<open>'w\<close> of the outside world.
\<close>

section \<open>State\<close>

definition ErrorGCSBufferFull :: error where
  "ErrorGCSBufferFull = Err ''GCS buffer is full''"

definition ErrorGCSStop :: error where
  "ErrorGCSStop = Err ''GCS is stopped''"

text \<open>
  An uploaded object: which compressor wrote it, whether that compressor was closed before the object was
  (an unclosed one has not written its last block and trailer), and the text that went in.
\<close>

datatype encoding = Zstd | Gzip

record gcs_object =
  ob_name :: string
  ob_encoding :: encoding
  ob_closed :: bool
  ob_text :: string

record 'w GCS =
  g_name :: string
  g_projectID :: string
  g_bucketName :: string
  g_bucketPath :: string
  g_flushMaxBytes :: int
  g_flushMaxTime :: int
  g_buffer :: string
  g_onFlushFunc :: "('w \<Rightarrow> error option \<times> 'w) list"
  g_compressor :: string
  g_isStop :: bool
  g_bytesCounter :: int
  g_metrics :: metrics
  g_objects :: "gcs_object list"
  g_world :: 'w

text \<open>
  \<open>WriteFile\<close> says how many bytes it wrote, and an error if that is not all; \<open>CopyTo\<close> is \<open>io.Copy\<close> into the
  compressor, \<open>CloseCompressor\<close> and \<open>CloseObject\<close> end the upload, each possibly with an error.
\<close>

record 'w gcs_env =
  WriteFile :: "string \<Rightarrow> 'w \<Rightarrow> (nat \<times> error option) \<times> 'w"
  CreateTemp :: "string \<Rightarrow> 'w \<Rightarrow> error option \<times> 'w"
  RemoveTemp :: "'w \<Rightarrow> 'w"
  NowRFC3339 :: "'w \<Rightarrow> string \<times> 'w"
  CopyTo :: "encoding \<Rightarrow> string \<Rightarrow> string \<Rightarrow> 'w \<Rightarrow> (error + int) \<times> 'w"
  CloseCompressor :: "'w \<Rightarrow> error option \<times> 'w"
  CloseObject :: "'w \<Rightarrow> error option \<times> 'w"
  SleepSecond :: "'w \<Rightarrow> 'w"

record GCSSettings =
  ProjectID :: string
  BucketName :: string
  BucketPath :: string
  Compressor :: string
  FlushMaxBytes :: int
  FlushMaxTimeSeconds :: int

text \<open>\<open>settings\<close> is what \<open>envconfig\<close> makes of the environment, \<open>clientErr\<close> the error of the storage client.\<close>

definition NewGCSFromEnv :: "'w gcs_env \<Rightarrow> (error + GCSSettings) \<Rightarrow> error option \<Rightarrow> string \<Rightarrow> metrics \<Rightarrow> 'w \<Rightarrow> 'w GCS go" where
  "NewGCSFromEnv env settings clientErr name ms w =
     (case settings of
        Inl e \<Rightarrow> Panic ''GCS settings are not properly set''
      | Inr st \<Rightarrow>
          if clientErr \<noteq> None then Panic ''storage client''
          else case CreateTemp env name w of
                 (Some e, w1) \<Rightarrow> Panic ''create buffer''
               | (None, w1) \<Rightarrow>
                   if Compressor st \<noteq> ''zstd'' \<and> Compressor st \<noteq> ''gzip'' \<and> Compressor st \<noteq> [] then Panic ''compressor not supported''
                   else Ret \<lparr>g_name = name, g_projectID = ProjectID st, g_bucketName = BucketName st,
                             g_bucketPath = BucketPath st, g_flushMaxBytes = FlushMaxBytes st,
                             g_flushMaxTime = FlushMaxTimeSeconds st * 1000000000, g_buffer = [], g_onFlushFunc = [],
                             g_compressor = Compressor st, g_isStop = False, g_bytesCounter = 0,
                             g_metrics = SetConsumerGCSInfo name (ProjectID st) (BucketName st) (BucketPath st) ms,
                             g_objects = [], g_world = w1\<rparr>)"

definition AddOnFlushFunc :: "('w \<Rightarrow> error option \<times> 'w) \<Rightarrow> 'w GCS \<Rightarrow> 'w GCS" where
  "AddOnFlushFunc f g = g\<lparr>g_onFlushFunc := g_onFlushFunc g @ [f]\<rparr>"

definition observeG :: "(metrics \<Rightarrow> metrics) \<Rightarrow> 'w GCS \<Rightarrow> 'w GCS" where
  "observeG f g = g\<lparr>g_metrics := f (g_metrics g)\<rparr>"

section \<open>Taking messages\<close>

definition bufferWrite :: "'w gcs_env \<Rightarrow> string \<Rightarrow> 'w GCS \<Rightarrow> (nat \<times> error option) \<times> 'w GCS" where
  "bufferWrite env b g =
     (let ((n, err), w1) = WriteFile env b (g_world g)
      in ((n, err), g\<lparr>g_buffer := g_buffer g @ take n b, g_world := w1\<rparr>))"

definition OnMessage :: "'w gcs_env \<Rightarrow> string \<Rightarrow> 'w GCS \<Rightarrow> error option \<times> 'w GCS" where
  "OnMessage env msg g =
     (if g_isStop g then (Some ErrorGCSStop, g)
      else if g_flushMaxBytes g \<le> g_bytesCounter g
      then (Some ErrorGCSBufferFull, observeG (IncreaseConsumerCustomErrorTotalf ''gcs_buffer_full: '' (g_name g)) g)
      else
        let ((n, err), g1) = bufferWrite env msg g;
            g2 = g1\<lparr>g_bytesCounter := g_bytesCounter g1 + int n\<rparr>;
            (_, g3) = bufferWrite env [CHR 0x0A] g2
        in (err, g3))"

section \<open>Uploading\<close>

definition objectName :: "'w GCS \<Rightarrow> string \<Rightarrow> string" where
  "objectName g now =
     g_bucketPath g @ ''/'' @ g_name g @ ''/'' @ g_name g @ ''-'' @ now @ ''.log''
     @ (if g_compressor g = ''zstd'' then ''.zst'' else if g_compressor g = ''gzip'' then ''.gz'' else [])"

definition writerFor :: "'w GCS \<Rightarrow> encoding" where
  "writerFor g = (if g_compressor g = ''zstd'' then Zstd else Gzip)"

definition attempt_metric :: "string \<Rightarrow> 'w GCS \<Rightarrow> 'w GCS" where
  "attempt_metric success g =
     observeG (IncreaseConsumerGCSUploadAttemptTotal (g_name g) (g_projectID g) (g_bucketName g) (g_bucketPath g) success) g"

definition uploadToGCS :: "'w gcs_env \<Rightarrow> 'w GCS \<Rightarrow> error option \<times> 'w GCS" where
  "uploadToGCS env g =
     (let (now, w1) = NowRFC3339 env (g_world g);
          filename = objectName g now
      in case CopyTo env (writerFor g) filename (g_buffer g) w1 of
           (Inl e, w2) \<Rightarrow>
             (Some e, observeG (IncreaseConsumerCustomErrorTotalf ''gcs_copy_buffer_failed: '' (g_name g)) (g\<lparr>g_world := w2\<rparr>))
         | (Inr n, w2) \<Rightarrow>
             let (cerr, w3) = (if g_compressor g \<noteq> [] then CloseCompressor env w2 else (None, w2))
             in case cerr of
                  Some e \<Rightarrow> (Some e, attempt_metric ''failed'' (g\<lparr>g_world := w3\<rparr>))
                | None \<Rightarrow>
                    (case CloseObject env w3 of
                       (Some e, w4) \<Rightarrow> (Some e, attempt_metric ''failed'' (g\<lparr>g_world := w4\<rparr>))
                     | (None, w4) \<Rightarrow>
                         (None,
                          attempt_metric ''success''
                            (observeG (IncreaseConsumerGCSUploadedTotalBytes (g_name g) (g_projectID g) (g_bucketName g) (g_bucketPath g) n)
                              (g\<lparr>g_world := w4,
                                 g_objects := g_objects g @
                                   [\<lparr>ob_name = filename, ob_encoding = writerFor g, ob_closed = (g_compressor g \<noteq> []),
                                     ob_text = g_buffer g\<rparr>]\<rparr>)))))"

fun callOnFlush :: "('w \<Rightarrow> error option \<times> 'w) list \<Rightarrow> 'w GCS \<Rightarrow> 'w GCS" where
  "callOnFlush [] g = g"
| "callOnFlush (f # fs) g =
     (let (err, w1) = f (g_world g); g1 = g\<lparr>g_world := w1\<rparr>
      in callOnFlush fs
           (case err of
              Some e \<Rightarrow> observeG (IncreaseConsumerCustomErrorTotalf ''gcs_on_flush_func_failed: '' (g_name g)) g1
            | None \<Rightarrow> g1))"

text \<open>Making the next file is tried until it works; \<^const>\<open>None\<close> if it never does.\<close>

partial_function (option) recreateLoop :: "'w gcs_env \<Rightarrow> 'w GCS \<Rightarrow> 'w GCS option" where
  "recreateLoop env g =
     (case CreateTemp env (g_name g) (g_world g) of (err, w1) \<Rightarrow>
        if err = None then Some (g\<lparr>g_buffer := [], g_world := w1\<rparr>)
        else recreateLoop env
               ((observeG (IncreaseConsumerCustomErrorTotalf ''gcs_buffer_recreate_failed: '' (g_name g)) g)\<lparr>g_world := SleepSecond env w1\<rparr>))"

definition resetBuffer :: "'w gcs_env \<Rightarrow> 'w GCS \<Rightarrow> 'w GCS option" where
  "resetBuffer env g = recreateLoop env (g\<lparr>g_world := RemoveTemp env (g_world g), g_bytesCounter := 0\<rparr>)"

definition Flush :: "'w gcs_env \<Rightarrow> 'w GCS \<Rightarrow> 'w GCS option" where
  "Flush env g =
     (if g_bytesCounter g = 0 then Some g
      else case uploadToGCS env g of
             (Some e, g1) \<Rightarrow> Some g1
           | (None, g1) \<Rightarrow> resetBuffer env (callOnFlush (g_onFlushFunc g1) g1))"

definition stopGCS :: "'w gcs_env \<Rightarrow> 'w GCS \<Rightarrow> 'w GCS option" where
  "stopGCS env g = Flush env (g\<lparr>g_isStop := True\<rparr>)"

text \<open>
  One turn of the loop of \<open>Start\<close>: \<^const>\<open>True\<close> when it goes on. \<open>tick\<close> says whether the ticker is due.
\<close>

definition startTurn :: "'w gcs_env \<Rightarrow> bool \<Rightarrow> 'w GCS \<Rightarrow> (bool \<times> 'w GCS) option" where
  "startTurn env tick g =
     (if g_isStop g then Some (False, g)
      else
        let numBytes = g_bytesCounter g;
            g1 = observeG (SetConsumerGCSBufferSize (g_name g) (g_projectID g) (g_bucketName g) (g_bucketPath g) numBytes) g
        in if 0 < g_flushMaxBytes g \<and> g_flushMaxBytes g \<le> numBytes
           then map_option (\<lambda>g2. (True, g2\<lparr>g_world := SleepSecond env (g_world g2)\<rparr>)) (Flush env g1)
           else if tick then map_option (\<lambda>g2. (True, g2)) (Flush env g1)
           else Some (True, g1\<lparr>g_world := SleepSecond env (g_world g1)\<rparr>))"

section \<open>The file buffer\<close>

text \<open>\<open>Read\<close> must not be called; \<open>WriteTo\<close> reads the file from its start through a second handle.\<close>

definition FileBuffer_Read :: "string \<Rightarrow> (nat \<times> error option) go" where
  "FileBuffer_Read b = Panic ''should not be called''"

section \<open>What a flush does\<close>

definition same_output :: "'w GCS \<Rightarrow> 'w GCS \<Rightarrow> bool" where
  "same_output g g' \<longleftrightarrow> g_name g' = g_name g \<and> g_flushMaxBytes g' = g_flushMaxBytes g \<and> g_onFlushFunc g' = g_onFlushFunc g
     \<and> g_compressor g' = g_compressor g \<and> g_isStop g' = g_isStop g \<and> g_bucketPath g' = g_bucketPath g"

lemma observeG_simps [simp]:
  "g_buffer (observeG f g) = g_buffer g" "g_bytesCounter (observeG f g) = g_bytesCounter g"
  "g_objects (observeG f g) = g_objects g" "g_world (observeG f g) = g_world g" "same_output h (observeG f g) = same_output h g"
  "g_onFlushFunc (observeG f g) = g_onFlushFunc g" "g_isStop (observeG f g) = g_isStop g"
  "g_flushMaxBytes (observeG f g) = g_flushMaxBytes g" "g_name (observeG f g) = g_name g"
  "g_bucketPath (observeG f g) = g_bucketPath g" "g_compressor (observeG f g) = g_compressor g"
  by (simp_all add: observeG_def same_output_def)

lemma uploadToGCS_effect:
  assumes "uploadToGCS env g = (err, g1)"
  shows "same_output g g1 \<and> g_buffer g1 = g_buffer g \<and> g_bytesCounter g1 = g_bytesCounter g
    \<and> g_objects g1 = g_objects g @ (if err = None
        then [\<lparr>ob_name = objectName g (fst (NowRFC3339 env (g_world g))), ob_encoding = writerFor g,
               ob_closed = (g_compressor g \<noteq> []), ob_text = g_buffer g\<rparr>] else [])"
proof -
  obtain now w1 where now: "NowRFC3339 env (g_world g) = (now, w1)" by fastforce
  obtain r w2 where r: "CopyTo env (writerFor g) (objectName g now) (g_buffer g) w1 = (r, w2)" by fastforce
  obtain ce w3 where c: "(if g_compressor g \<noteq> [] then CloseCompressor env w2 else (None, w2)) = (ce, w3)" by fastforce
  obtain oe w4 where o: "CloseObject env w3 = (oe, w4)" by fastforce
  show ?thesis
    using assms now r c o
    by (cases r; cases ce; cases oe)
      (auto simp: uploadToGCS_def Let_def attempt_metric_def same_output_def observeG_def)
qed

text \<open>The world after calling the callbacks one after the other, whatever each returns.\<close>

fun afterCallbacks :: "('w \<Rightarrow> error option \<times> 'w) list \<Rightarrow> 'w \<Rightarrow> 'w" where
  "afterCallbacks [] w = w"
| "afterCallbacks (f # fs) w = afterCallbacks fs (snd (f w))"

lemma callOnFlush_effect:
  "same_output g (callOnFlush fs g) \<and> g_buffer (callOnFlush fs g) = g_buffer g
    \<and> g_objects (callOnFlush fs g) = g_objects g \<and> g_world (callOnFlush fs g) = afterCallbacks fs (g_world g)"
proof (induction fs arbitrary: g)
  case (Cons f fs)
  obtain err w1 where "f (g_world g) = (err, w1)" by fastforce
  with Cons [of "g\<lparr>g_world := w1\<rparr>"]
    Cons [of "observeG (IncreaseConsumerCustomErrorTotalf ''gcs_on_flush_func_failed: '' (g_name g)) (g\<lparr>g_world := w1\<rparr>)"]
  show ?case by (cases err) (auto simp: Let_def same_output_def)
qed (simp add: same_output_def)

lemma recreateLoop_effect:
  assumes "recreateLoop env g = Some g'"
  shows "same_output g g' \<and> g_buffer g' = [] \<and> g_objects g' = g_objects g \<and> g_bytesCounter g' = g_bytesCounter g"
proof -
  have "same_output g g' \<and> g_buffer g' = [] \<and> g_objects g' = g_objects g \<and> g_bytesCounter g' = g_bytesCounter g"
  proof (rule recreateLoop.raw_induct [where P = "\<lambda>env g g'. same_output g g' \<and> g_buffer g' = [] \<and> g_objects g' = g_objects g
      \<and> g_bytesCounter g' = g_bytesCounter g", OF _ assms], goal_cases)
    case (1 loop env g g')
    obtain err w1 where w1: "CreateTemp env (g_name g) (g_world g) = (err, w1)" by fastforce
    show ?case
    proof (cases err)
      case None
      with 1(2) w1 show ?thesis by (auto simp: same_output_def)
    next
      case (Some e)
      with 1(2) w1 have "loop env ((observeG (IncreaseConsumerCustomErrorTotalf ''gcs_buffer_recreate_failed: '' (g_name g)) g)
          \<lparr>g_world := SleepSecond env w1\<rparr>) = Some g'" by simp
      from 1(1) [OF this] show ?thesis by (simp add: same_output_def observeG_def)
    qed
  qed
  then show ?thesis .
qed


definition demo_genv :: "error option \<Rightarrow> nat gcs_env" where
  "demo_genv fate =
     \<lparr>WriteFile = (\<lambda>b w. ((length b, None), w)), CreateTemp = (\<lambda>_ w. (None, w)), RemoveTemp = (\<lambda>w. w),
      NowRFC3339 = (\<lambda>w. (''2024-01-31T00:00:00Z'', w)), CopyTo = (\<lambda>_ _ t w. (Inr (int (length t)), w)),
      CloseCompressor = (\<lambda>w. (None, w)), CloseObject = (\<lambda>w. (fate, w)), SleepSecond = (\<lambda>w. w)\<rparr>"

definition demo_gcs :: "string \<Rightarrow> nat GCS" where
  "demo_gcs kind =
     \<lparr>g_name = ''app'', g_projectID = ''p'', g_bucketName = ''b'', g_bucketPath = ''logs'', g_flushMaxBytes = 100,
      g_flushMaxTime = 3600000000000, g_buffer = ''line'', g_onFlushFunc = [\<lambda>w. (None, Suc w)], g_compressor = kind,
      g_isStop = False, g_bytesCounter = 4, g_metrics = [], g_objects = [], g_world = 0\<rparr>"


text \<open>
  Without a compressor the stored object is cut off: the empty compressor setting, which is accepted,
  uploads through a gzip writer that is never closed, under a name without the gzip extension; with gzip or
  zstd the writer is closed and the name says which.
\<close>

lemma upload_encoding:
  assumes "uploadToGCS env g = (None, g1)" and "now = fst (NowRFC3339 env (g_world g))"
    and "stem = g_bucketPath g @ ''/'' @ g_name g @ ''/'' @ g_name g @ ''-'' @ now @ ''.log''"
  shows "(g_compressor g = [] \<longrightarrow> g_objects g1 = g_objects g @
        [\<lparr>ob_name = stem, ob_encoding = Gzip, ob_closed = False, ob_text = g_buffer g\<rparr>])
    \<and> (g_compressor g = ''gzip'' \<longrightarrow> g_objects g1 = g_objects g @
        [\<lparr>ob_name = stem @ ''.gz'', ob_encoding = Gzip, ob_closed = True, ob_text = g_buffer g\<rparr>])
    \<and> (g_compressor g = ''zstd'' \<longrightarrow> g_objects g1 = g_objects g @
        [\<lparr>ob_name = stem @ ''.zst'', ob_encoding = Zstd, ob_closed = True, ob_text = g_buffer g\<rparr>])"
  using uploadToGCS_effect [OF assms(1)] assms(2,3) by (auto simp: objectName_def writerFor_def)

lemma upload_encoding_example:
  "\<exists>g1 ob. uploadToGCS (demo_genv None) (demo_gcs []) = (None, g1) \<and> g_objects g1 = [ob] \<and> \<not> ob_closed ob \<and> ob_encoding ob = Gzip"
proof -
  let ?env = "demo_genv None" and ?g = "demo_gcs []"
  have "\<exists>g1. uploadToGCS ?env ?g = (None, g1)"
    by (simp add: uploadToGCS_def demo_genv_def demo_gcs_def Let_def)
  then obtain g1 where up: "uploadToGCS ?env ?g = (None, g1)" by blast
  have "g_compressor ?g = []" "g_objects ?g = []" by (simp_all add: demo_gcs_def)
  with upload_encoding [OF up refl refl] up show ?thesis by auto
qed

end
