(* ===== verification/GCS_Service.thy ===== *)
theory GCS_Service
  imports GCS_Output Kafka_Admin Consumer_Worker
begin

text \<open>
  The consumer that copies topics to Google Cloud Storage, of \<open>flow/barito_kafka_consumer_gcs_service.go\<close>:
  a round of the loop that looks for topics, the pair of a worker and an output that it makes for each, and
  the two goroutines of such a pair, the worker that fills the output's buffer and the flush that uploads it
  and commits the offsets, as steps of one state.
\<close>

section \<open>The service\<close>

record ('w, 'k) gcs_service_env =
  gse_kafka :: "'k kafka_env"
  gse_NewConsumerGroup :: "string \<Rightarrow> string \<Rightarrow> 'k \<Rightarrow> error option \<times> 'k"
  gse_MakeOutput :: "string \<Rightarrow> 'k \<Rightarrow> error option \<times> 'k"
  gse_unmarshal :: "Timber unmarshal"
  gse_contentJson :: "fields option option \<Rightarrow> error + string"
  gse_dec :: "string \<Rightarrow> error + json"
  gse_enc :: "LogFormatGcsSimpler \<Rightarrow> error + string"
  gse_gcs :: "'w gcs_env"

record 'k gcsService =
  gs_groupIDPrefix :: string
  gs_topicPattern :: "string \<Rightarrow> bool"
  gs_workerMap :: "(string \<times> string) list"
  gs_gcsOutputMap :: "(string \<times> bool) list"
  gs_kafkaAdmin :: kafkaAdmin
  gs_timberToSimplerFormat :: bool
  gs_isStop :: bool
  gs_metrics :: metrics
  gs_kafka :: 'k

text \<open>
  \<open>gs_workerMap\<close> gives the consumer group of each topic's worker, \<open>gs_gcsOutputMap\<close> whether the output of a
  topic has been stopped. \<open>compile\<close> is \<open>regexp.MustCompile\<close> followed by \<open>MatchString\<close>.
\<close>

record KafkaConsumerGCSSettings =
  GroupIDPrefix :: string
  TopicPattern :: string
  TimberToSimplerFormat :: bool

definition NewBaritoKafkaConsumerGCSFromEnv :: "('w, 'k) gcs_service_env \<Rightarrow> (string \<Rightarrow> (string \<Rightarrow> bool) option) \<Rightarrow>
    KafkaConsumerGCSSettings option \<Rightarrow> metrics \<Rightarrow> 'k \<Rightarrow> 'k gcsService go" where
  "NewBaritoKafkaConsumerGCSFromEnv env compile settings ms k =
     (case settings of
        None \<Rightarrow> Panic ''envconfig''
      | Some st \<Rightarrow>
          (case NewClient (gse_kafka env) k of
             (Inl e, k1) \<Rightarrow> Panic ''Error creating kafka admin''
           | (Inr addrs, k1) \<Rightarrow>
               (case compile (TopicPattern st) of
                  None \<Rightarrow> Panic ''regexp: Compile''
                | Some match \<Rightarrow>
                    Ret \<lparr>gs_groupIDPrefix = GroupIDPrefix st, gs_topicPattern = match, gs_workerMap = [], gs_gcsOutputMap = [],
                         gs_kafkaAdmin = NewKafkaAdmin addrs, gs_timberToSimplerFormat = TimberToSimplerFormat st,
                         gs_isStop = False, gs_metrics = ms, gs_kafka = k1\<rparr>)))"

definition ErrGCSConsumerWorker :: error where
  "ErrGCSConsumerWorker = Err ''Consumer Worker Failed''"

definition gcsSpawnLogsWorker :: "('w, 'k) gcs_service_env \<Rightarrow> string \<Rightarrow> 'k gcsService \<Rightarrow> error option \<times> 'k gcsService" where
  "gcsSpawnLogsWorker env topic s =
     (case gse_MakeOutput env topic (gs_kafka s) of
        (Some e, k1) \<Rightarrow> (Some (Concat (Err ''Error creating gcs output'') e), s\<lparr>gs_kafka := k1\<rparr>)
      | (None, k1) \<Rightarrow>
          (let s1 = s\<lparr>gs_kafka := k1, gs_gcsOutputMap := AList.update topic False (gs_gcsOutputMap s)\<rparr>;
               groupID = gs_groupIDPrefix s @ topic
           in case gse_NewConsumerGroup env groupID topic k1 of
                (Some e, k2) \<Rightarrow> (Some (Concat ErrGCSConsumerWorker e), s1\<lparr>gs_kafka := k2\<rparr>)
              | (None, k2) \<Rightarrow> (None, s1\<lparr>gs_kafka := k2, gs_workerMap := AList.update topic groupID (gs_workerMap s1)\<rparr>)))"

fun handleTopics :: "('w, 'k) gcs_service_env \<Rightarrow> string list \<Rightarrow> 'k gcsService \<Rightarrow> 'k gcsService" where
  "handleTopics env [] s = s"
| "handleTopics env (topic # ts) s =
     (if \<not> gs_topicPattern s topic then handleTopics env ts s
      else if map_of (gs_workerMap s) topic \<noteq> None then handleTopics env ts s
      else case gcsSpawnLogsWorker env topic s of
             (None, s1) \<Rightarrow> handleTopics env ts s1
           | (Some e, s1) \<Rightarrow>
               handleTopics env ts (s1\<lparr>gs_metrics := IncreaseConsumerCustomErrorTotalf ''spawn_logs_worker_'' topic (gs_metrics s1)\<rparr>))"

text \<open>One round of the loop of \<open>Start\<close>; \<^const>\<open>None\<close> when the loop ends.\<close>

definition gcsRound :: "('w, 'k) gcs_service_env \<Rightarrow> 'k gcsService \<Rightarrow> 'k gcsService option" where
  "gcsRound env s =
     (if gs_isStop s then None
      else
        let (err, a1, k1) = RefreshTopics (gse_kafka env) (gs_kafkaAdmin s) (gs_kafka s);
            s1 = s\<lparr>gs_kafkaAdmin := a1, gs_kafka := k1,
                   gs_metrics := (if err = None then gs_metrics s
                                  else IncreaseConsumerCustomErrorTotal ''kafka_admin_refresh_topics'' (gs_metrics s))\<rparr>;
            (ts, a2, k2) = Topics (gse_kafka env) (gs_kafkaAdmin s1) (gs_kafka s1);
            s2 = handleTopics env ts (s1\<lparr>gs_kafkaAdmin := a2, gs_kafka := k2\<rparr>)
        in Some (s2\<lparr>gs_kafka := Sleep (gse_kafka env) 60 (gs_kafka s2)\<rparr>))"

definition gcsClose :: "'k gcsService \<Rightarrow> 'k gcsService" where
  "gcsClose s = s\<lparr>gs_isStop := True, gs_gcsOutputMap := map (\<lambda>(t, _). (t, True)) (gs_gcsOutputMap s)\<rparr>"

section \<open>What a message becomes\<close>

definition gcsContent :: "('w, 'k) gcs_service_env \<Rightarrow> bool \<Rightarrow> ConsumerMessage \<Rightarrow> (error + string) go" where
  "gcsContent env simple msg =
     (case ConvertKafkaMessageToTimber (gse_unmarshal env) msg of
        Inl e \<Rightarrow> Ret (Inl (Concat (Err ''Convert KafkaMessage Failed'') e))
      | Inr timber \<Rightarrow>
          if simple then ConvertTimberToLogFormatGCSSimpleString (gse_dec env) (gse_enc env) timber
          else Ret (gse_contentJson env (tContent timber)))"

section \<open>A worker and its output\<close>

text \<open>
  The worker's callback is converting, then pushing its content until the output takes it; then the worker
  marks the offset. A flush holds the output's lock from the upload to the new buffer; between them it has
  uploaded, and it has called the callback that commits what is marked. The lists are histories: messages
  that could not be converted, that are in the buffer, in an object, marked, committed.
\<close>

datatype push_pc = PIdle | PPush ConsumerMessage string | PMark ConsumerMessage

datatype flush_pc = FReady | FUploaded | FNotified

record 'w pair =
  pa_out :: "'w GCS"
  pa_push :: push_pc
  pa_flush :: flush_pc
  pa_skipped :: "ConsumerMessage list"
  pa_pending :: "ConsumerMessage list"
  pa_uploaded :: "ConsumerMessage list"
  pa_marked :: "ConsumerMessage list"
  pa_committed :: "ConsumerMessage list"

inductive pair_step :: "('w, 'k) gcs_service_env \<Rightarrow> bool \<Rightarrow> 'w pair \<Rightarrow> 'w pair \<Rightarrow> bool"
  for env :: "('w, 'k) gcs_service_env" and simple :: bool where
  receive_bad: "pa_push s = PIdle \<Longrightarrow> gcsContent env simple m = Ret (Inl e) \<Longrightarrow>
    pair_step env simple s (s\<lparr>pa_push := PMark m, pa_skipped := pa_skipped s @ [m]\<rparr>)"
| receive_ok: "pa_push s = PIdle \<Longrightarrow> gcsContent env simple m = Ret (Inr content) \<Longrightarrow>
    pair_step env simple s (s\<lparr>pa_push := PPush m content\<rparr>)"
| push_ok: "pa_push s = PPush m content \<Longrightarrow> pa_flush s = FReady \<Longrightarrow> OnMessage (gse_gcs env) content (pa_out s) = (None, g1) \<Longrightarrow>
    pair_step env simple s (s\<lparr>pa_push := PMark m, pa_out := g1, pa_pending := pa_pending s @ [m]\<rparr>)"
| push_retry: "pa_push s = PPush m content \<Longrightarrow> pa_flush s = FReady \<Longrightarrow> OnMessage (gse_gcs env) content (pa_out s) = (Some e, g1) \<Longrightarrow>
    pair_step env simple s
      (s\<lparr>pa_out := (observeG (IncreaseConsumerCustomErrorTotalf ''gcs_on_message: '' (g_name g1)) g1)\<lparr>g_world := SleepSecond (gse_gcs env) (g_world g1)\<rparr>\<rparr>)"
| mark_offset: "pa_push s = PMark m \<Longrightarrow>
    pair_step env simple s (s\<lparr>pa_push := PIdle, pa_marked := pa_marked s @ [m]\<rparr>)"
| flush_upload: "pa_flush s = FReady \<Longrightarrow> g_bytesCounter (pa_out s) \<noteq> 0 \<Longrightarrow> uploadToGCS (gse_gcs env) (pa_out s) = (None, g1) \<Longrightarrow>
    pair_step env simple s (s\<lparr>pa_flush := FUploaded, pa_out := g1, pa_uploaded := pa_uploaded s @ pa_pending s\<rparr>)"
| flush_fail: "pa_flush s = FReady \<Longrightarrow> g_bytesCounter (pa_out s) \<noteq> 0 \<Longrightarrow> uploadToGCS (gse_gcs env) (pa_out s) = (Some e, g1) \<Longrightarrow>
    pair_step env simple s (s\<lparr>pa_out := g1\<rparr>)"
| flush_commit: "pa_flush s = FUploaded \<Longrightarrow>
    pair_step env simple s
      (s\<lparr>pa_flush := FNotified, pa_out := callOnFlush (g_onFlushFunc (pa_out s)) (pa_out s), pa_committed := pa_marked s\<rparr>)"
| flush_no_session: "pa_flush s = FUploaded \<Longrightarrow>
    pair_step env simple s (s\<lparr>pa_flush := FNotified, pa_out := callOnFlush (g_onFlushFunc (pa_out s)) (pa_out s)\<rparr>)"
| flush_reset: "pa_flush s = FNotified \<Longrightarrow> resetBuffer (gse_gcs env) (pa_out s) = Some g1 \<Longrightarrow>
    pair_step env simple s (s\<lparr>pa_flush := FReady, pa_out := g1, pa_pending := []\<rparr>)"
| output_stop: "pair_step env simple s (s\<lparr>pa_out := (pa_out s)\<lparr>g_isStop := True\<rparr>\<rparr>)"

definition pair_init :: "'w GCS \<Rightarrow> 'w pair \<Rightarrow> bool" where
  "pair_init g s \<longleftrightarrow> g_buffer g = [] \<and>
     s = \<lparr>pa_out = g, pa_push = PIdle, pa_flush = FReady, pa_skipped = [], pa_pending = [], pa_uploaded = [], pa_marked = [],
          pa_committed = []\<rparr>"

section \<open>Committed means uploaded\<close>

text \<open>A write without an error wrote everything, as the contract of \<open>io.Writer\<close> has it.\<close>

definition honest_writes :: "'w gcs_env \<Rightarrow> bool" where
  "honest_writes env \<longleftrightarrow> (\<forall>b w n w'. WriteFile env b w = ((n, None), w') \<longrightarrow> n = length b)"

definition inBuffer :: "('w, 'k) gcs_service_env \<Rightarrow> bool \<Rightarrow> 'w GCS \<Rightarrow> ConsumerMessage \<Rightarrow> bool" where
  "inBuffer env simple g m \<longleftrightarrow> (\<exists>c. gcsContent env simple m = Ret (Inr c) \<and> sublist c (g_buffer g))"

definition inObjects :: "('w, 'k) gcs_service_env \<Rightarrow> bool \<Rightarrow> 'w GCS \<Rightarrow> ConsumerMessage \<Rightarrow> bool" where
  "inObjects env simple g m \<longleftrightarrow> (\<exists>c. gcsContent env simple m = Ret (Inr c) \<and> (\<exists>ob\<in>set (g_objects g). sublist c (ob_text ob)))"

definition unconvertible :: "('w, 'k) gcs_service_env \<Rightarrow> bool \<Rightarrow> ConsumerMessage \<Rightarrow> bool" where
  "unconvertible env simple m \<longleftrightarrow> (\<exists>e. gcsContent env simple m = Ret (Inl e))"

definition pair_inv :: "('w, 'k) gcs_service_env \<Rightarrow> bool \<Rightarrow> 'w pair \<Rightarrow> bool" where
  "pair_inv env simple s \<longleftrightarrow>
     (\<forall>m\<in>set (pa_skipped s). unconvertible env simple m)
     \<and> (\<forall>m\<in>set (pa_pending s). inBuffer env simple (pa_out s) m)
     \<and> (\<forall>m\<in>set (pa_uploaded s). inObjects env simple (pa_out s) m)
     \<and> (\<forall>m\<in>set (pa_marked s). m \<in> set (pa_skipped s @ pa_pending s @ pa_uploaded s))
     \<and> (\<forall>m. pa_push s = PMark m \<longrightarrow> m \<in> set (pa_skipped s @ pa_pending s @ pa_uploaded s))
     \<and> (\<forall>m c. pa_push s = PPush m c \<longrightarrow> gcsContent env simple m = Ret (Inr c))
     \<and> (pa_flush s \<noteq> FReady \<longrightarrow> set (pa_pending s) \<subseteq> set (pa_uploaded s))
     \<and> (\<forall>m\<in>set (pa_committed s). m \<in> set (pa_skipped s @ pa_uploaded s))"

lemma OnMessage_effect:
  assumes "OnMessage env c g = (err, g1)"
  shows "g_objects g1 = g_objects g \<and> prefix (g_buffer g) (g_buffer g1)
    \<and> (honest_writes env \<and> err = None \<longrightarrow> sublist c (g_buffer g1))"
proof -
  obtain n e w1 where 1: "WriteFile env c (g_world g) = ((n, e), w1)" by (metis prod_cases3 surj_pair)
  obtain n2 e2 w2 where 2: "WriteFile env [CHR 0x0A] w1 = ((n2, e2), w2)" by (metis prod_cases3 surj_pair)
  have "e = None \<Longrightarrow> honest_writes env \<Longrightarrow> n = length c" using 1 by (auto simp: honest_writes_def)
  with assms 1 2 show ?thesis
    by (auto simp: OnMessage_def bufferWrite_def Let_def split: if_splits)
qed

lemma inBuffer_mono: "prefix (g_buffer g) (g_buffer g1) \<Longrightarrow> inBuffer env simple g m \<Longrightarrow> inBuffer env simple g1 m"
  unfolding inBuffer_def by (meson prefix_imp_sublist sublist_order.order_trans)

lemma inObjects_mono: "set (g_objects g) \<subseteq> set (g_objects g1) \<Longrightarrow> inObjects env simple g m \<Longrightarrow> inObjects env simple g1 m"
  unfolding inObjects_def by blast

lemma inObjects_upload:
  assumes "inBuffer env simple g m" and "g_objects g1 = g_objects g @ [ob]" and "ob_text ob = g_buffer g"
  shows "inObjects env simple g1 m"
  using assms by (auto simp: inBuffer_def inObjects_def)

lemma inBuffer_simps [simp]:
  "inBuffer env simple (observeG f g) = inBuffer env simple g"
  "inBuffer env simple (g\<lparr>g_world := w\<rparr>) = inBuffer env simple g"
  "inBuffer env simple (g\<lparr>g_isStop := b\<rparr>) = inBuffer env simple g"
  "inObjects env simple (observeG f g) = inObjects env simple g"
  "inObjects env simple (g\<lparr>g_world := w\<rparr>) = inObjects env simple g"
  "inObjects env simple (g\<lparr>g_isStop := b\<rparr>) = inObjects env simple g"
  by (simp_all add: inBuffer_def inObjects_def fun_eq_iff)

lemma inBuffer_callOnFlush [simp]:
  "inBuffer env simple (callOnFlush fs g) = inBuffer env simple g"
  "inObjects env simple (callOnFlush fs g) = inObjects env simple g"
  using callOnFlush_effect [of g fs] by (simp_all add: inBuffer_def inObjects_def fun_eq_iff)

lemma pair_push_ok:
  assumes "honest_writes (gse_gcs env)" and "pair_inv env simple s" and "pa_push s = PPush m c"
    and "OnMessage (gse_gcs env) c (pa_out s) = (None, g1)" and "pa_flush s = FReady"
  shows "pair_inv env simple (s\<lparr>pa_push := PMark m, pa_out := g1, pa_pending := pa_pending s @ [m]\<rparr>)"
proof -
  note eff = OnMessage_effect [OF assms(4)]
  have "inBuffer env simple g1 m" using eff assms(1,2,3) by (auto simp: inBuffer_def pair_inv_def)
  moreover have "inBuffer env simple g1 u" if "inBuffer env simple (pa_out s) u" for u
    using eff that by (auto intro: inBuffer_mono)
  moreover have "inObjects env simple g1 u" if "inObjects env simple (pa_out s) u" for u
    by (rule inObjects_mono [OF _ that]) (simp add: eff)
  ultimately show ?thesis using assms(2,5) by (auto simp: pair_inv_def)
qed

lemma pair_push_retry:
  assumes "pair_inv env simple s" and "OnMessage (gse_gcs env) c (pa_out s) = (e, g1)"
  shows "pair_inv env simple (s\<lparr>pa_out := (observeG f g1)\<lparr>g_world := w\<rparr>\<rparr>)"
proof -
  note eff = OnMessage_effect [OF assms(2)]
  have "inBuffer env simple g1 u" if "inBuffer env simple (pa_out s) u" for u
    using eff that by (auto intro: inBuffer_mono)
  moreover have "inObjects env simple g1 u" if "inObjects env simple (pa_out s) u" for u
    by (rule inObjects_mono [OF _ that]) (simp add: eff)
  ultimately show ?thesis using assms(1) by (auto simp: pair_inv_def)
qed

lemma pair_flush_upload:
  assumes "pair_inv env simple s" and "uploadToGCS (gse_gcs env) (pa_out s) = (None, g1)"
  shows "pair_inv env simple (s\<lparr>pa_flush := FUploaded, pa_out := g1, pa_uploaded := pa_uploaded s @ pa_pending s\<rparr>)"
proof -
  note up = uploadToGCS_effect [OF assms(2)]
  then obtain ob where ob: "g_objects g1 = g_objects (pa_out s) @ [ob]" "ob_text ob = g_buffer (pa_out s)"
    and buf: "g_buffer g1 = g_buffer (pa_out s)" by auto
  have "inObjects env simple g1 u" if "inObjects env simple (pa_out s) u" for u
    by (rule inObjects_mono [OF _ that]) (auto simp: ob)
  moreover have "inObjects env simple g1 u" if "inBuffer env simple (pa_out s) u" for u
    using inObjects_upload [OF that ob] .
  moreover have "inBuffer env simple g1 = inBuffer env simple (pa_out s)" using buf by (simp add: inBuffer_def fun_eq_iff)
  ultimately show ?thesis using assms(1) by (auto simp: pair_inv_def)
qed

lemma pair_flush_fail:
  assumes "pair_inv env simple s" and "uploadToGCS (gse_gcs env) (pa_out s) = (Some e, g1)"
  shows "pair_inv env simple (s\<lparr>pa_out := g1\<rparr>)"
proof -
  note up = uploadToGCS_effect [OF assms(2)]
  have "inBuffer env simple g1 = inBuffer env simple (pa_out s)" "inObjects env simple g1 = inObjects env simple (pa_out s)"
    using up by (simp_all add: inBuffer_def inObjects_def fun_eq_iff)
  with assms(1) show ?thesis by (simp add: pair_inv_def)
qed

lemma pair_flush_reset:
  assumes "pair_inv env simple s" and "pa_flush s = FNotified" and "resetBuffer (gse_gcs env) (pa_out s) = Some g1"
  shows "pair_inv env simple (s\<lparr>pa_flush := FReady, pa_out := g1, pa_pending := []\<rparr>)"
proof -
  have "g_objects g1 = g_objects (pa_out s)"
    using recreateLoop_effect [OF assms(3) [unfolded resetBuffer_def]] by simp
  then have "inObjects env simple g1 = inObjects env simple (pa_out s)" by (simp add: inObjects_def fun_eq_iff)
  with assms(1,2) show ?thesis by (auto simp: pair_inv_def)
qed

lemma pair_step_inv:
  assumes "honest_writes (gse_gcs env)" and "pair_inv env simple s" and "pair_step env simple s t"
  shows "pair_inv env simple t"
  using assms(3)
proof cases
  case (receive_bad m e)
  with assms(2) show ?thesis by (auto simp: pair_inv_def unconvertible_def)
next
  case (receive_ok m c)
  with assms(2) show ?thesis by (auto simp: pair_inv_def)
next
  case (push_ok m c g1)
  then show ?thesis using pair_push_ok [OF assms(1,2)] by simp
next
  case (push_retry m c e g1)
  then show ?thesis using pair_push_retry [OF assms(2)] by simp
next
  case (mark_offset m)
  with assms(2) show ?thesis by (auto simp: pair_inv_def)
next
  case (flush_upload g1)
  then show ?thesis using pair_flush_upload [OF assms(2)] by simp
next
  case (flush_fail e g1)
  then show ?thesis using pair_flush_fail [OF assms(2)] by simp
next
  case flush_commit
  with assms(2) show ?thesis by (auto simp: pair_inv_def)
next
  case flush_no_session
  with assms(2) show ?thesis by (auto simp: pair_inv_def)
next
  case (flush_reset g1)
  then show ?thesis using pair_flush_reset [OF assms(2)] by simp
next
  case output_stop
  with assms(2) show ?thesis by (auto simp: pair_inv_def)
qed

lemma pair_init_inv: "pair_init g s \<Longrightarrow> pair_inv env simple s"
  by (auto simp: pair_init_def pair_inv_def)

interpretation gcs_pair: state_machine "pair_init g"
    "\<lambda>s t. honest_writes (gse_gcs env) \<and> pair_step env simple s t" "pair_inv env simple" for g env simple
  by unfold_locales (auto intro: pair_init_inv pair_step_inv)

lemma reach_honest:
  "reach (pair_init g) (pair_step env simple) s \<Longrightarrow> honest_writes (gse_gcs env) \<Longrightarrow>
    reach (pair_init g) (\<lambda>s t. honest_writes (gse_gcs env) \<and> pair_step env simple s t) s"
  by (induction rule: reach.induct) (auto intro: reach.intros)


definition demo_gse :: "(nat, unit) gcs_service_env" where
  "demo_gse = \<lparr>gse_kafka = quiet_kafka (Inr []), gse_NewConsumerGroup = (\<lambda>_ _ k. (None, k)), gse_MakeOutput = (\<lambda>_ k. (None, k)),
     gse_unmarshal = (\<lambda>v. Inr \<lparr>tContext = None, tTimestamp = v, tContent = None\<rparr>),
     gse_contentJson = (\<lambda>_. Inr ''{}''), gse_dec = (\<lambda>_. Inl (Err [])), gse_enc = (\<lambda>_. Inl (Err [])), gse_gcs = demo_genv None\<rparr>"

definition demo_empty :: "nat GCS" where
  "demo_empty = (demo_gcs ''gzip'')\<lparr>g_buffer := [], g_bytesCounter := 0\<rparr>"

lemma demo_committed_reachable:
  "\<exists>s. reach (pair_init demo_empty) (pair_step demo_gse False) s \<and> demo_message \<in> set (pa_committed s)"
proof -
  let ?R = "reach (pair_init demo_empty) (pair_step demo_gse False)"
  let ?s0 = "\<lparr>pa_out = demo_empty, pa_push = PIdle, pa_flush = FReady, pa_skipped = [], pa_pending = [], pa_uploaded = [],
      pa_marked = [], pa_committed = []\<rparr>"
  have c: "gcsContent demo_gse False demo_message = Ret (Inr ''{}'')"
    by (simp add: gcsContent_def demo_gse_def ConvertKafkaMessageToTimber_def)
  obtain g1 where g1: "OnMessage (gse_gcs demo_gse) ''{}'' demo_empty = (None, g1)" "g_bytesCounter g1 = 2"
    by (simp add: OnMessage_def bufferWrite_def demo_gse_def demo_genv_def demo_empty_def demo_gcs_def)
  have "fst (uploadToGCS (demo_genv None) g1) = None"
    by (cases "g_compressor g1 = []") (simp_all add: uploadToGCS_def demo_genv_def Let_def)
  then obtain g2 where g2: "uploadToGCS (gse_gcs demo_gse) g1 = (None, g2)"
    by (cases "uploadToGCS (demo_genv None) g1") (simp add: demo_gse_def)
  have "?R ?s0" by (rule reach_init) (simp add: pair_init_def demo_empty_def)
  then have "?R (?s0\<lparr>pa_push := PPush demo_message ''{}''\<rparr>)" by (rule reach_step) (rule receive_ok, simp_all add: c)
  then have 2: "?R (?s0\<lparr>pa_push := PMark demo_message, pa_out := g1, pa_pending := [demo_message]\<rparr>)"
    by (rule reach_step) (use push_ok [of "?s0\<lparr>pa_push := PPush demo_message ''{}''\<rparr>" demo_message "''{}''" demo_gse g1 False] g1 in simp)
  let ?s3 = "?s0\<lparr>pa_push := PIdle, pa_out := g1, pa_pending := [demo_message], pa_marked := [demo_message]\<rparr>"
  let ?s4 = "?s3\<lparr>pa_flush := FUploaded, pa_out := g2, pa_uploaded := [demo_message]\<rparr>"
  from 2 have 3: "?R ?s3"
    by (rule reach_step)
      (use mark_offset [of "?s0\<lparr>pa_push := PMark demo_message, pa_out := g1, pa_pending := [demo_message]\<rparr>" demo_message demo_gse False] in simp)
  then have "?R ?s4"
    by (rule reach_step) (use flush_upload [of ?s3 demo_gse g2 False] g1 g2 in simp)
  then have "?R (?s4\<lparr>pa_flush := FNotified, pa_out := callOnFlush (g_onFlushFunc (pa_out ?s4)) (pa_out ?s4), pa_committed := pa_marked ?s4\<rparr>)"
    by (rule reach_step) (rule flush_commit, simp)
  then show ?thesis by (intro exI conjI) (assumption, simp)
qed


section \<open>The output's limits\<close>



end
