(* ===== verification/GCS_Rounds.thy ===== *)
theory GCS_Rounds
  imports GCS_Service
begin

text \<open>
  The loop of \<open>Start\<close> in \<open>flow/barito_kafka_consumer_gcs_service.go\<close>, round by round: which topics have a
  worker and an output after a round; and the factory of \<open>flow/consumer_factory.go\<close> that makes the outputs.
\<close>

section \<open>The factory of outputs\<close>

text \<open>The interface allows an error; the factory never returns one, since what goes wrong panics.\<close>

definition MakeConsumerOutputGCS :: "'w gcs_env \<Rightarrow> (error + GCSSettings) \<Rightarrow> error option \<Rightarrow> string \<Rightarrow> metrics \<Rightarrow> 'w \<Rightarrow>
    (error option \<times> 'w GCS) go" where
  "MakeConsumerOutputGCS env st clientErr name ms w =
     go_bind (NewGCSFromEnv env st clientErr name ms w) (\<lambda>g. Ret (None, g))"

lemma MakeConsumerOutputGCS_result:
  "MakeConsumerOutputGCS env st clientErr name ms w = Ret (err, g) \<Longrightarrow>
    err = None \<and> g_name g = name \<and> g_buffer g = [] \<and> g_bytesCounter g = 0 \<and> \<not> g_isStop g \<and> g_onFlushFunc g = []"
  by (auto simp: MakeConsumerOutputGCS_def NewGCSFromEnv_def split: sum.splits if_splits prod.splits option.splits)

section \<open>One topic\<close>

text \<open>How often starting the worker of a topic has failed, by its counter.\<close>

definition spawnErrors :: "string \<Rightarrow> 'k gcsService \<Rightarrow> int" where
  "spawnErrors topic s = counter_value ''barito_consumer_custom_error_total'' [''spawn_logs_worker_'' @ topic] (gs_metrics s)"

definition same_gcs :: "'k gcsService \<Rightarrow> 'k gcsService \<Rightarrow> bool" where
  "same_gcs s s' \<longleftrightarrow> gs_groupIDPrefix s' = gs_groupIDPrefix s \<and> gs_topicPattern s' = gs_topicPattern s
     \<and> gs_kafkaAdmin s' = gs_kafkaAdmin s \<and> gs_isStop s' = gs_isStop s"

text \<open>Every worker has an output it writes to.\<close>

definition paired :: "'k gcsService \<Rightarrow> bool" where
  "paired s \<longleftrightarrow> (\<forall>t. map_of (gs_workerMap s) t \<noteq> None \<longrightarrow> map_of (gs_gcsOutputMap s) t \<noteq> None)"

text \<open>
  How the service may grow: workers stay, a new one is for a topic of the pattern under the group of its
  prefix and topic, and no counter goes down.
\<close>

definition grows :: "'k gcsService \<Rightarrow> 'k gcsService \<Rightarrow> bool" where
  "grows s s' \<longleftrightarrow> same_gcs s s' \<and> (paired s \<longrightarrow> paired s') \<and> (\<forall>t. spawnErrors t s \<le> spawnErrors t s')
     \<and> (\<forall>t g. map_of (gs_workerMap s) t = Some g \<longrightarrow> map_of (gs_workerMap s') t = Some g)
     \<and> (\<forall>t g. map_of (gs_workerMap s') t = Some g \<longrightarrow>
          map_of (gs_workerMap s) t = Some g \<or> gs_topicPattern s t \<and> g = gs_groupIDPrefix s @ t)"

lemma grows_refl [simp]: "grows s s"
  by (simp add: grows_def same_gcs_def)

lemma grows_trans:
  assumes "grows s s1" and "grows s1 s2"
  shows "grows s s2"
proof -
  note a = assms(1) [unfolded grows_def] and b = assms(2) [unfolded grows_def]
  have same: "gs_topicPattern s1 = gs_topicPattern s" "gs_groupIDPrefix s1 = gs_groupIDPrefix s"
    using a by (simp_all add: same_gcs_def)
  have 1: "same_gcs s s2" using a b by (simp add: same_gcs_def)
  have 2: "paired s \<longrightarrow> paired s2" using a b by blast
  have 3: "spawnErrors t s \<le> spawnErrors t s2" for t
  proof -
    have "spawnErrors t s \<le> spawnErrors t s1" "spawnErrors t s1 \<le> spawnErrors t s2" using a b by blast+
    then show ?thesis by (rule order_trans)
  qed
  have 4: "map_of (gs_workerMap s2) t = Some g" if "map_of (gs_workerMap s) t = Some g" for t g using a b that by blast
  have 5: "map_of (gs_workerMap s) t = Some g \<or> gs_topicPattern s t \<and> g = gs_groupIDPrefix s @ t"
    if w: "map_of (gs_workerMap s2) t = Some g" for t g
  proof -
    consider "map_of (gs_workerMap s1) t = Some g" | "gs_topicPattern s t \<and> g = gs_groupIDPrefix s @ t"
      using b w unfolding same by blast
    then show ?thesis using a by cases blast+
  qed
  from 1 2 3 4 5 show ?thesis unfolding grows_def by blast
qed

lemma grows_errors: "grows s s' \<Longrightarrow> spawnErrors t s \<le> spawnErrors t s'"
  and grows_worker: "grows s s' \<Longrightarrow> map_of (gs_workerMap s) t = Some g \<Longrightarrow> map_of (gs_workerMap s') t = Some g"
  by (auto simp: grows_def)

text \<open>What the loop does with a topic that matches and has no worker.\<close>

definition spawned :: "('w, 'k) gcs_service_env \<Rightarrow> string \<Rightarrow> 'k gcsService \<Rightarrow> 'k gcsService" where
  "spawned env topic s =
     (case gcsSpawnLogsWorker env topic s of
        (None, s1) \<Rightarrow> s1
      | (Some e, s1) \<Rightarrow> s1\<lparr>gs_metrics := IncreaseConsumerCustomErrorTotalf ''spawn_logs_worker_'' topic (gs_metrics s1)\<rparr>)"

lemma handleTopics_Cons:
  "handleTopics env (topic # ts) s =
    handleTopics env ts (if gs_topicPattern s topic \<and> map_of (gs_workerMap s) topic = None then spawned env topic s else s)"
  by (simp add: spawned_def split: prod.splits option.splits)

lemma spawned_effect:
  assumes "gs_topicPattern s topic" and "map_of (gs_workerMap s) topic = None"
  shows "grows s (spawned env topic s)"
    and "map_of (gs_workerMap (spawned env topic s)) topic \<noteq> None \<or> spawnErrors topic s < spawnErrors topic (spawned env topic s)"
    and "t \<noteq> topic \<Longrightarrow> map_of (gs_workerMap (spawned env topic s)) t = map_of (gs_workerMap s) t"
  using assms
  by (auto simp: spawned_def gcsSpawnLogsWorker_def grows_def same_gcs_def paired_def update_conv Let_def
      spawnErrors_def IncreaseConsumerCustomErrorTotalf_def split: prod.splits option.splits if_splits)

section \<open>A round\<close>

lemma handleTopics_grows: "grows s (handleTopics env ts s)"
proof (induction ts arbitrary: s)
  case (Cons topic ts)
  then show ?case
    unfolding handleTopics_Cons using spawned_effect(1) [of s topic env] by (auto intro: grows_trans)
qed simp

lemma handleTopics_others:
  "t \<notin> set ts \<Longrightarrow> map_of (gs_workerMap (handleTopics env ts s)) t = map_of (gs_workerMap s) t"
proof (induction ts arbitrary: s)
  case (Cons topic ts)
  then show ?case unfolding handleTopics_Cons using spawned_effect(3) [of s topic t env] by auto
qed simp

lemma handleTopics_serves:
  assumes "topic \<in> set ts" and "gs_topicPattern s topic"
  shows "map_of (gs_workerMap (handleTopics env ts s)) topic \<noteq> None \<or> spawnErrors topic s < spawnErrors topic (handleTopics env ts s)"
  using assms
proof (induction ts arbitrary: s)
  case (Cons t ts)
  let ?s1 = "if gs_topicPattern s t \<and> map_of (gs_workerMap s) t = None then spawned env t s else s"
  have g: "grows s ?s1" "grows ?s1 (handleTopics env ts ?s1)"
    using spawned_effect(1) [of s t env] by (simp_all add: handleTopics_grows)
  show ?case
  proof (cases "topic \<in> set ts")
    case True
    have "gs_topicPattern ?s1 topic" using g(1) Cons.prems(2) by (auto simp: grows_def same_gcs_def)
    from Cons.IH [OF True this] grows_errors [OF g(1), of topic] show ?thesis unfolding handleTopics_Cons by linarith
  next
    case False
    then have t: "t = topic" using Cons.prems(1) by simp
    have "map_of (gs_workerMap ?s1) topic \<noteq> None \<or> spawnErrors topic s < spawnErrors topic ?s1"
      using spawned_effect(2) [OF Cons.prems(2), of env] Cons.prems(2)
      by (cases "map_of (gs_workerMap s) topic") (simp_all add: t)
    with grows_errors [OF g(2), of topic] grows_worker [OF g(2), of topic] show ?thesis unfolding handleTopics_Cons by auto
  qed
qed simp

text \<open>
  C24. A round of the GCS consumer serves every topic once: after a round of a service whose workers all have
  outputs, that is still so; no worker was replaced; a new worker is for a topic that the cluster has and the
  pattern matches, in the consumer group of prefix and topic; and each such topic has a worker, unless
  starting it failed, which was counted, and is tried again in the next round. A stopped service makes no
  further round.
\<close>

theorem gcsRound_serves_topics:
  assumes "gcsRound env s = Some s'" and "paired s"
  shows "\<not> gs_isStop s \<and> paired s' \<and> gs_isStop s' = gs_isStop s
    \<and> (\<forall>t g. map_of (gs_workerMap s) t = Some g \<longrightarrow> map_of (gs_workerMap s') t = Some g)
    \<and> (\<forall>t g. map_of (gs_workerMap s) t = None \<and> map_of (gs_workerMap s') t = Some g \<longrightarrow>
         t \<in> set (topics (gs_kafkaAdmin s')) \<and> gs_topicPattern s t \<and> g = gs_groupIDPrefix s @ t)
    \<and> (\<forall>t \<in> set (topics (gs_kafkaAdmin s')). gs_topicPattern s t \<longrightarrow>
         map_of (gs_workerMap s') t \<noteq> None
         \<or> spawnErrors t s < spawnErrors t s')"
proof -
  obtain u k ts where u: "s' = (handleTopics env ts u)\<lparr>gs_kafka := k\<rparr>" "topics (gs_kafkaAdmin u) = ts"
      "gs_workerMap u = gs_workerMap s" "gs_gcsOutputMap u = gs_gcsOutputMap s" "gs_topicPattern u = gs_topicPattern s"
      "gs_groupIDPrefix u = gs_groupIDPrefix s" "gs_isStop u = gs_isStop s" "\<not> gs_isStop s"
      "\<And>t. spawnErrors t u = spawnErrors t s"
    using assms(1)
    by (auto simp: gcsRound_def Topics_def Let_def split_beta spawnErrors_def IncreaseConsumerCustomErrorTotal_def split: if_splits)
  have "paired u" using assms(2) u by (simp add: paired_def)
  with handleTopics_grows [of u env ts] have g: "paired (handleTopics env ts u)" "same_gcs u (handleTopics env ts u)"
      "\<And>t g. map_of (gs_workerMap s) t = Some g \<Longrightarrow> map_of (gs_workerMap (handleTopics env ts u)) t = Some g"
      "\<And>t g. map_of (gs_workerMap (handleTopics env ts u)) t = Some g \<Longrightarrow>
        map_of (gs_workerMap s) t = Some g \<or> gs_topicPattern s t \<and> g = gs_groupIDPrefix s @ t"
    using u by (auto simp: grows_def)
  have ts: "topics (gs_kafkaAdmin (handleTopics env ts u)) = ts" "gs_isStop (handleTopics env ts u) = gs_isStop s"
    using g(2) u by (simp_all add: same_gcs_def)
  have "t \<in> set ts" if "map_of (gs_workerMap s) t = None" "map_of (gs_workerMap (handleTopics env ts u)) t = Some x" for t x
    using that handleTopics_others [of t ts env u] u(3) by (cases "t \<in> set ts") auto
  moreover have "spawnErrors t s' = spawnErrors t (handleTopics env ts u)" for t by (simp add: u(1) spawnErrors_def)
  moreover have "map_of (gs_workerMap (handleTopics env ts u)) t \<noteq> None \<or> spawnErrors t s < spawnErrors t (handleTopics env ts u)"
    if "t \<in> set ts" "gs_topicPattern s t" for t
    using handleTopics_serves [of t ts u env] that u(5,9) by simp
  moreover have "paired s'" using g(1) by (simp add: u(1) paired_def)
  moreover have "topics (gs_kafkaAdmin s') = ts" "gs_isStop s' = gs_isStop s" "gs_workerMap s' = gs_workerMap (handleTopics env ts u)"
    using ts by (simp_all add: u(1))
  ultimately show ?thesis
    using g(3,4) u(8) by (simp only: simp_thms) (intro conjI allI impI ballI; metis option.distinct(1))
qed

definition demo_round_env :: "(nat, unit) gcs_service_env" where
  "demo_round_env = demo_gse\<lparr>gse_kafka := quiet_kafka (Inr [''a_pb'', ''other'', ''b_pb'']),
     gse_NewConsumerGroup := (\<lambda>g t k. (if t = ''b_pb'' then Some (Err ''refused'') else None, k))\<rparr>"

definition demo_gcs_service :: "unit gcsService" where
  "demo_gcs_service = \<lparr>gs_groupIDPrefix = ''gcs-'', gs_topicPattern = (\<lambda>t. HasSuffix t ''_pb''), gs_workerMap = [], gs_gcsOutputMap = [],
     gs_kafkaAdmin = NewKafkaAdmin [], gs_timberToSimplerFormat = False, gs_isStop = False, gs_metrics = [], gs_kafka = ()\<rparr>"

theorem gcsRound_serves_topics_witness:
  "\<exists>s'. gcsRound demo_round_env demo_gcs_service = Some s' \<and> paired s'
    \<and> map_of (gs_workerMap s') ''a_pb'' = Some ''gcs-a_pb'' \<and> map_of (gs_workerMap s') ''other'' = None
    \<and> map_of (gs_workerMap s') ''b_pb'' = None \<and> spawnErrors ''b_pb'' s' = 1"
proof -
  have p: "paired demo_gcs_service" by (simp add: paired_def demo_gcs_service_def)
  have "\<exists>s'. gcsRound demo_round_env demo_gcs_service = Some s'
    \<and> map_of (gs_workerMap s') ''a_pb'' = Some ''gcs-a_pb'' \<and> map_of (gs_workerMap s') ''other'' = None
    \<and> map_of (gs_workerMap s') ''b_pb'' = None \<and> spawnErrors ''b_pb'' s' = 1"
    by (simp add: gcsRound_def RefreshTopics_def Topics_def demo_round_env_def demo_gse_def quiet_kafka_def demo_gcs_service_def
        NewKafkaAdmin_def gcsSpawnLogsWorker_def HasSuffix_def spawnErrors_def IncreaseConsumerCustomErrorTotalf_def Let_def)
  with gcsRound_serves_topics [OF _ p] show ?thesis by blast
qed

section \<open>Refreshing in the background\<close>

text \<open>The accessors, and the loop \<open>keepRefreshKafkaTopics\<close>, which nothing calls; \<^const>\<open>None\<close> is not returning.\<close>

definition gcsWorkerMap :: "'k gcsService \<Rightarrow> (string \<times> string) list" where
  "gcsWorkerMap s = gs_workerMap s"

definition gcsNewTopicEventWorker :: "'k gcsService \<Rightarrow> string option" where
  "gcsNewTopicEventWorker s = None"

partial_function (option) keepRefreshKafkaTopics :: "('w, 'k) gcs_service_env \<Rightarrow> 'k gcsService \<Rightarrow> 'k gcsService option" where
  "keepRefreshKafkaTopics env s =
     (case RefreshTopics (gse_kafka env) (gs_kafkaAdmin s) (gs_kafka s) of (err, a1, k1) \<Rightarrow>
        keepRefreshKafkaTopics env (s\<lparr>gs_kafkaAdmin := a1, gs_kafka := Sleep (gse_kafka env) 60 k1\<rparr>))"

lemma keepRefreshKafkaTopics_never_returns: "keepRefreshKafkaTopics env s = None"
proof (cases "keepRefreshKafkaTopics env s")
  case (Some r)
  then have False
    by (rule keepRefreshKafkaTopics.raw_induct [where P = "\<lambda>env s r. False", rotated]) (auto split: prod.splits)
  then show ?thesis ..
qed

end
