(* ===== verification/Config_Names.thy ===== *)
theory Config_Names
  imports Main
begin

text \<open>The names of the environment variables and the default values of \<open>cmds/config.go\<close>, under their names there.\<close>

section \<open>Environment variables\<close>

abbreviation (input) EnvKafkaBrokers :: "string" where
  "EnvKafkaBrokers \<equiv> ''BARITO_KAFKA_BROKERS''"

abbreviation (input) EnvKafkaGroupID :: "string" where
  "EnvKafkaGroupID \<equiv> ''BARITO_KAFKA_GROUP_ID''"

abbreviation (input) EnvKafkaUniqueGroupID :: "string" where
  "EnvKafkaUniqueGroupID \<equiv> ''BARITO_KAFKA_UNIQUE_GROUP_ID''"

abbreviation (input) EnvKafkaTopicPrefix :: "string" where
  "EnvKafkaTopicPrefix \<equiv> ''BARITO_KAFKA_TOPIC_PREFIX''"

abbreviation (input) EnvKafkaTopicSuffix :: "string" where
  "EnvKafkaTopicSuffix \<equiv> ''BARITO_KAFKA_TOPIC_SUFFIX''"

abbreviation (input) EnvKafkaMaxRetry :: "string" where
  "EnvKafkaMaxRetry \<equiv> ''BARITO_KAFKA_MAX_RETRY''"

abbreviation (input) EnvKafkaRetryInterval :: "string" where
  "EnvKafkaRetryInterval \<equiv> ''BARITO_KAFKA_RETRY_INTERVAL''"

abbreviation (input) EnvKafkaMessageFormat :: "string" where
  "EnvKafkaMessageFormat \<equiv> ''BARITO_KAFKA_MESSAGE_FORMAT''"

abbreviation (input) EnvElasticsearchUrls :: "string" where
  "EnvElasticsearchUrls \<equiv> ''BARITO_ELASTICSEARCH_URLS''"

abbreviation (input) EnvEsIndexMethod :: "string" where
  "EnvEsIndexMethod \<equiv> ''BARITO_ELASTICSEARCH_INDEX_METHOD''"

abbreviation (input) EnvEsBulkSize :: "string" where
  "EnvEsBulkSize \<equiv> ''BARITO_ELASTICSEARCH_BULK_SIZE''"

abbreviation (input) EnvEsFlushIntervalMs :: "string" where
  "EnvEsFlushIntervalMs \<equiv> ''BARITO_ELASTICSEARCH_FLUSH_INTERVAL_MS''"

abbreviation (input) EnvEsDatastreamDefaultComponentTemplateName :: "string" where
  "EnvEsDatastreamDefaultComponentTemplateName \<equiv> ''BARITO_ELASTICSEARCH_DATASTREAM_DEFAULT_COMPONENT_TEMPLATE_NAME''"

abbreviation (input) EnvGrpcMaxRecvMsgSize :: "string" where
  "EnvGrpcMaxRecvMsgSize \<equiv> ''BARITO_GRPC_MAX_RECV_MSG_SIZE''"

abbreviation (input) EnvPushMetricUrl :: "string" where
  "EnvPushMetricUrl \<equiv> ''BARITO_PUSH_METRIC_URL''"

abbreviation (input) EnvMarketRedactUrl :: "string" where
  "EnvMarketRedactUrl \<equiv> ''BARITO_MARKET_REDACT_ENDPOINT_URL''"

abbreviation (input) EnvClusterName :: "string" where
  "EnvClusterName \<equiv> ''BARITO_CLUSTER_NAME''"

abbreviation (input) EnvPushMetricInterval :: "string" where
  "EnvPushMetricInterval \<equiv> ''BARITO_PUSH_METRIC_INTERVAL''"

abbreviation (input) EnvProducerAddressGrpc :: "string" where
  "EnvProducerAddressGrpc \<equiv> ''BARITO_PRODUCER_GRPC''"

abbreviation (input) EnvProducerAddressRest :: "string" where
  "EnvProducerAddressRest \<equiv> ''BARITO_PRODUCER_REST''"

abbreviation (input) EnvProducerMaxRetry :: "string" where
  "EnvProducerMaxRetry \<equiv> ''BARITO_PRODUCER_MAX_RETRY''"

abbreviation (input) EnvProducerMaxTPS :: "string" where
  "EnvProducerMaxTPS \<equiv> ''BARITO_PRODUCER_MAX_TPS''"

abbreviation (input) EnvProducerRateLimitResetInterval :: "string" where
  "EnvProducerRateLimitResetInterval \<equiv> ''BARITO_PRODUCER_RATE_LIMIT_RESET_INTERVAL''"

abbreviation (input) EnvProducerIgnoreKafkaOptions :: "string" where
  "EnvProducerIgnoreKafkaOptions \<equiv> ''BARITO_PRODUCER_IGNORE_KAFKA_OPTIONS''"

abbreviation (input) EnvProducerMaxMessageBytes :: "string" where
  "EnvProducerMaxMessageBytes \<equiv> ''BARITO_PRODUCER_MAX_MESSAGE_BYTES''"

abbreviation (input) EnvConsulUrl :: "string" where
  "EnvConsulUrl \<equiv> ''BARITO_CONSUL_URL''"

abbreviation (input) EnvConsulKafkaName :: "string" where
  "EnvConsulKafkaName \<equiv> ''BARITO_CONSUL_KAFKA_NAME''"

abbreviation (input) EnvConsulElasticsearchName :: "string" where
  "EnvConsulElasticsearchName \<equiv> ''BARITO_CONSUL_ELASTICSEARCH_NAME''"

abbreviation (input) EnvConsulRedisName :: "string" where
  "EnvConsulRedisName \<equiv> ''BARITO_CONSUL_REDIS_NAME''"

abbreviation (input) EnvNewTopicEventName :: "string" where
  "EnvNewTopicEventName \<equiv> ''BARITO_NEW_TOPIC_EVENT''"

abbreviation (input) EnvConsumerElasticsearchRetrierInterval :: "string" where
  "EnvConsumerElasticsearchRetrierInterval \<equiv> ''BARITO_CONSUMER_ELASTICSEARCH_RETRIER_INTERVAL''"

abbreviation (input) EnvConsumerElasticsearchRetrierMaxRetry :: "string" where
  "EnvConsumerElasticsearchRetrierMaxRetry \<equiv> ''BARITO_CONSUMER_ELASTICSEARCH_RETRIER_MAX_RETRY''"

abbreviation (input) EnvConsumerRebalancingStrategy :: "string" where
  "EnvConsumerRebalancingStrategy \<equiv> ''BARITO_CONSUMER_REBALANCING_STRATEGY''"

abbreviation (input) EnvConsumerGroupSessionTimeout :: "string" where
  "EnvConsumerGroupSessionTimeout \<equiv> ''BARITO_CONSUMER_GROUP_SESSION_TIMEOUT''"

abbreviation (input) EnvConsumerGroupHeartbeatInterval :: "string" where
  "EnvConsumerGroupHeartbeatInterval \<equiv> ''BARITO_CONSUMER_GROUP_HEARTBEAT_INTERVAL''"

abbreviation (input) EnvConsumerMaxProcessingTime :: "string" where
  "EnvConsumerMaxProcessingTime \<equiv> ''BARITO_CONSUMER_MAX_PROCESSING_TIME''"

abbreviation (input) EnvConsumerChannelBufferSize :: "string" where
  "EnvConsumerChannelBufferSize \<equiv> ''BARITO_CONSUMER_CHANNEL_BUFFER_SIZE''"

abbreviation (input) EnvPrintTPS :: "string" where
  "EnvPrintTPS \<equiv> ''BARITO_PRINT_TPS''"

abbreviation (input) EnvElasticUsername :: "string" where
  "EnvElasticUsername \<equiv> ''ELASTIC_USERNAME''"

abbreviation (input) EnvElasticPassword :: "string" where
  "EnvElasticPassword \<equiv> ''ELASTIC_PASSWORD''"

abbreviation (input) EnvElasticCaCrt :: "string" where
  "EnvElasticCaCrt \<equiv> ''BARITO_CONSUMER_ELASTICSEARCH_CA_CERT''"

abbreviation (input) EnvElasticClientCrt :: "string" where
  "EnvElasticClientCrt \<equiv> ''BARITO_CONSUMER_ELASTICSEARCH_CLIENT_CERT''"

abbreviation (input) EnvElasticClientKey :: "string" where
  "EnvElasticClientKey \<equiv> ''BARITO_CONSUMER_ELASTICSEARCH_CLIENT_KEY''"

abbreviation (input) EnvRateLimiterOpt :: "string" where
  "EnvRateLimiterOpt \<equiv> ''BARITO_RATE_LIMITER_OPT''"

abbreviation (input) EnvRedisUrl :: "string" where
  "EnvRedisUrl \<equiv> ''BARITO_REDIS_URL''"

abbreviation (input) EnvRedisPassword :: "string" where
  "EnvRedisPassword \<equiv> ''BARITO_REDIS_PASSWORD''"

abbreviation (input) EnvRedisKeyPrefix :: "string" where
  "EnvRedisKeyPrefix \<equiv> ''BARITO_REDIS_KEY_PREFIX''"

abbreviation (input) EnvRedactorRulesMap :: "string" where
  "EnvRedactorRulesMap \<equiv> ''REDACTOR_RULES_MAP''"

abbreviation (input) EnvMarketClientKey :: "string" where
  "EnvMarketClientKey \<equiv> ''MARKET_REDACT_CLIENT_KEY''"

section \<open>Defaults\<close>

abbreviation (input) DefaultConsulKafkaName :: "string" where
  "DefaultConsulKafkaName \<equiv> ''kafka''"

abbreviation (input) DefaultConsulElasticsearchName :: "string" where
  "DefaultConsulElasticsearchName \<equiv> ''elasticsearch''"

abbreviation (input) DefaultConsulRedisName :: "string" where
  "DefaultConsulRedisName \<equiv> ''redis''"

abbreviation (input) DefaultKafkaBrokers :: "string list" where
  "DefaultKafkaBrokers \<equiv> [''localhost:9092'']"

abbreviation (input) DefaultKafkaTopicPrefix :: "string" where
  "DefaultKafkaTopicPrefix \<equiv> []"

abbreviation (input) DefaultKafkaTopicSuffix :: "string" where
  "DefaultKafkaTopicSuffix \<equiv> ''_logs''"

abbreviation (input) DefaultKafkaGroupID :: "string" where
  "DefaultKafkaGroupID \<equiv> ''barito-group''"

abbreviation (input) DefaultUniqueGroupID :: "bool" where
  "DefaultUniqueGroupID \<equiv> False"

abbreviation (input) DefaultKafkaMaxRetry :: "int" where
  "DefaultKafkaMaxRetry \<equiv> 0"

abbreviation (input) DefaultKafkaRetryInterval :: "int" where
  "DefaultKafkaRetryInterval \<equiv> 10"

abbreviation (input) DefaultKafkaMessageFormat :: "string" where
  "DefaultKafkaMessageFormat \<equiv> ''Timber''"

abbreviation (input) DefaultElasticsearchUrls :: "string list" where
  "DefaultElasticsearchUrls \<equiv> [''http://localhost:9200'']"

abbreviation (input) DefaultGrpcMaxRecvMsgSize :: "int" where
  "DefaultGrpcMaxRecvMsgSize \<equiv> 20 * 1000 * 1000"

abbreviation (input) DefaultPushMetricUrl :: "string" where
  "DefaultPushMetricUrl \<equiv> []"

abbreviation (input) DefaultMarketRedactUrl :: "string" where
  "DefaultMarketRedactUrl \<equiv> []"

abbreviation (input) DefaultClusterName :: "string" where
  "DefaultClusterName \<equiv> []"

abbreviation (input) DefaultMarketClientKey :: "string" where
  "DefaultMarketClientKey \<equiv> []"

abbreviation (input) DefaultPushMetricInterval :: "string" where
  "DefaultPushMetricInterval \<equiv> ''30s''"

abbreviation (input) DefaultProducerAddressGrpc :: "string" where
  "DefaultProducerAddressGrpc \<equiv> '':8082''"

abbreviation (input) DefaultProducerAddressRest :: "string" where
  "DefaultProducerAddressRest \<equiv> '':8080''"

abbreviation (input) DefaultProducerMaxRetry :: "int" where
  "DefaultProducerMaxRetry \<equiv> 10"

abbreviation (input) DefaultProducerMaxTPS :: "int" where
  "DefaultProducerMaxTPS \<equiv> 100"

abbreviation (input) DefaultProducerRateLimitResetInterval :: "int" where
  "DefaultProducerRateLimitResetInterval \<equiv> 10"

abbreviation (input) DefaultProducerIgnoreKafkaOptions :: "string" where
  "DefaultProducerIgnoreKafkaOptions \<equiv> ''false''"

abbreviation (input) DefaultProducerMaxMessageBytes :: "int" where
  "DefaultProducerMaxMessageBytes \<equiv> 1000000"

abbreviation (input) DefaultNewTopicEventName :: "string" where
  "DefaultNewTopicEventName \<equiv> ''new_topic_events''"

abbreviation (input) DefaultElasticsearchRetrierInterval :: "string" where
  "DefaultElasticsearchRetrierInterval \<equiv> ''30s''"

abbreviation (input) DefaultElasticsearchRetrierMaxRetry :: "int" where
  "DefaultElasticsearchRetrierMaxRetry \<equiv> 10"

abbreviation (input) DefaultConsumerRebalancingStrategy :: "string" where
  "DefaultConsumerRebalancingStrategy \<equiv> ''RoundRobin''"

abbreviation (input) DefaultEsIndexMethod :: "string" where
  "DefaultEsIndexMethod \<equiv> ''BulkProcessor''"

abbreviation (input) DefaultEsDatastreamDefaultComponentTemplateName :: "string" where
  "DefaultEsDatastreamDefaultComponentTemplateName \<equiv> ''barito-default-replica''"

abbreviation (input) DefaultEsBulkSize :: "int" where
  "DefaultEsBulkSize \<equiv> 100"

abbreviation (input) DefaultEsFlushIntervalMs :: "int" where
  "DefaultEsFlushIntervalMs \<equiv> 500"

abbreviation (input) DefaultConsumerGroupSessionTimeout :: "int" where
  "DefaultConsumerGroupSessionTimeout \<equiv> 20"

abbreviation (input) DefaultConsumerGroupHeartbeatInterval :: "int" where
  "DefaultConsumerGroupHeartbeatInterval \<equiv> 6"

abbreviation (input) DefaultConsumerMaxProcessingTime :: "int" where
  "DefaultConsumerMaxProcessingTime \<equiv> 500"

abbreviation (input) DefaultConsumerChannelBufferSize :: "int" where
  "DefaultConsumerChannelBufferSize \<equiv> 256"

abbreviation (input) DefaultPrintTPS :: "string" where
  "DefaultPrintTPS \<equiv> ''false''"

abbreviation (input) DefaultElasticUsername :: "string" where
  "DefaultElasticUsername \<equiv> []"

abbreviation (input) DefaultElasticPassword :: "string" where
  "DefaultElasticPassword \<equiv> []"

abbreviation (input) DefaultRedisUrl :: "string" where
  "DefaultRedisUrl \<equiv> ''http://localhost:6379''"

abbreviation (input) DefaultRedisPassword :: "string" where
  "DefaultRedisPassword \<equiv> []"

abbreviation (input) DefaultRedisKeyPrefix :: "string" where
  "DefaultRedisKeyPrefix \<equiv> ''barito:producer:ratelimit:''"

section \<open>No variable is read for two settings\<close>

definition environmentVariables :: "string list" where
  "environmentVariables =
     [EnvKafkaBrokers, EnvKafkaGroupID, EnvKafkaUniqueGroupID, EnvKafkaTopicPrefix, EnvKafkaTopicSuffix,
      EnvKafkaMaxRetry, EnvKafkaRetryInterval, EnvKafkaMessageFormat, EnvElasticsearchUrls,
      EnvEsIndexMethod, EnvEsBulkSize, EnvEsFlushIntervalMs, EnvEsDatastreamDefaultComponentTemplateName,
      EnvGrpcMaxRecvMsgSize, EnvPushMetricUrl, EnvMarketRedactUrl, EnvClusterName, EnvPushMetricInterval,
      EnvProducerAddressGrpc, EnvProducerAddressRest, EnvProducerMaxRetry, EnvProducerMaxTPS,
      EnvProducerRateLimitResetInterval, EnvProducerIgnoreKafkaOptions, EnvProducerMaxMessageBytes,
      EnvConsulUrl, EnvConsulKafkaName, EnvConsulElasticsearchName, EnvConsulRedisName,
      EnvNewTopicEventName, EnvConsumerElasticsearchRetrierInterval,
      EnvConsumerElasticsearchRetrierMaxRetry, EnvConsumerRebalancingStrategy,
      EnvConsumerGroupSessionTimeout, EnvConsumerGroupHeartbeatInterval, EnvConsumerMaxProcessingTime,
      EnvConsumerChannelBufferSize, EnvPrintTPS, EnvElasticUsername, EnvElasticPassword, EnvElasticCaCrt,
      EnvElasticClientCrt, EnvElasticClientKey, EnvRateLimiterOpt, EnvRedisUrl, EnvRedisPassword,
      EnvRedisKeyPrefix, EnvRedactorRulesMap, EnvMarketClientKey]"

lemma environment_variables_distinct: "distinct environmentVariables"
  by (simp add: environmentVariables_def)

end
