(* ===== verification/Config.thy ===== *)
theory Config
  imports Go_Strings Config_Names
begin

text \<open>
  The configuration of \<open>cmds/config.go\<close>, \<open>cmds/consul.go\<close> and \<open>cmds/rate_limiter_opt_config.go\<close>: environment
  variables with defaults, the services registered in Consul, and the choice of rate limiter. The environment
  is a function from names to values, the empty string for an unset variable as \<open>os.Getenv\<close> has it; the
  Consul catalog is a parameter.
\<close>

section \<open>Environment variables\<close>

type_synonym getenv = "string \<Rightarrow> string"

definition stringEnvOrDefault :: "getenv \<Rightarrow> string \<Rightarrow> string \<Rightarrow> string" where
  "stringEnvOrDefault getenv key dflt = (let s = getenv key in if 0 < length s then s else dflt)"

definition boolEnvOrDefault :: "getenv \<Rightarrow> string \<Rightarrow> bool \<Rightarrow> bool" where
  "boolEnvOrDefault getenv key dflt = (let s = getenv key in if 0 < length s then s = ''true'' else dflt)"

definition intEnvOrDefault :: "getenv \<Rightarrow> string \<Rightarrow> int \<Rightarrow> int" where
  "intEnvOrDefault getenv key dflt = (case Atoi (getenv key) of Some i \<Rightarrow> i | None \<Rightarrow> dflt)"

definition sliceEnvOrDefault :: "getenv \<Rightarrow> string \<Rightarrow> char \<Rightarrow> string list \<Rightarrow> string list" where
  "sliceEnvOrDefault getenv key separator dflt =
     (let s = getenv key in if 0 < length s then Split separator s else dflt)"

section \<open>Consul\<close>

record consul_service =
  ServiceAddress :: string
  ServicePort :: int
  ServiceMeta :: "(string \<times> string) list"

text \<open>\<open>catalog address name\<close> is making a client for the address and asking it for the services of a name.\<close>

type_synonym consul_catalog = "string \<Rightarrow> string \<Rightarrow> error + consul_service list"

definition consulServices :: "consul_catalog \<Rightarrow> string \<Rightarrow> string \<Rightarrow> error + consul_service list" where
  "consulServices catalog address name =
     (if length address \<le> 0 then Inl (Err ''No consul address'') else catalog address name)"

definition hostPort :: "consul_service \<Rightarrow> string" where
  "hostPort sv = ServiceAddress sv @ '':'' @ Itoa (ServicePort sv)"

definition serviceUrl :: "consul_service \<Rightarrow> string" where
  "serviceUrl sv =
     (case map_of (ServiceMeta sv) ''http_schema'' of Some x \<Rightarrow> x | None \<Rightarrow> ''http'') @ ''://'' @ hostPort sv"

definition consulKafkaBroker :: "consul_catalog \<Rightarrow> string \<Rightarrow> string \<Rightarrow> error + string list" where
  "consulKafkaBroker catalog address name =
     (case consulServices catalog address name of Inl e \<Rightarrow> Inl e | Inr svs \<Rightarrow> Inr (map hostPort svs))"

definition consulElasticsearchUrl :: "consul_catalog \<Rightarrow> string \<Rightarrow> string \<Rightarrow> error + string list" where
  "consulElasticsearchUrl catalog address name =
     (case consulServices catalog address name of
        Inl e \<Rightarrow> Inl e
      | Inr svs \<Rightarrow> if length svs < 1 then Inl (Err ''No Service'') else Inr (map serviceUrl svs))"

definition consulRedisUrl :: "consul_catalog \<Rightarrow> string \<Rightarrow> string \<Rightarrow> error + string" where
  "consulRedisUrl catalog address name =
     (case consulServices catalog address name of
        Inl e \<Rightarrow> Inl e
      | Inr svs \<Rightarrow> if length svs < 1 then Inl (Err ''No Service'') else Inr (serviceUrl (svs ! 0)))"

section \<open>Settings\<close>

definition configConsulUrl :: "getenv \<Rightarrow> string" where
  "configConsulUrl getenv = getenv EnvConsulUrl"

definition configEsIndexMethod :: "getenv \<Rightarrow> string" where
  "configEsIndexMethod getenv = stringEnvOrDefault getenv EnvEsIndexMethod DefaultEsIndexMethod"

definition configEsBulkSize :: "getenv \<Rightarrow> int" where
  "configEsBulkSize getenv = intEnvOrDefault getenv EnvEsBulkSize DefaultEsBulkSize"

definition configEsFlushIntervalMs :: "getenv \<Rightarrow> int" where
  "configEsFlushIntervalMs getenv = intEnvOrDefault getenv EnvEsFlushIntervalMs DefaultEsFlushIntervalMs"

definition configEsDatastreamDefaultComponentTemplateName :: "getenv \<Rightarrow> string" where
  "configEsDatastreamDefaultComponentTemplateName getenv = stringEnvOrDefault getenv EnvEsDatastreamDefaultComponentTemplateName DefaultEsDatastreamDefaultComponentTemplateName"

definition configGrpcMaxRecvMsgSize :: "getenv \<Rightarrow> int" where
  "configGrpcMaxRecvMsgSize getenv = intEnvOrDefault getenv EnvGrpcMaxRecvMsgSize DefaultGrpcMaxRecvMsgSize"

definition configConsulElasticsearchName :: "getenv \<Rightarrow> string" where
  "configConsulElasticsearchName getenv = stringEnvOrDefault getenv EnvConsulElasticsearchName DefaultConsulElasticsearchName"

definition configKafkaGroupId :: "getenv \<Rightarrow> string" where
  "configKafkaGroupId getenv = stringEnvOrDefault getenv EnvKafkaGroupID DefaultKafkaGroupID"

definition configUniqueGroupID :: "getenv \<Rightarrow> bool" where
  "configUniqueGroupID getenv = boolEnvOrDefault getenv EnvKafkaUniqueGroupID DefaultUniqueGroupID"

definition configKafkaMaxRetry :: "getenv \<Rightarrow> int" where
  "configKafkaMaxRetry getenv = intEnvOrDefault getenv EnvKafkaMaxRetry DefaultKafkaMaxRetry"

definition configKafkaRetryInterval :: "getenv \<Rightarrow> int" where
  "configKafkaRetryInterval getenv = intEnvOrDefault getenv EnvKafkaRetryInterval DefaultKafkaRetryInterval"

definition configKafkaMessageFormat :: "getenv \<Rightarrow> string" where
  "configKafkaMessageFormat getenv = stringEnvOrDefault getenv EnvKafkaMessageFormat DefaultKafkaMessageFormat"

definition configPushMetricUrl :: "getenv \<Rightarrow> string" where
  "configPushMetricUrl getenv = stringEnvOrDefault getenv EnvPushMetricUrl DefaultPushMetricUrl"

definition configMarketRedactUrl :: "getenv \<Rightarrow> string" where
  "configMarketRedactUrl getenv = stringEnvOrDefault getenv EnvMarketRedactUrl DefaultMarketRedactUrl"

definition configClusterName :: "getenv \<Rightarrow> string" where
  "configClusterName getenv = stringEnvOrDefault getenv EnvClusterName DefaultClusterName"

definition configMarketClientKey :: "getenv \<Rightarrow> string" where
  "configMarketClientKey getenv = stringEnvOrDefault getenv EnvMarketClientKey DefaultMarketClientKey"

definition configPushMetricInterval :: "getenv \<Rightarrow> string" where
  "configPushMetricInterval getenv = stringEnvOrDefault getenv EnvPushMetricInterval DefaultPushMetricInterval"

definition configProducerAddressGrpc :: "getenv \<Rightarrow> string" where
  "configProducerAddressGrpc getenv = stringEnvOrDefault getenv EnvProducerAddressGrpc DefaultProducerAddressGrpc"

definition configProducerAddressRest :: "getenv \<Rightarrow> string" where
  "configProducerAddressRest getenv = stringEnvOrDefault getenv EnvProducerAddressRest DefaultProducerAddressRest"

definition configProducerMaxRetry :: "getenv \<Rightarrow> int" where
  "configProducerMaxRetry getenv = intEnvOrDefault getenv EnvProducerMaxRetry DefaultProducerMaxRetry"

definition configProducerRateLimitResetInterval :: "getenv \<Rightarrow> int" where
  "configProducerRateLimitResetInterval getenv = intEnvOrDefault getenv EnvProducerRateLimitResetInterval DefaultProducerRateLimitResetInterval"

definition configProducerMaxTPS :: "getenv \<Rightarrow> int" where
  "configProducerMaxTPS getenv = intEnvOrDefault getenv EnvProducerMaxTPS DefaultProducerMaxTPS"

definition configProducerIgnoreKafkaOptions :: "getenv \<Rightarrow> bool" where
  "configProducerIgnoreKafkaOptions getenv = (stringEnvOrDefault getenv EnvProducerIgnoreKafkaOptions DefaultProducerIgnoreKafkaOptions = ''true'')"

definition configProducerMaxMessageBytes :: "getenv \<Rightarrow> int" where
  "configProducerMaxMessageBytes getenv = intEnvOrDefault getenv EnvProducerMaxMessageBytes DefaultProducerMaxMessageBytes"

definition configConsulKafkaName :: "getenv \<Rightarrow> string" where
  "configConsulKafkaName getenv = stringEnvOrDefault getenv EnvConsulKafkaName DefaultConsulKafkaName"

definition configKafkaTopicSuffix :: "getenv \<Rightarrow> string" where
  "configKafkaTopicSuffix getenv = stringEnvOrDefault getenv EnvKafkaTopicSuffix DefaultKafkaTopicSuffix"

definition configKafkaTopicPrefix :: "getenv \<Rightarrow> string" where
  "configKafkaTopicPrefix getenv = stringEnvOrDefault getenv EnvKafkaTopicPrefix DefaultKafkaTopicPrefix"

definition configNewTopicEvent :: "getenv \<Rightarrow> string" where
  "configNewTopicEvent getenv = stringEnvOrDefault getenv EnvNewTopicEventName DefaultNewTopicEventName"

definition configElasticsearchRetrierInterval :: "getenv \<Rightarrow> string" where
  "configElasticsearchRetrierInterval getenv = stringEnvOrDefault getenv EnvConsumerElasticsearchRetrierInterval DefaultElasticsearchRetrierInterval"

definition configElasticsearchRetrierMaxRetry :: "getenv \<Rightarrow> int" where
  "configElasticsearchRetrierMaxRetry getenv = intEnvOrDefault getenv EnvConsumerElasticsearchRetrierMaxRetry DefaultElasticsearchRetrierMaxRetry"

definition configConsumerRebalancingStrategy :: "getenv \<Rightarrow> string" where
  "configConsumerRebalancingStrategy getenv = stringEnvOrDefault getenv EnvConsumerRebalancingStrategy DefaultConsumerRebalancingStrategy"

definition configConsumerGroupSessionTimeout :: "getenv \<Rightarrow> int" where
  "configConsumerGroupSessionTimeout getenv = intEnvOrDefault getenv EnvConsumerGroupSessionTimeout DefaultConsumerGroupSessionTimeout"

definition configConsumerGroupHeartbeatInterval :: "getenv \<Rightarrow> int" where
  "configConsumerGroupHeartbeatInterval getenv = intEnvOrDefault getenv EnvConsumerGroupHeartbeatInterval DefaultConsumerGroupHeartbeatInterval"

definition configConsumerMaxProcessingTime :: "getenv \<Rightarrow> int" where
  "configConsumerMaxProcessingTime getenv = intEnvOrDefault getenv EnvConsumerMaxProcessingTime DefaultConsumerMaxProcessingTime"

definition configConsumerChannelBufferSize :: "getenv \<Rightarrow> int" where
  "configConsumerChannelBufferSize getenv = intEnvOrDefault getenv EnvConsumerChannelBufferSize DefaultConsumerChannelBufferSize"

definition configPrintTPS :: "getenv \<Rightarrow> bool" where
  "configPrintTPS getenv = (stringEnvOrDefault getenv EnvPrintTPS DefaultPrintTPS = ''true'')"

definition configElasticUsername :: "getenv \<Rightarrow> string" where
  "configElasticUsername getenv = stringEnvOrDefault getenv EnvElasticUsername DefaultElasticUsername"

definition configElasticPassword :: "getenv \<Rightarrow> string" where
  "configElasticPassword getenv = stringEnvOrDefault getenv EnvElasticPassword DefaultElasticPassword"

definition configElasticCaCrt :: "getenv \<Rightarrow> string" where
  "configElasticCaCrt getenv = stringEnvOrDefault getenv EnvElasticCaCrt []"

definition configElasticClientCrt :: "getenv \<Rightarrow> string" where
  "configElasticClientCrt getenv = stringEnvOrDefault getenv EnvElasticClientCrt []"

definition configElasticClientKey :: "getenv \<Rightarrow> string" where
  "configElasticClientKey getenv = stringEnvOrDefault getenv EnvElasticClientKey []"

definition configRedactorRulesMap :: "getenv \<Rightarrow> string" where
  "configRedactorRulesMap getenv = stringEnvOrDefault getenv EnvRedactorRulesMap []"

definition configRedisPassword :: "getenv \<Rightarrow> string" where
  "configRedisPassword getenv = stringEnvOrDefault getenv EnvRedisPassword DefaultRedisPassword"

definition configRedisKeyPrefix :: "getenv \<Rightarrow> string" where
  "configRedisKeyPrefix getenv = stringEnvOrDefault getenv EnvRedisKeyPrefix DefaultRedisKeyPrefix"

definition configConsulRedisName :: "getenv \<Rightarrow> string" where
  "configConsulRedisName getenv = stringEnvOrDefault getenv EnvConsulRedisName DefaultConsulRedisName"

definition configKafkaBrokers :: "getenv \<Rightarrow> consul_catalog \<Rightarrow> string list" where
  "configKafkaBrokers getenv catalog =
     (let brokers = sliceEnvOrDefault getenv EnvKafkaBrokers (CHR '','') []
      in if length brokers \<noteq> 0 then brokers
         else case consulKafkaBroker catalog (configConsulUrl getenv) (configConsulKafkaName getenv) of
                Inr bs \<Rightarrow> bs
              | Inl e \<Rightarrow> DefaultKafkaBrokers)"

definition configElasticsearchUrls :: "getenv \<Rightarrow> consul_catalog \<Rightarrow> string list" where
  "configElasticsearchUrls getenv catalog =
     (let urls = sliceEnvOrDefault getenv EnvElasticsearchUrls (CHR '','') []
      in if 0 < length urls then urls
         else case consulElasticsearchUrl catalog (configConsulUrl getenv) (configConsulElasticsearchName getenv) of
                Inr us \<Rightarrow> us
              | Inl e \<Rightarrow> DefaultElasticsearchUrls)"

text \<open>The Redis lookup assigns its result, or the default, to a variable that is not the one returned.\<close>

definition configRedisUrl :: "getenv \<Rightarrow> consul_catalog \<Rightarrow> string" where
  "configRedisUrl getenv catalog =
     (let url = stringEnvOrDefault getenv EnvRedisUrl DefaultRedisUrl
      in if TrimSpace url \<noteq> [] then url
         else case consulRedisUrl catalog (configConsulUrl getenv) (configConsulRedisName getenv) of
                Inr urls \<Rightarrow> url
              | Inl e \<Rightarrow> (let urls = DefaultRedisUrl in url))"

section \<open>The choice of rate limiter\<close>

datatype RateLimiterOpt =
    RateLimiterOptUndefined | RateLimiterOptLocal | RateLimiterOptRedis | RateLimiterOptGubernator

text \<open>The choices can be enumerated; \<open>RateLimiterAllowedOpts\<close> lists those that name a limiter.\<close>

instantiation RateLimiterOpt :: enum
begin

definition enum_RateLimiterOpt :: "RateLimiterOpt list" where
  "enum_RateLimiterOpt = [RateLimiterOptUndefined, RateLimiterOptLocal, RateLimiterOptRedis, RateLimiterOptGubernator]"

definition enum_all_RateLimiterOpt :: "(RateLimiterOpt \<Rightarrow> bool) \<Rightarrow> bool" where
  "enum_all_RateLimiterOpt P \<longleftrightarrow> list_all P enum_class.enum"

definition enum_ex_RateLimiterOpt :: "(RateLimiterOpt \<Rightarrow> bool) \<Rightarrow> bool" where
  "enum_ex_RateLimiterOpt P \<longleftrightarrow> list_ex P enum_class.enum"

instance
proof
  show univ: "(UNIV :: RateLimiterOpt set) = set enum_class.enum"
    using RateLimiterOpt.exhaust by (auto simp: enum_RateLimiterOpt_def)
  show "distinct (enum_class.enum :: RateLimiterOpt list)" by (simp add: enum_RateLimiterOpt_def)
  show "enum_class.enum_all P \<longleftrightarrow> Ball UNIV P" for P :: "RateLimiterOpt \<Rightarrow> bool"
    by (simp add: enum_all_RateLimiterOpt_def univ list_all_iff)
  show "enum_class.enum_ex P \<longleftrightarrow> Bex UNIV P" for P :: "RateLimiterOpt \<Rightarrow> bool"
    by (simp add: enum_ex_RateLimiterOpt_def univ list_ex_iff)
qed

end

definition RateLimiterAllowedOpts :: "RateLimiterOpt list" where
  "RateLimiterAllowedOpts = [RateLimiterOptLocal, RateLimiterOptRedis, RateLimiterOptGubernator]"

definition NewRateLimiterOpt :: "string \<Rightarrow> RateLimiterOpt" where
  "NewRateLimiterOpt s =
     (let t = TrimSpace (ToUpper s)
      in if t = ''LOCAL'' then RateLimiterOptLocal
         else if t = ''REDIS'' then RateLimiterOptRedis
         else if t = ''GUBERNATOR'' then RateLimiterOptGubernator
         else RateLimiterOptUndefined)"

fun RateLimiterOpt_String :: "RateLimiterOpt \<Rightarrow> string" where
  "RateLimiterOpt_String RateLimiterOptUndefined = ''UNDEFINED''"
| "RateLimiterOpt_String RateLimiterOptLocal = ''LOCAL''"
| "RateLimiterOpt_String RateLimiterOptRedis = ''REDIS''"
| "RateLimiterOpt_String RateLimiterOptGubernator = ''GUBERNATOR''"

abbreviation (input) DefaultRateLimiterOpt :: RateLimiterOpt where
  "DefaultRateLimiterOpt \<equiv> RateLimiterOptLocal"

definition configRateLimiterOpt :: "getenv \<Rightarrow> RateLimiterOpt" where
  "configRateLimiterOpt getenv =
     NewRateLimiterOpt (stringEnvOrDefault getenv EnvRateLimiterOpt (RateLimiterOpt_String DefaultRateLimiterOpt))"

section \<open>Where a setting comes from\<close>

text \<open>
  Addresses of the services: a variable that is set decides, split at its commas and joining back to the
  same text; otherwise Consul, if it answers, and the default if not. The list for Elasticsearch is never
  empty; the one for Kafka is empty exactly when the variable is unset and Consul knows no service of the
  name, since an empty answer is not treated as none.
\<close>

lemma addresses_precedence:
  "(getenv ''BARITO_KAFKA_BROKERS'' \<noteq> [] \<longrightarrow>
      Join (CHR '','') (configKafkaBrokers getenv catalog) = getenv ''BARITO_KAFKA_BROKERS'')
   \<and> (getenv ''BARITO_ELASTICSEARCH_URLS'' \<noteq> [] \<longrightarrow>
      Join (CHR '','') (configElasticsearchUrls getenv catalog) = getenv ''BARITO_ELASTICSEARCH_URLS'')
   \<and> configElasticsearchUrls getenv catalog \<noteq> []
   \<and> (configKafkaBrokers getenv catalog = [] \<longleftrightarrow>
      getenv ''BARITO_KAFKA_BROKERS'' = [] \<and>
      consulServices catalog (configConsulUrl getenv) (configConsulKafkaName getenv) = Inr [])"
  by (auto simp: configKafkaBrokers_def configElasticsearchUrls_def sliceEnvOrDefault_def Join_Split
      consulKafkaBroker_def consulElasticsearchUrl_def Let_def split: sum.splits if_splits)

lemma addresses_precedence_example:
  "Join (CHR '','') (configKafkaBrokers (\<lambda>k. if k = ''BARITO_KAFKA_BROKERS'' then ''a:1,b:2'' else []) (\<lambda>_ _. Inr [])) = ''a:1,b:2''
   \<and> configKafkaBrokers (\<lambda>k. if k = ''BARITO_CONSUL_URL'' then ''c:8500'' else []) (\<lambda>_ _. Inr []) = []"
  using addresses_precedence [of "\<lambda>k. if k = ''BARITO_KAFKA_BROKERS'' then ''a:1,b:2'' else []" "\<lambda>_ _. Inr []"]
    addresses_precedence [of "\<lambda>k. if k = ''BARITO_CONSUL_URL'' then ''c:8500'' else []" "\<lambda>_ _. Inr []"]
  by (simp add: consulServices_def configConsulUrl_def)

text \<open>
  The Redis address never comes from Consul: whatever the catalog answers, the address is the value of
  its variable if that is not empty, blanks included, and otherwise the built-in default.
\<close>

lemma redis_url_ignores_consul:
  "configRedisUrl getenv catalog =
     (if getenv ''BARITO_REDIS_URL'' \<noteq> [] then getenv ''BARITO_REDIS_URL'' else ''http://localhost:6379'')"
  by (auto simp: configRedisUrl_def stringEnvOrDefault_def Let_def split: sum.splits)

text \<open>
  Numbers round-trip: an integer setting given in decimal, as \<open>strconv.Itoa\<close> prints it, is read back as
  that integer for every value of 64 bits; an unset or unreadable one gives the default.
\<close>

lemma int_setting_roundtrip:
  "(- (2 ^ 63) \<le> i \<and> i < 2 ^ 63 \<and> getenv key = Itoa i \<longrightarrow> intEnvOrDefault getenv key dflt = i)
   \<and> (Atoi (getenv key) = None \<longrightarrow> intEnvOrDefault getenv key dflt = dflt)"
  by (auto simp: intEnvOrDefault_def Atoi_Itoa)

lemma int_setting_roundtrip_example:
  "intEnvOrDefault (\<lambda>_. Itoa (- 42)) ''BARITO_KAFKA_MAX_RETRY'' 0 = - 42
   \<and> intEnvOrDefault (\<lambda>_. ''ten'') ''BARITO_KAFKA_MAX_RETRY'' 10 = 10"
  using int_setting_roundtrip [of "- 42" "\<lambda>_. Itoa (- 42)" "''BARITO_KAFKA_MAX_RETRY''" 0]
    int_setting_roundtrip [of 0 "\<lambda>_. ''ten''" "''BARITO_KAFKA_MAX_RETRY''" 10]
  by (simp add: Atoi_def digitVal_def)

lemma limiter_opt_roundtrip: "NewRateLimiterOpt (RateLimiterOpt_String opt) = opt"
  by (cases opt) (simp_all add: NewRateLimiterOpt_def ToUpper_def upperChar_def TrimSpace_def isSpace_def Let_def)

text \<open>The allowed choices are all but the undefined one, and a text is one of them exactly if it is its name.\<close>

lemma allowed_opts: "RateLimiterAllowedOpts = filter (\<lambda>opt. opt \<noteq> RateLimiterOptUndefined) enum_class.enum"
  by (simp add: RateLimiterAllowedOpts_def enum_RateLimiterOpt_def)

lemma NewRateLimiterOpt_allowed:
  "NewRateLimiterOpt s \<in> set RateLimiterAllowedOpts \<longleftrightarrow> TrimSpace (ToUpper s) \<in> RateLimiterOpt_String ` set RateLimiterAllowedOpts"
  by (simp add: NewRateLimiterOpt_def RateLimiterAllowedOpts_def Let_def)

end
