(* ===== verification/Actions.thy ===== *)
theory Actions
  imports Producer_Rate Redis_Limiter Consumer_Lifecycle GCS_Rounds Config
begin

text \<open>
  The commands of \<open>cmds/action.go\<close> that build the services from the configuration, and the callback of
  \<open>cmds/metric_market_callback.go\<close> that reports the number of stored logs. Redis, Gubernator, Kafka, the
  market and HTTP are parameters. A command is modelled up to the point where it waits for a signal to shut
  down; closing is in the theories of the services.
\<close>

section \<open>Kafka client settings\<close>

datatype balance_strategy = BalanceStrategyRoundRobin | BalanceStrategyRange

text \<open>The fields of \<open>sarama.Config\<close> that the program sets; durations are nanoseconds.\<close>

record sarama_config =
  CommitInterval :: int
  AutoCommitEnable :: bool
  SessionTimeout :: int
  HeartbeatInterval :: int
  MaxProcessingTime :: int
  ChannelBufferSize :: int
  RebalanceStrategy :: balance_strategy
  RequiredAcks :: int
  MaxMessageBytes :: int
  RetryMax :: int
  ReturnSuccesses :: bool
  Compression :: string
  RefreshFrequency :: int
  FlushBytes :: int
  FlushFrequency :: int
  Version :: string

text \<open>\<open>time.Duration(n) * unit\<close> wraps at 64 bits.\<close>

definition durationOf :: "int \<Rightarrow> int \<Rightarrow> int" where
  "durationOf n unit = sint (word_of_int (n * unit) :: int64)"

abbreviation "Second \<equiv> 1000000000 :: int"
abbreviation "Millisecond \<equiv> 1000000 :: int"

definition consumerConfig :: "getenv \<Rightarrow> sarama_config \<Rightarrow> sarama_config" where
  "consumerConfig getenv base =
     base\<lparr>CommitInterval := Second, Version := ''2.6.0'',
       SessionTimeout := durationOf (configConsumerGroupSessionTimeout getenv) Second,
       HeartbeatInterval := durationOf (configConsumerGroupHeartbeatInterval getenv) Second,
       MaxProcessingTime := durationOf (configConsumerMaxProcessingTime getenv) Millisecond,
       ChannelBufferSize := configConsumerChannelBufferSize getenv,
       RebalanceStrategy :=
         (if configConsumerRebalancingStrategy getenv = ''RoundRobin'' then BalanceStrategyRoundRobin
          else if configConsumerRebalancingStrategy getenv = ''Range'' then BalanceStrategyRange
          else RebalanceStrategy base)\<rparr>"

definition producerConfig :: "getenv \<Rightarrow> sarama_config \<Rightarrow> sarama_config" where
  "producerConfig getenv base =
     base\<lparr>RequiredAcks := 1, MaxMessageBytes := configProducerMaxMessageBytes getenv,
       RetryMax := configProducerMaxRetry getenv, ReturnSuccesses := True, Compression := ''zstd'',
       RefreshFrequency := 60 * Second, FlushBytes := 16000, FlushFrequency := 100 * Millisecond, Version := ''2.6.0''\<rparr>"

definition gcsConsumerConfig :: "getenv \<Rightarrow> sarama_config \<Rightarrow> sarama_config" where
  "gcsConsumerConfig getenv base =
     base\<lparr>CommitInterval := 999999 * 3600 * Second, AutoCommitEnable := False, Version := ''2.6.0'',
       SessionTimeout := durationOf (configConsumerGroupSessionTimeout getenv) Second,
       HeartbeatInterval := durationOf (configConsumerGroupHeartbeatInterval getenv) Second,
       MaxProcessingTime := durationOf (configConsumerMaxProcessingTime getenv) Millisecond,
       RebalanceStrategy := BalanceStrategyRoundRobin\<rparr>"

section \<open>The producer\<close>

text \<open>A value of the interface \<open>RateLimiter\<close> is one of the three implementations; a call goes to its method.\<close>

datatype ('r, 'g) RateLimiter =
    LocalLimiter rateLimiter
  | RedisLimiter "(rateLimiter, 'r) RedisRateLimiter"
  | GubernatorLimiter "'g GubernatorRateLimiter"

text \<open>
  \<open>dial\<close> makes a Redis client for an address and a password, \<open>ping\<close> sends its command;
  \<open>daemonConfig\<close> and \<open>spawnDaemon\<close> are Gubernator's.
\<close>

record ('r, 'g, 'd) limiter_env =
  dial :: "string \<Rightarrow> string \<Rightarrow> 'r"
  ping :: "'r \<Rightarrow> error option \<times> 'r"
  daemonConfig :: "error + 'd"
  spawnDaemon :: "'d \<Rightarrow> error + 'g"
  redisCmds :: "'r redis_env"
  getRateLimits :: "gub_request \<Rightarrow> 'g \<Rightarrow> (error + gub_status list) \<times> 'g"

fun interfaceIsHitLimit :: "('r, 'g, 'd) limiter_env \<Rightarrow> rateLimiter limiter_impl \<Rightarrow> ('r, 'g) RateLimiter hit_limit" where
  "interfaceIsHitLimit le impl (LocalLimiter l) k n m =
     (let (h, l1) = IsHitLimit l k n m in (h, LocalLimiter l1))"
| "interfaceIsHitLimit le impl (RedisLimiter l) k n m =
     (let (h, l1) = redisIsHitLimit impl (redisCmds le) l k n m in (h, RedisLimiter l1))"
| "interfaceIsHitLimit le impl (GubernatorLimiter l) k n m =
     (let (h, l1) = gubIsHitLimit (getRateLimits le) l k n m in (h, GubernatorLimiter l1))"

definition setupGubernatorRateLimiter :: "('r, 'g, 'd) limiter_env \<Rightarrow> int \<Rightarrow> error + 'g GubernatorRateLimiter" where
  "setupGubernatorRateLimiter le rateLimitResetInterval =
     (case daemonConfig le of
        Inl e \<Rightarrow> Inl (Concat (Err ''failed to initiate gubernator config.'') e)
      | Inr conf \<Rightarrow>
          (case spawnDaemon le conf of
             Inl e \<Rightarrow> Inl (Concat (Err ''failed to initiate gubernator.'') e)
           | Inr daemon \<Rightarrow> Inr (NewGubernatorRateLimiter daemon (word_of_int rateLimitResetInterval))))"

definition setupRedisRateLimiter :: "('r, 'g, 'd) limiter_env \<Rightarrow> string \<Rightarrow> string \<Rightarrow> string \<Rightarrow> int \<Rightarrow>
    error + (rateLimiter, 'r) RedisRateLimiter" where
  "setupRedisRateLimiter le redisUrl redisPassword redisKeyPrefix rateLimitResetInterval =
     (case ping le (dial le redisUrl redisPassword) of
        (Some e, r) \<Rightarrow> Inl (Concat (Err ''failed to ping redis client.'') e)
      | (None, r) \<Rightarrow>
          Inr (NewRedisRateLimiter r
            [WithDuration (durationOf rateLimitResetInterval Second), WithKeyPrefix redisKeyPrefix,
             WithFallbackToLocal (FullLimiter (NewRateLimiter (word_of_int rateLimitResetInterval))), WithMutex]))"

definition makeLimiter :: "('r, 'g, 'd) limiter_env \<Rightarrow> getenv \<Rightarrow> consul_catalog \<Rightarrow> error + ('r, 'g) RateLimiter" where
  "makeLimiter le getenv catalog =
     (let interval = configProducerRateLimitResetInterval getenv
      in case configRateLimiterOpt getenv of
           RateLimiterOptUndefined \<Rightarrow> Inl (Err ''undefined rate limiter options, allowed options are [LOCAL REDIS GUBERNATOR]'')
         | RateLimiterOptRedis \<Rightarrow>
             (case setupRedisRateLimiter le (configRedisUrl getenv catalog) (configRedisPassword getenv)
                     (configRedisKeyPrefix getenv) interval of
                Inl e \<Rightarrow> Inl (Concat (Err ''failed to setup redis rate limiter.'') e)
              | Inr l \<Rightarrow> Inr (RedisLimiter l))
         | RateLimiterOptGubernator \<Rightarrow>
             (case setupGubernatorRateLimiter le interval of
                Inl e \<Rightarrow> Inl (Concat (Err ''failed to setup gubernator rate limiter.'') e)
              | Inr l \<Rightarrow> Inr (GubernatorLimiter l))
         | RateLimiterOptLocal \<Rightarrow> Inr (LocalLimiter (NewRateLimiter (word_of_int interval))))"

definition producerParams :: "getenv \<Rightarrow> 'l \<Rightarrow> string \<rightharpoonup> 'l param" where
  "producerParams getenv l =
     [''factory'' \<mapsto> PFactory,
      ''grpcAddr'' \<mapsto> PString (configProducerAddressGrpc getenv),
      ''restAddr'' \<mapsto> PString (configProducerAddressRest getenv),
      ''topicPrefix'' \<mapsto> PString (configKafkaTopicPrefix getenv),
      ''topicSuffix'' \<mapsto> PString (configKafkaTopicSuffix getenv),
      ''kafkaMaxRetry'' \<mapsto> PInt (configKafkaMaxRetry getenv),
      ''kafkaRetryInterval'' \<mapsto> PInt (configKafkaRetryInterval getenv),
      ''newEventTopic'' \<mapsto> PString (configNewTopicEvent getenv),
      ''grpcMaxRecvMsgSize'' \<mapsto> PInt (configGrpcMaxRecvMsgSize getenv),
      ''ignoreKafkaOptions'' \<mapsto> PBool (configProducerIgnoreKafkaOptions getenv),
      ''limiter'' \<mapsto> PLimiter l,
      ''kafkaMessageFormat'' \<mapsto> PString (configKafkaMessageFormat getenv)]"

text \<open>
  \<open>k brokers config\<close> is the outside world seen through a factory for these brokers and this configuration.
  After this the command starts the service in a goroutine, dropping the error of \<open>Start\<close>.
\<close>

definition ActionBaritoProducerService :: "('r, 'g, 'd) limiter_env \<Rightarrow> getenv \<Rightarrow> consul_catalog \<Rightarrow> sarama_config \<Rightarrow>
    (string list \<Rightarrow> sarama_config \<Rightarrow> 'k) \<Rightarrow> (error + (('r, 'g) RateLimiter, 'k) producerService) go" where
  "ActionBaritoProducerService le getenv catalog base k =
     (case makeLimiter le getenv catalog of
        Inl e \<Rightarrow> Ret (Inl e)
      | Inr l \<Rightarrow>
          go_bind (NewProducerService (producerParams getenv l) []
              (k (configKafkaBrokers getenv catalog) (producerConfig getenv base)))
            (\<lambda>s. Ret (Inr s)))"

section \<open>The consumers\<close>

definition setupRedactor :: "(string \<Rightarrow> 'w \<Rightarrow> (error + string) \<times> 'w) \<Rightarrow> rules_decoder \<Rightarrow> getenv \<Rightarrow> metrics \<Rightarrow> 'w \<Rightarrow>
    (Redactor option \<times> metrics \<times> 'w) go" where
  "setupRedactor get decRules getenv ms w =
     (if configRedactorRulesMap getenv = []
      then go_bind (NewRedactorFromMarket get decRules (configMarketRedactUrl getenv) (configClusterName getenv)
             (configMarketClientKey getenv) ms w) (\<lambda>(r, ms1, w1). Ret (Some r, ms1, w1))
      else Ret (None, ms, w))"

definition consumerParams :: "getenv \<Rightarrow> Redactor option \<Rightarrow> consumer_params" where
  "consumerParams getenv r =
     \<lparr>p_groupID = configKafkaGroupId getenv, p_uniqueGroupID = configUniqueGroupID getenv,
      p_topicPrefix = configKafkaTopicPrefix getenv, p_topicSuffix = configKafkaTopicSuffix getenv,
      p_kafkaMaxRetry = configKafkaMaxRetry getenv, p_kafkaRetryInterval = configKafkaRetryInterval getenv,
      p_newTopicEventName = configNewTopicEvent getenv,
      p_elasticRetrierInterval = configElasticsearchRetrierInterval getenv,
      p_elasticRetrierMaxRetry = configElasticsearchRetrierMaxRetry getenv,
      p_esConfig = NewEsConfig (configEsIndexMethod getenv) (configEsBulkSize getenv) (configEsFlushIntervalMs getenv)
        (configPrintTPS getenv) (configEsDatastreamDefaultComponentTemplateName getenv),
      p_redactor = r,
      p_tls =
        (if configElasticCaCrt getenv \<noteq> []
         then Some (configElasticCaCrt getenv, configElasticClientCrt getenv, configElasticClientKey getenv)
         else None)\<rparr>"

text \<open>The interval is given to \<open>SetCallback\<close>, and the URL; the answer says whether a callback was set.\<close>

definition callbackInstrumentation :: "(string \<Rightarrow> int option) \<Rightarrow> getenv \<Rightarrow> (int \<times> string) option" where
  "callbackInstrumentation parse getenv =
     (if configPushMetricUrl getenv = [] then None
      else Some (ParseDuration parse (configPushMetricInterval getenv), configPushMetricUrl getenv))"

record ('e, 'k, 'w) consumer_action_env =
  service_env :: "('e, 'k) consumer_env"
  httpGet :: "string \<Rightarrow> 'w \<Rightarrow> (error + string) \<times> 'w"
  decodeRules :: rules_decoder
  jsonCodec :: json_codec
  tlsFiles :: tls_files
  newEsClient :: "string list \<Rightarrow> string \<Rightarrow> string \<Rightarrow> http_client \<Rightarrow> error option"
  newBulkProcessor :: "int \<Rightarrow> int \<Rightarrow> error option"

definition makeConsumer :: "('e, 'k, 'w) consumer_action_env \<Rightarrow> getenv \<Rightarrow> consul_catalog \<Rightarrow> 'w \<Rightarrow> instru \<Rightarrow> 'e \<Rightarrow> 'k \<Rightarrow>
    ('e, 'k) baritoConsumerService go" where
  "makeConsumer env getenv catalog w i e k =
     go_bind (setupRedactor (httpGet env) (decodeRules env) getenv [] w) (\<lambda>(r, ms, w1).
       NewBaritoConsumerService (jsonCodec env) (tlsFiles env)
         (newEsClient env (configElasticsearchUrls getenv catalog) (configElasticUsername getenv) (configElasticPassword getenv))
         (newBulkProcessor env (configEsBulkSize getenv) (configEsFlushIntervalMs getenv))
         (consumerParams getenv r) ms i e k)"

text \<open>
  The result is \<^const>\<open>None\<close> when connecting to Kafka never ends. \<open>k brokers config\<close> is as for the producer.
\<close>

definition ActionBaritoConsumerService :: "('e, 'k, 'w) consumer_action_env \<Rightarrow> getenv \<Rightarrow> consul_catalog \<Rightarrow> sarama_config \<Rightarrow>
    'w \<Rightarrow> instru \<Rightarrow> 'e \<Rightarrow> (string list \<Rightarrow> sarama_config \<Rightarrow> 'k) \<Rightarrow>
    ((int \<times> string) option \<times> error option \<times> ('e, 'k) baritoConsumerService) go option" where
  "ActionBaritoConsumerService env getenv catalog base w i e k =
     (case makeConsumer env getenv catalog w i e (k (configKafkaBrokers getenv catalog) (consumerConfig getenv base)) of
        Panic p \<Rightarrow> Some (Panic p)
      | Ret s \<Rightarrow>
          (case startConsumer (service_env env) s of
             None \<Rightarrow> None
           | Some (err, s1) \<Rightarrow>
               Some (Ret (callbackInstrumentation (parseDurationNs (service_env env)) getenv, err, s1))))"

text \<open>The loop over the topics that \<open>Start\<close> leaves running is made of \<^const>\<open>gcsRound\<close>.\<close>

definition ActionBaritoConsumerGCSService :: "('w, 'k) gcs_service_env \<Rightarrow> (string \<Rightarrow> int option) \<Rightarrow>
    (string \<Rightarrow> (string \<Rightarrow> bool) option) \<Rightarrow> KafkaConsumerGCSSettings option \<Rightarrow> getenv \<Rightarrow> consul_catalog \<Rightarrow> sarama_config \<Rightarrow>
    (string list \<Rightarrow> sarama_config \<Rightarrow> 'k) \<Rightarrow> ((int \<times> string) option \<times> 'k gcsService) go" where
  "ActionBaritoConsumerGCSService env parse compile gcsSettings getenv catalog base k =
     go_bind (NewBaritoKafkaConsumerGCSFromEnv env compile gcsSettings []
         (k (configKafkaBrokers getenv catalog) (gcsConsumerConfig getenv base)))
       (\<lambda>s. Ret (callbackInstrumentation parse getenv, s))"

section \<open>Reporting the number of stored logs\<close>

record ApplicationGroup =
  ag_AppSecret :: string
  ag_LogCount :: int64

text \<open>
  \<open>marshal\<close> is \<open>json.Marshal\<close> of the payload, \<open>post\<close> the request with the status code of its response;
  \<open>eventCount\<close> and \<open>flush\<close> are the \<open>instru\<close> package's.
\<close>

record 'w callback_env =
  marshalPayload :: "ApplicationGroup list \<Rightarrow> string"
  httpPost :: "string \<Rightarrow> string \<Rightarrow> string \<Rightarrow> 'w \<Rightarrow> (error + int) \<times> 'w"
  eventCount :: "string \<Rightarrow> string \<Rightarrow> instru \<Rightarrow> int64"
  flush :: "instru \<Rightarrow> instru"

definition metricPayload :: "'w callback_env \<Rightarrow> instru \<Rightarrow> ApplicationGroup list" where
  "metricPayload env i =
     map (\<lambda>appSecret. \<lparr>ag_AppSecret = appSecret, ag_LogCount = eventCount env (appSecret @ ''_es_store'') ''success'' i\<rparr>)
       (GetApplicationSecretCollection i)"

definition OnCallback :: "'w callback_env \<Rightarrow> string \<Rightarrow> instru \<Rightarrow> 'w \<Rightarrow> error option \<times> instru \<times> 'w" where
  "OnCallback env url i w =
     (case httpPost env url ''application/json'' (marshalPayload env (metricPayload env i)) w of
        (Inl e, w1) \<Rightarrow> (Some e, i, w1)
      | (Inr statusCode, w1) \<Rightarrow>
          (if statusCode \<noteq> 200 then Some (Err (''Got status code '' @ Itoa statusCode)) else None, flush env i, w1))"

section \<open>Properties\<close>

text \<open>A service with the settings of the environment and no connection yet.\<close>

definition asConfigured :: "getenv \<Rightarrow> ('l, 'k) producerService \<Rightarrow> bool" where
  "asConfigured getenv s \<longleftrightarrow>
     grpcAddr s = configProducerAddressGrpc getenv \<and> topicPrefix s = configKafkaTopicPrefix getenv
     \<and> topicSuffix s = configKafkaTopicSuffix getenv \<and> kafkaMaxRetry s = configKafkaMaxRetry getenv
     \<and> kafkaRetryInterval s = configKafkaRetryInterval getenv \<and> newEventTopic s = configNewTopicEvent getenv
     \<and> grpcMaxRecvMsgSize s = configGrpcMaxRecvMsgSize getenv
     \<and> ignoreKafkaOptions s = configProducerIgnoreKafkaOptions getenv
     \<and> kafkaMessageFormat s = configKafkaMessageFormat getenv \<and> \<not> producer s \<and> adminOf s = None"

lemma NewProducerService_configured:
  "\<exists>s. NewProducerService (producerParams getenv l) [] k = Ret s \<and> limiter s = l \<and> asConfigured getenv s"
  by (simp add: NewProducerService_def producerParams_def asConfigured_def)

definition limiterAsConfigured :: "('r, 'g, 'd) limiter_env \<Rightarrow> getenv \<Rightarrow> consul_catalog \<Rightarrow> error + ('r, 'g) RateLimiter \<Rightarrow> bool" where
  "limiterAsConfigured le getenv catalog r \<longleftrightarrow>
     (let interval = configProducerRateLimitResetInterval getenv
      in case configRateLimiterOpt getenv of
           RateLimiterOptUndefined \<Rightarrow> isl r
         | RateLimiterOptLocal \<Rightarrow> r = Inr (LocalLimiter (NewRateLimiter (word_of_int interval)))
         | RateLimiterOptRedis \<Rightarrow>
             if fst (ping le (dial le (configRedisUrl getenv catalog) (configRedisPassword getenv))) \<noteq> None then isl r
             else \<exists>l. r = Inr (RedisLimiter l) \<and> \<not> rr_isUsingLocal l
               \<and> rr_db l = snd (ping le (dial le (configRedisUrl getenv catalog) (configRedisPassword getenv))) \<and> rr_mutex l \<and> rr_duration l = durationOf interval Second
               \<and> rr_keyPrefix l = TrimSpace (configRedisKeyPrefix getenv)
               \<and> rr_localLimiter l = FullLimiter (NewRateLimiter (word_of_int interval))
         | RateLimiterOptGubernator \<Rightarrow>
             (case daemonConfig le of
                Inl _ \<Rightarrow> isl r
              | Inr conf \<Rightarrow>
                  (case spawnDaemon le conf of
                     Inl _ \<Rightarrow> isl r
                   | Inr daemon \<Rightarrow> r = Inr (GubernatorLimiter \<lparr>gub_interval = word_of_int interval, gub_daemon = daemon\<rparr>))))"

lemma setupRedis_configured:
  "if fst (ping le (dial le url pass)) \<noteq> None then isl (setupRedisRateLimiter le url pass prefx interval)
   else \<exists>l. setupRedisRateLimiter le url pass prefx interval = Inr l \<and> \<not> rr_isUsingLocal l \<and> rr_mutex l
     \<and> rr_duration l = durationOf interval Second \<and> rr_keyPrefix l = TrimSpace prefx \<and> rr_db l = snd (ping le (dial le url pass))
     \<and> rr_localLimiter l = FullLimiter (NewRateLimiter (word_of_int interval))"
  by (cases "ping le (dial le url pass)")
    (auto simp: setupRedisRateLimiter_def NewRedisRateLimiter_def WithDuration_def WithKeyPrefix_def WithFallbackToLocal_def
      WithMutex_def split: option.splits)

lemma makeLimiter_configured: "limiterAsConfigured le getenv catalog (makeLimiter le getenv catalog)"
proof (cases "configRateLimiterOpt getenv")
  case RateLimiterOptRedis
  with setupRedis_configured [of le "configRedisUrl getenv catalog" "configRedisPassword getenv" "configRedisKeyPrefix getenv"
      "configProducerRateLimitResetInterval getenv"] show ?thesis
    by (auto simp: limiterAsConfigured_def makeLimiter_def Let_def isl_def split: if_splits sum.splits)
next
  case RateLimiterOptGubernator
  then show ?thesis
    by (simp add: limiterAsConfigured_def makeLimiter_def Let_def setupGubernatorRateLimiter_def NewGubernatorRateLimiter_def
        split: sum.split)
qed (simp_all add: limiterAsConfigured_def makeLimiter_def Let_def)

lemma ActionBaritoProducerService_correct:
  "\<exists>r. ActionBaritoProducerService le getenv catalog base k = Ret r
    \<and> limiterAsConfigured le getenv catalog (map_sum id limiter r)
    \<and> (case r of Inl _ \<Rightarrow> True | Inr s \<Rightarrow> asConfigured getenv s)"
proof (cases "makeLimiter le getenv catalog")
  case (Inl e)
  with makeLimiter_configured [of le getenv catalog] show ?thesis by (simp add: ActionBaritoProducerService_def)
next
  case (Inr l)
  obtain s where "NewProducerService (producerParams getenv l) []
      (k (configKafkaBrokers getenv catalog) (producerConfig getenv base)) = Ret s" "limiter s = l" "asConfigured getenv s"
    using NewProducerService_configured
      [of getenv l "k (configKafkaBrokers getenv catalog) (producerConfig getenv base)"] by blast
  with Inr makeLimiter_configured [of le getenv catalog] show ?thesis by (simp add: ActionBaritoProducerService_def)
qed

lemma ActionBaritoProducerService_result:
  assumes "ActionBaritoProducerService le getenv catalog base k = Ret (Inr s)"
  shows "limiterAsConfigured le getenv catalog (Inr (limiter s))" "asConfigured getenv s"
  using ActionBaritoProducerService_correct [of le getenv catalog base k] assms by auto


lemma spawnWorkers_redactor: "redactor (bc_esClient (spawnWorkers env ts s)) = redactor (bc_esClient s)"
proof (induction ts arbitrary: s)
  case (Cons topic ts)
  have "redactor (bc_esClient s1) = redactor (bc_esClient s)" if "spawnLogsWorker env topic offs s = (err, s1)" for err s1 offs
    using that by (auto simp: spawnLogsWorker_def split: prod.splits option.splits)
  with Cons show ?case
    by (auto simp: closeConsumer_def observeC_def logError_def Let_def split: prod.splits option.splits)
qed simp

lemma startConsumer_redactor:
  assumes "startConsumer env s = Some (err, s')"
  shows "redactor (bc_esClient s') = redactor (bc_esClient s)"
proof -
  let ?P = "\<lambda>v. redactor (bc_esClient v) = redactor (bc_esClient s)"
  obtain r n s1 where 1: "initAdmin env s = Some (r, n, s1)"
    using assms by (cases "initAdmin env s") (auto simp: startConsumer_def)
  have p: "?P s1"
    using retryLoop_invariant [OF 1 [unfolded initAdmin_def], of ?P]
    by (auto simp: makeConsumerAdmin_def sleepConsumer_def split: prod.splits sum.splits)
  show ?thesis
  proof (cases r)
    case (Inl e)
    with assms 1 p show ?thesis by (simp add: startConsumer_def)
  next
    case (Inr a)
    with assms 1 p show ?thesis
      by (auto simp: startConsumer_def initNewTopicWorker_def startEventWorker_def spawnWorkers_redactor observeC_def logError_def
          Let_def split_beta split: prod.splits option.splits)
  qed
qed

lemma makeConsumer_nil_redactor:
  assumes "makeConsumer env getenv catalog w i e k = Ret s" and "getenv ''REDACTOR_RULES_MAP'' \<noteq> []"
  obtains codec fs ce be p ms where "NewBaritoConsumerService codec fs ce be p ms i e k = Ret s" "p_redactor p = None"
  using assms
  by (auto simp: makeConsumer_def setupRedactor_def configRedactorRulesMap_def stringEnvOrDefault_def Let_def consumerParams_def)

text \<open>
  C40. Redaction rules given in the environment stop the consumer: with \<open>REDACTOR_RULES_MAP\<close> set, the rules in
  it are never read, the consumer command starts its service with a nil redactor, and storing a log that
  converts to a document panics, unless waiting for the index never ends.
\<close>

theorem rules_in_environment_break_storing:
  assumes "ActionBaritoConsumerService env getenv catalog base w i e k = Some (Ret (cb, err, s))"
    and "getenv ''REDACTOR_RULES_MAP'' \<noteq> []"
    and "fst (ConvertTimberToEsDocumentString (structJson es_env) t) = Inr doc"
  shows "Store es_env t (bc_esClient s) = None \<or> (\<exists>msg. Store es_env t (bc_esClient s) = Some (Panic msg))"
proof -
  obtain s0 where 0: "makeConsumer env getenv catalog w i e (k (configKafkaBrokers getenv catalog) (consumerConfig getenv base)) = Ret s0"
    and 1: "startConsumer (service_env env) s0 = Some (err, s)"
    using assms(1) by (auto simp: ActionBaritoConsumerService_def split: go.splits option.splits prod.splits)
  have "redactor (bc_esClient s0) x y z = Panic ''nil pointer dereference''" for x y z
    using makeConsumer_nil_redactor [OF 0 assms(2)] nil_redactor by metis
  then have "redactor (bc_esClient s) x y z = Panic ''nil pointer dereference''" for x y z
    using startConsumer_redactor [OF 1] by simp
  then show ?thesis by (rule Store_nil_redactor [OF _ assms(3)])
qed

definition demo_codec :: json_codec where
  "demo_codec = \<lparr>dec = (\<lambda>_. Inl (Err ''no json'')), enc = (\<lambda>_. Inr [])\<rparr>"

definition demo_action_env :: "(unit, unit, unit) consumer_action_env" where
  "demo_action_env =
     \<lparr>service_env = demo_cenv (Inr True) None (\<lambda>_. None), httpGet = (\<lambda>_ w. (Inl (Err ''offline''), w)),
      decodeRules = (\<lambda>_. Ret (None, [])), jsonCodec = demo_codec, tlsFiles = \<lparr>readFile = (\<lambda>_. []), loadPair = (\<lambda>_ _. Inl (Err ''no file''))\<rparr>,
      newEsClient = (\<lambda>_ _ _ _. None), newBulkProcessor = (\<lambda>_ _. None)\<rparr>"

definition demo_sarama :: sarama_config where
  "demo_sarama =
     \<lparr>CommitInterval = Second, AutoCommitEnable = True, SessionTimeout = 10 * Second, HeartbeatInterval = 3 * Second,
      MaxProcessingTime = 100 * Millisecond, ChannelBufferSize = 256, RebalanceStrategy = BalanceStrategyRange,
      RequiredAcks = 1, MaxMessageBytes = 1048576, RetryMax = 3, ReturnSuccesses = False, Compression = ''none'',
      RefreshFrequency = 600 * Second, FlushBytes = 0, FlushFrequency = 0, Version = ''2.1.0''\<rparr>"

theorem rules_in_environment_break_storing_witness:
  "\<exists>cb err s. ActionBaritoConsumerService demo_action_env (\<lambda>k. if k = ''REDACTOR_RULES_MAP'' then ''{}'' else [])
      (\<lambda>_ _. Inr []) demo_sarama () \<lparr>events = [], app_secrets = None\<rparr> () (\<lambda>_ _. ()) = Some (Ret (cb, err, s))
    \<and> (Store (demo_es (Inr True) None) demo_log (bc_esClient s) = None
       \<or> (\<exists>msg. Store (demo_es (Inr True) None) demo_log (bc_esClient s) = Some (Panic msg)))"
proof -
  let ?get = "\<lambda>k. if k = ''REDACTOR_RULES_MAP'' then ''{}'' else []"
  have "\<exists>cb err s. ActionBaritoConsumerService demo_action_env ?get (\<lambda>_ _. Inr []) demo_sarama ()
      \<lparr>events = [], app_secrets = None\<rparr> () (\<lambda>_ _. ()) = Some (Ret (cb, err, s))"
    by (simp add: ActionBaritoConsumerService_def makeConsumer_def setupRedactor_def configRedactorRulesMap_def
        configElasticCaCrt_def stringEnvOrDefault_def consumerParams_def demo_action_env_def NewBaritoConsumerService_def
        startConsumer_def initAdmin_def retryLoop.simps makeConsumerAdmin_def MakeKafkaAdmin_def demo_cenv_def quiet_kafka_def
        initNewTopicWorker_def startEventWorker_def split_beta Let_def)
  then obtain cb err s where s: "ActionBaritoConsumerService demo_action_env ?get (\<lambda>_ _. Inr []) demo_sarama ()
      \<lparr>events = [], app_secrets = None\<rparr> () (\<lambda>_ _. ()) = Some (Ret (cb, err, s))" by blast
  have "fst (ConvertTimberToEsDocumentString (structJson (demo_es (Inr True) None)) demo_log) = Inr ''{}''"
    by (simp add: ConvertTimberToEsDocumentString_def demo_es_def demo_log_def)
  with rules_in_environment_break_storing [OF s] s show ?thesis by auto
qed

section \<open>What is reported\<close>

text \<open>The logs stored since the counters were empty, each with its application and the error of storing it.\<close>

definition afterStores :: "(string \<times> error option) list \<Rightarrow> instru" where
  "afterStores stores = foldl (\<lambda>i (a, err). instruESStore a err i) \<lparr>events = [], app_secrets = None\<rparr> stores"

lemma afterStores_snoc [simp]:
  "afterStores [] = \<lparr>events = [], app_secrets = None\<rparr>"
  "afterStores (stores @ [(a, err)]) = instruESStore a err (afterStores stores)"
  by (simp_all add: afterStores_def)

lemma instruESStore_secrets:
  "GetApplicationSecretCollection (instruESStore a err i) =
    (let xs = GetApplicationSecretCollection i in if a \<in> set xs then xs else xs @ [a])"
  by (simp add: instruESStore_def InstruApplicationSecret_def containsString_def Let_def)
    (simp add: GetApplicationSecretCollection_def)

lemma afterStores_secrets:
  "distinct (GetApplicationSecretCollection (afterStores stores))
    \<and> set (GetApplicationSecretCollection (afterStores stores)) = fst ` set stores"
proof (induction stores rule: rev_induct)
  case Nil
  then show ?case by (simp add: GetApplicationSecretCollection_def)
next
  case (snoc x stores)
  then show ?case by (cases x) (auto simp: instruESStore_secrets Let_def)
qed

lemma afterStores_events:
  "count_list (events (afterStores stores)) (a @ ''_es_store'', ''success'') = count_list stores (a, None)"
proof (induction stores rule: rev_induct)
  case (snoc x stores)
  then show ?case by (cases x) (auto simp: instruESStore_def InstruApplicationSecret_def Let_def)
qed simp

text \<open>
  The callback reports the logs stored: when \<open>instru\<close> counts its events, the payload has one entry for each
  application that stored or tried to store a log, and the entry's number is that of its logs stored without
  error. The counters are flushed whenever the market answers, also when it answers with an error status,
  and kept when the request itself fails.
\<close>

lemma callback_reports_stored_logs:
  assumes "\<And>name label i. eventCount env name label i = word_of_nat (count_list (events i) (name, label))"
    and "int (length stores) < 2 ^ 63"
  shows "distinct (map ag_AppSecret (metricPayload env (afterStores stores)))
    \<and> ag_AppSecret ` set (metricPayload env (afterStores stores)) = fst ` set stores
    \<and> (\<forall>g\<in>set (metricPayload env (afterStores stores)).
          sint (ag_LogCount g) = int (count_list stores (ag_AppSecret g, None)))
    \<and> (case httpPost env url ''application/json'' (marshalPayload env (metricPayload env (afterStores stores))) w of
         (Inl e, w1) \<Rightarrow> OnCallback env url (afterStores stores) w = (Some e, afterStores stores, w1)
       | (Inr status, w1) \<Rightarrow> \<exists>err. OnCallback env url (afterStores stores) w = (err, flush env (afterStores stores), w1)
           \<and> (err = None \<longleftrightarrow> status = 200))"
proof -
  have n: "sint (word_of_nat (count_list stores x) :: int64) = int (count_list stores x)" for x
    using assms(2) count_le_length [of stores x] by (intro sint_word_of_nat) linarith
  show ?thesis
    using afterStores_secrets [of stores] n
    by (auto simp: metricPayload_def OnCallback_def assms(1) afterStores_events comp_def image_image
        split: prod.splits sum.splits)
qed

definition demo_callback :: "unit callback_env" where
  "demo_callback =
     \<lparr>marshalPayload = (\<lambda>_. []), httpPost = (\<lambda>_ _ _ w. (Inr 500, w)),
      eventCount = (\<lambda>name label i. word_of_nat (count_list (events i) (name, label))), flush = (\<lambda>i. i\<lparr>events := []\<rparr>)\<rparr>"

definition demo_stores :: "(string \<times> error option) list" where
  "demo_stores = [(''a'', None), (''b'', Some (Err ''429'')), (''a'', None)]"

lemma callback_reports_stored_logs_example:
  "map ag_LogCount (metricPayload demo_callback (afterStores demo_stores)) = [2, 0]
   \<and> distinct (map ag_AppSecret (metricPayload demo_callback (afterStores demo_stores)))
   \<and> ag_AppSecret ` set (metricPayload demo_callback (afterStores demo_stores)) = {''a'', ''b''}
   \<and> fst (snd (OnCallback demo_callback ''http://market'' (afterStores demo_stores) ())) = flush demo_callback (afterStores demo_stores)"
proof -
  have count: "eventCount demo_callback name label i = word_of_nat (count_list (events i) (name, label))" for name label i
    by (simp add: demo_callback_def)
  have len: "int (length demo_stores) < 2 ^ 63" by (simp add: demo_stores_def)
  have "map ag_LogCount (metricPayload demo_callback (afterStores demo_stores)) = [2, 0]"
    by (simp add: metricPayload_def afterStores_def instruESStore_def InstruApplicationSecret_def demo_callback_def
        GetApplicationSecretCollection_def containsString_def demo_stores_def Let_def)
  moreover have "fst ` set demo_stores = {''a'', ''b''}" by (auto simp: demo_stores_def)
  moreover note cb = callback_reports_stored_logs [OF count len, of "''http://market''" "()"]
  moreover have "fst (snd (OnCallback demo_callback ''http://market'' (afterStores demo_stores) ())) = flush demo_callback (afterStores demo_stores)"
    by (simp add: OnCallback_def demo_callback_def)
  ultimately show ?thesis by (simp only: simp_thms)
qed

end
