(* ===== verification/Producer_Configured.thy ===== *)
theory Producer_Configured
  imports Actions
begin

text \<open>
  The producer as the command of \<open>cmds/action.go\<close> builds and starts it, with the limiter that the
  configuration names behind the interface \<open>RateLimiter\<close>: the rate holds for the whole of it.
\<close>

section \<open>The limiter behind its interface\<close>

text \<open>
  Starting the local limiter starts the goroutine of \<open>Rate_Limiter\<close> and changes nothing else; Gubernator
  does nothing.
\<close>

fun interfaceStart :: "rateLimiter limiter_impl \<Rightarrow> ('r, 'g) RateLimiter \<Rightarrow> ('r, 'g) RateLimiter" where
  "interfaceStart impl (LocalLimiter l) = LocalLimiter l"
| "interfaceStart impl (RedisLimiter l) = RedisLimiter (redisStart impl l)"
| "interfaceStart impl (GubernatorLimiter g) = GubernatorLimiter (gubStart g)"

text \<open>What has been charged to a key: \<open>cnt\<close> reads Gubernator's counters, \<open>val\<close> those of Redis.\<close>

fun limiterUse :: "('g \<Rightarrow> string \<Rightarrow> int) \<Rightarrow> ('r \<Rightarrow> string \<Rightarrow> int) \<Rightarrow> ('r, 'g) RateLimiter \<Rightarrow> string \<Rightarrow> int" where
  "limiterUse cnt val (LocalLimiter l) key = used_tokens l key"
| "limiterUse cnt val (RedisLimiter l) key = val (rr_db l) (getKeyFormatted l key)"
| "limiterUse cnt val (GubernatorLimiter g) key = cnt (gub_daemon g) key"

fun limiterSafe :: "('r \<Rightarrow> string \<Rightarrow> int) \<Rightarrow> (string \<Rightarrow> int32) \<Rightarrow> int32 \<Rightarrow> ('r, 'g) RateLimiter \<Rightarrow> request list \<Rightarrow> bool" where
  "limiterSafe val rate d (LocalLimiter l) rs \<longleftrightarrow> settled rate d l \<and> (\<forall>r\<in>set rs. legal_request rate d r)"
| "limiterSafe val rate d (RedisLimiter l) rs \<longleftrightarrow> redisSafe val rate d l rs"
| "limiterSafe val rate d (GubernatorLimiter g) rs \<longleftrightarrow> to_int32 (gub_interval g) = d \<and> (\<forall>r\<in>set rs. legal_request rate d r)"

lemma interfaceIsHitLimit_result:
  "fst (interfaceIsHitLimit le impl (LocalLimiter l) k n m) = fst (IsHitLimit l k n m)"
  "snd (interfaceIsHitLimit le impl (LocalLimiter l) k n m) = LocalLimiter (snd (IsHitLimit l k n m))"
  "fst (interfaceIsHitLimit le impl (RedisLimiter r) k n m) = fst (redisIsHitLimit impl (redisCmds le) r k n m)"
  "snd (interfaceIsHitLimit le impl (RedisLimiter r) k n m) = RedisLimiter (snd (redisIsHitLimit impl (redisCmds le) r k n m))"
  "fst (interfaceIsHitLimit le impl (GubernatorLimiter g) k n m) = fst (gubIsHitLimit (getRateLimits le) g k n m)"
  "snd (interfaceIsHitLimit le impl (GubernatorLimiter g) k n m) = GubernatorLimiter (snd (gubIsHitLimit (getRateLimits le) g k n m))"
  by (simp_all add: split_beta Let_def)

text \<open>The contract holds for the interface because it holds for each of the three implementations.\<close>

lemma interface_cap:
  assumes "counting_daemon (getRateLimits le) cnt" and "counting_redis (redisCmds le) val"
  shows "rate_cap (interfaceIsHitLimit le impl) (limiterUse cnt val) (\<lambda>k. sint (rate k * d)) (limiterSafe val rate d)"
proof -
  note g = window_limiter.as_rate_cap [OF gubernator_window [OF assms(1), of rate d]] and r = redis_cap [OF assms(2), of impl rate d]
  note eqs = limiterSafe.simps limiterUse.simps interfaceIsHitLimit_result
  show ?thesis
  proof (unfold_locales, goal_cases)
    case (1 l k n m rs)
    then show ?case
      by (cases l; simp only: eqs)
        (erule local_limiter.safe_tail | erule rate_cap.safe_tail [OF r] | erule rate_cap.safe_tail [OF g])+
  next
    case (2 l k n m rs)
    then show ?case
      by (cases l; simp only: eqs)
        (erule (1) local_limiter.charge | erule (1) rate_cap.charge [OF r] | erule (1) rate_cap.charge [OF g])+
  next
    case (3 l k n m rs k')
    then show ?case
      by (cases l; simp only: eqs)
        (erule (1) local_limiter.keep | erule (1) rate_cap.keep [OF r] | erule (1) rate_cap.keep [OF g])+
  qed
qed

section \<open>Starting\<close>

definition startFrame :: "('l, 'k) producerService \<Rightarrow> ('l, 'k) producerService \<Rightarrow> bool" where
  "startFrame s v \<longleftrightarrow> sameNames s v \<and> limiter v = limiter s"

lemma startFrame_steps:
  "startFrame s v \<Longrightarrow> startFrame s (snd (MakeSyncProducer env v))"
  "startFrame s v \<Longrightarrow> startFrame s (snd (makeAdmin env v))"
  "startFrame s v \<Longrightarrow> startFrame s (sleepRetry env v)"
  "startFrame s v \<Longrightarrow> startFrame s (observe f v)"
  by (auto simp: startFrame_def sameNames_def MakeSyncProducer_def makeAdmin_def sleepRetry_def observe_def
      split: prod.splits option.splits sum.splits)

lemma Start_frame:
  assumes "StartService env s = Some (None, s')"
  shows "sameNames s s' \<and> limiter s' = limiterStart env (limiter s)"
proof -
  obtain n s1 where 1: "initProducer env s = Some (Inr (), n, s1)"
    using assms by (auto simp: StartService_def split: option.splits sum.splits)
  have f1: "startFrame s s1"
    using retryLoop_invariant [OF 1 [unfolded initProducer_def], where P = "startFrame s"] startFrame_steps
    by (metis startFrame_def sameNames_def)
  obtain m s2 where 2: "initKafkaAdmin env s1 = Some (Inr (), m, s2)"
    using assms 1 by (auto simp: StartService_def split: option.splits sum.splits)
  have "startFrame s s2"
    using retryLoop_invariant [OF 2 [unfolded initKafkaAdmin_def], where P = "startFrame s"] startFrame_steps f1 by metis
  with assms 1 2 show ?thesis
    by (auto simp: StartService_def initGrpcServer_def startFrame_def sameNames_def Let_def split: prod.splits option.splits)
qed

text \<open>
  What Redis must be like for the requests to come: a 64-bit duration does not wrap, and no counter reaches
  \<open>2 ^ 31\<close>.
\<close>

definition redisRoom :: "('r \<Rightarrow> string \<Rightarrow> int) \<Rightarrow> int \<Rightarrow> 'r \<Rightarrow> request list \<Rightarrow> bool" where
  "redisRoom val interval r rs \<longleftrightarrow> \<bar>interval\<bar> < 2 ^ 33 \<and> (\<forall>k. 0 \<le> val r k \<and> (\<forall>k'. val r k + demand k' rs < 2 ^ 31))"

lemma interval_seconds:
  assumes "\<bar>n\<bar> < 2 ^ 33"
  shows "durationSeconds (durationOf n Second) = to_int32 (word_of_int n)"
proof -
  have "sint (word_of_int (n * Second) :: int64) = n * Second"
    by (rule sint64_word_of_int) (use assms in auto)
  moreover have "sgn (n * Second) * (\<bar>n * Second\<bar> div 1000000000) = n"
    by (simp add: abs_mult sgn_mult sgn_mult_abs)
  moreover have "to_int32 (word_of_int n) = word_of_int n"
    unfolding to_int32_def by transfer simp
  ultimately show ?thesis by (simp add: durationSeconds_def durationOf_def)
qed

lemma configured_limiter:
  assumes "limiterAsConfigured le getenv catalog (Inr l)"
    and "\<And>conf d0. spawnDaemon le conf = Inr d0 \<Longrightarrow> cnt d0 = (\<lambda>_. 0)"
    and "\<And>r. configRateLimiterOpt getenv = RateLimiterOptRedis \<Longrightarrow>
      ping le (dial le (configRedisUrl getenv catalog) (configRedisPassword getenv)) = (None, r) \<Longrightarrow>
      redisRoom val (configProducerRateLimitResetInterval getenv) r rs"
    and "d = to_int32 (word_of_int (configProducerRateLimitResetInterval getenv))" and "\<forall>r\<in>set rs. legal_request rate d r"
  shows "limiterSafe val rate d (interfaceStart impl l) rs \<and> 0 \<le> limiterUse cnt val (interfaceStart impl l) key"
proof -
  let ?n = "configProducerRateLimitResetInterval getenv"
  consider "l = LocalLimiter (NewRateLimiter (word_of_int ?n))"
    | g where "l = GubernatorLimiter g" "to_int32 (gub_interval g) = d" "cnt (gub_daemon g) = (\<lambda>_. 0)"
    | x where "l = RedisLimiter x" "\<not> rr_isUsingLocal x" "rr_duration x = durationOf ?n Second" "redisRoom val ?n (rr_db x) rs"
  proof (cases "configRateLimiterOpt getenv")
    case RateLimiterOptGubernator
    with assms(1) obtain conf d0 where "daemonConfig le = Inr conf" "spawnDaemon le conf = Inr d0"
        "l = GubernatorLimiter \<lparr>gub_interval = word_of_int ?n, gub_daemon = d0\<rparr>"
      by (auto simp: limiterAsConfigured_def Let_def split: sum.splits)
    with assms(2) [of conf d0] assms(4) that(2) show thesis by simp
  next
    case RateLimiterOptRedis
    obtain e r where p: "ping le (dial le (configRedisUrl getenv catalog) (configRedisPassword getenv)) = (e, r)" by fastforce
    with assms(1) RateLimiterOptRedis obtain x where "l = RedisLimiter x" "\<not> rr_isUsingLocal x"
        "rr_duration x = durationOf ?n Second" "rr_db x = r" "e = None"
      by (auto simp: limiterAsConfigured_def Let_def split: if_splits)
    with assms(3) [OF RateLimiterOptRedis, of r] p that(3) show thesis by simp
  qed (use assms(1) that(1) in \<open>simp_all add: limiterAsConfigured_def Let_def\<close>)
  then show ?thesis
  proof cases
    case 1
    moreover have "used_tokens (NewRateLimiter e) key = 0" for e by (simp add: used_tokens_def NewRateLimiter_def)
    ultimately show ?thesis using assms(4,5) by (simp add: settled_New)
  next
    case (3 x)
    have "counted rate rs" using assms(5) by (auto simp: counted_def legal_request_def wf_count_def)
    moreover have "rr_isUsingLocal (redisStart impl x) = rr_isUsingLocal x" "rr_duration (redisStart impl x) = rr_duration x"
        "rr_db (redisStart impl x) = rr_db x" "getKeyFormatted (redisStart impl x) = getKeyFormatted x"
      by (auto simp: redisStart_def callLocalStartFunction_def getKeyFormatted_def split: option.splits)
    ultimately show ?thesis
      using 3 interval_seconds [of ?n] by (simp add: redisSafe_def redisRoom_def assms(4))
  qed (simp add: gubStart_def assms(5))
qed

section \<open>The rate of a configured producer\<close>

text \<open>
  C1. The configured producer keeps to the rate: when the producer command has built its service and the
  service has started, it returns from any sequence of \<open>Produce\<close> and \<open>ProduceBatch\<close> calls in the first window,
  and of the requests charged to one rate-limit key (a topic, or the whole application group) Kafka has then
  acknowledged at most the key's rate times the configured interval many log messages, whichever of the three
  limiters is configured. All requests of a key must ask for the same non-negative 32-bit limit, no log topic
  may be the topic of the new-topic events, messages are sent one by one, Gubernator and Redis count as
  documented, and the counters of Redis stay below \<open>2 ^ 31\<close>.
\<close>

theorem configured_producer_enforces_rate:
  assumes "ActionBaritoProducerService le getenv catalog base k = Ret (Inr s0)"
    and "counting_daemon (getRateLimits le) cnt" and "\<And>conf d0. spawnDaemon le conf = Inr d0 \<Longrightarrow> cnt d0 = (\<lambda>_. 0)"
    and "counting_redis (redisCmds le) val"
    and "\<And>r. configRateLimiterOpt getenv = RateLimiterOptRedis \<Longrightarrow>
      ping le (dial le (configRedisUrl getenv catalog) (configRedisPassword getenv)) = (None, r) \<Longrightarrow>
      redisRoom val (configProducerRateLimitResetInterval getenv) r (map (limiterRequest s) rs)"
    and "hitLimit env = interfaceIsHitLimit le impl" and "limiterStart env = interfaceStart impl"
    and "StartService env s0 = Some (None, s)" and "suffix_compiles env s0"
    and "configKafkaMessageFormat getenv \<noteq> TimberCollectionMessageFormat"
    and "d = to_int32 (word_of_int (configProducerRateLimitResetInterval getenv))" and "0 \<le> sint (rate key * d)"
    and "\<forall>r\<in>set rs. configNewTopicEvent getenv \<noteq> topicOf s (contextOf r) \<and> int (messageCount r) < 2 ^ 63
      \<and> legal_request rate d (limiterRequest s r)"
  shows "\<exists>log s'. serveAll env rs s = Ret (log, s') \<and> map fst log = rs \<and> deliveredFor s key log \<le> sint (rate key * d)"
proof -
  note conf = ActionBaritoProducerService_result [OF assms(1)]
  note start = Start_frame [OF assms(8)] and rd = Start_ready [OF assms(8)]
  have "limiter s = interfaceStart impl (limiter s0)" using start assms(7) by simp
  then have lim: "limiterSafe val rate d (limiter s) (map (limiterRequest s) rs)" "0 \<le> limiterUse cnt val (limiter s) key"
    using configured_limiter [OF conf(1) assms(3,5,11), where rate = rate and impl = impl and key = key] assms(13) by simp_all
  have names: "kafkaMessageFormat s \<noteq> TimberCollectionMessageFormat" "newEventTopic s = configNewTopicEvent getenv"
    using start conf(2) assms(10) by (auto simp: sameNames_def asConfigured_def)
  have "suffix_compiles env s" using assms(9) rd by (simp add: suffix_compiles_def)
  then obtain log s' where run: "serveAll env rs s = Ret (log, s')" "map fst log = rs"
    using serveAll_returns [of s env rs] rd by blast
  have "limiterUse cnt val (limiter s) key + deliveredFor s key log \<le> max (limiterUse cnt val (limiter s) key) (sint (rate key * d))"
    by (rule rate_cap.producer_bound [OF interface_cap [OF assms(2,4)] run(1) assms(6) lim(1) names(1)])
      (use assms(13) names(2) in auto)
  with run lim(2) assms(12) show ?thesis by auto
qed

text \<open>A Gubernator and a Redis that keep one counter per key in memory, and a producer configured for Redis.\<close>

definition memory_daemon :: "gub_request \<Rightarrow> (string \<Rightarrow> int) \<Rightarrow> (error + gub_status list) \<times> (string \<Rightarrow> int)" where
  "memory_daemon q d =
     (let n = d (gr_UniqueKey q) + sint (gr_Hits q)
      in if n \<le> sint (gr_Limit q) then (Inr [UNDER_LIMIT], d(gr_UniqueKey q := n)) else (Inr [OVER_LIMIT], d))"

definition demo_limiters :: "(string \<Rightarrow> int, string \<Rightarrow> int, unit) limiter_env" where
  "demo_limiters =
     \<lparr>dial = (\<lambda>_ _ _. 0), ping = (\<lambda>r. (None, r)), daemonConfig = Inr (), spawnDaemon = (\<lambda>_. Inr (\<lambda>_. 0)),
      redisCmds = memory_redis, getRateLimits = memory_daemon\<rparr>"

lemma counting_memory_daemon: "counting_daemon (getRateLimits demo_limiters) (\<lambda>d. d)"
  by (auto simp: counting_daemon_def demo_limiters_def memory_daemon_def Let_def)

definition demo_getenv :: getenv where
  "demo_getenv k = (if k = ''BARITO_RATE_LIMITER_OPT'' then ''REDIS'' else [])"

definition demo_interface_env :: "((string \<Rightarrow> int, string \<Rightarrow> int) RateLimiter, unit) producer_env" where
  "demo_interface_env =
     \<lparr>kenv = quiet_kafka (Inr []), marshalTimber = (\<lambda>t. (tTimestamp t, None)), marshalCollection = (\<lambda>c. (''batch'', None)),
      regexpReplace = (\<lambda>pat src repl. Some src), hitLimit = interfaceIsHitLimit demo_limiters local_impl,
      limiterStart = interfaceStart local_impl, limiterStop = (\<lambda>l. l), Listen = (\<lambda>_ k. (None, k)),
      Serve = (\<lambda>k. (None, k)), GracefulStop = (\<lambda>k. k), CloseProducer = (\<lambda>k. k)\<rparr>"

definition demo_requests :: "produce_request list" where
  "demo_requests =
     [One (demo_timber 1), Batch \<lparr>cContext = Some (demo_context 1), cItems = replicate 9 (demo_timber 1)\<rparr>, One (demo_timber 1)]"

lemma demo_getenv_config:
  "configRateLimiterOpt demo_getenv = RateLimiterOptRedis"
  "configProducerRateLimitResetInterval demo_getenv = 10" "configKafkaTopicPrefix demo_getenv = []"
  "configKafkaTopicSuffix demo_getenv = ''_logs''" "configNewTopicEvent demo_getenv = ''new_topic_events''"
  "configKafkaMessageFormat demo_getenv = ''Timber''"
  by (simp_all add: configRateLimiterOpt_def NewRateLimiterOpt_def stringEnvOrDefault_def intEnvOrDefault_def demo_getenv_def
      ToUpper_def upperChar_def TrimSpace_def isSpace_def Let_def configProducerRateLimitResetInterval_def Atoi_def
      configKafkaTopicPrefix_def configKafkaTopicSuffix_def configNewTopicEvent_def configKafkaMessageFormat_def)

text \<open>The service that the command builds there, and its start.\<close>

lemma demo_started:
  obtains s0 s where
    "ActionBaritoProducerService demo_limiters demo_getenv (\<lambda>_ _. Inr []) demo_sarama (\<lambda>_ _. ()) = Ret (Inr s0)"
    "StartService demo_interface_env s0 = Some (None, s)" "topicPrefix s = []" "topicSuffix s = ''_logs''"
proof -
  let ?act = "ActionBaritoProducerService demo_limiters demo_getenv (\<lambda>_ _. Inr []) demo_sarama (\<lambda>_ _. ())"
  have "\<exists>l. makeLimiter demo_limiters demo_getenv (\<lambda>_ _. Inr []) = Inr l"
    by (simp add: makeLimiter_def demo_getenv_config setupRedisRateLimiter_def demo_limiters_def Let_def)
  then obtain l where l: "makeLimiter demo_limiters demo_getenv (\<lambda>_ _. Inr []) = Inr l" by blast
  obtain s0 where "NewProducerService (producerParams demo_getenv l) [] () = Ret s0"
    using NewProducerService_configured [of demo_getenv l "()"] by blast
  with l have s0: "?act = Ret (Inr s0)" by (simp add: ActionBaritoProducerService_def)
  have i: "\<exists>n u. initProducer demo_interface_env v = Some (Inr (), n, u)" for v
    unfolding initProducer_def by (subst retryLoop.simps) (simp add: MakeSyncProducer_def demo_interface_env_def quiet_kafka_def)
  have k: "\<exists>n u. initKafkaAdmin demo_interface_env v = Some (Inr (), n, u)" for v
    unfolding initKafkaAdmin_def
    by (subst retryLoop.simps) (simp add: makeAdmin_def MakeKafkaAdmin_def demo_interface_env_def quiet_kafka_def)
  obtain n u where "initProducer demo_interface_env s0 = Some (Inr (), n, u)" using i by blast
  moreover obtain m v where "initKafkaAdmin demo_interface_env u = Some (Inr (), m, v)" using k by blast
  ultimately have "\<exists>s. StartService demo_interface_env s0 = Some (None, s)"
    by (simp add: StartService_def initGrpcServer_def Let_def) (simp add: demo_interface_env_def)
  then obtain s where s: "StartService demo_interface_env s0 = Some (None, s)" by blast
  have "topicPrefix s = []" "topicSuffix s = ''_logs''"
    using Start_frame [OF s] ActionBaritoProducerService_result(2) [OF s0]
    by (simp_all add: sameNames_def asConfigured_def demo_getenv_config)
  with s0 s show thesis by (rule that)
qed

theorem configured_producer_enforces_rate_witness:
  "\<exists>s0 s log s'. ActionBaritoProducerService demo_limiters demo_getenv (\<lambda>_ _. Inr []) demo_sarama (\<lambda>_ _. ()) = Ret (Inr s0)
    \<and> StartService demo_interface_env s0 = Some (None, s) \<and> serveAll demo_interface_env demo_requests s = Ret (log, s')
    \<and> length log = 3 \<and> deliveredFor s ''app_logs'' log \<le> 10"
proof -
  obtain s0 s where act: "ActionBaritoProducerService demo_limiters demo_getenv (\<lambda>_ _. Inr []) demo_sarama (\<lambda>_ _. ()) = Ret (Inr s0)"
    and start: "StartService demo_interface_env s0 = Some (None, s)" and names: "topicPrefix s = []" "topicSuffix s = ''_logs''"
    by (rule demo_started)
  have legal: "\<forall>r\<in>set demo_requests. configNewTopicEvent demo_getenv \<noteq> topicOf s (contextOf r) \<and> int (messageCount r) < 2 ^ 63
      \<and> legal_request (\<lambda>_. 1) 10 (limiterRequest s r)"
    by (simp add: demo_requests_def demo_getenv_config topicOf_def demo_timber_def demo_context_def GetKafkaTopic_def names
        limiterRequest_def getRateLimitInfo_def GetDisableAppTps_def GetAppMaxTps_def GetAppGroupMaxTps_def ProberTopic_def
        HasPrefix_def legal_request_def wf_count_def)
  have room: "redisRoom (\<lambda>r. r) (configProducerRateLimitResetInterval demo_getenv) (\<lambda>_. 0) (map (limiterRequest s) demo_requests)"
    by (simp add: redisRoom_def demo_requests_def demo_getenv_config demo_timber_def demo_context_def limiterRequest_def
        getRateLimitInfo_def GetDisableAppTps_def GetAppMaxTps_def GetAppGroupMaxTps_def GetKafkaTopic_def ProberTopic_def HasPrefix_def)
  have "\<exists>log s'. serveAll demo_interface_env demo_requests s = Ret (log, s') \<and> map fst log = demo_requests
      \<and> deliveredFor s ''app_logs'' log \<le> sint (1 * 10 :: int32)"
    by (rule configured_producer_enforces_rate [where rate = "\<lambda>_. 1" and d = 10 and val = "\<lambda>r. r",
          OF act counting_memory_daemon _ _ _ _ _ start])
      (use legal room in \<open>simp_all add: demo_getenv_config demo_interface_env_def demo_limiters_def suffix_compiles_def to_int32_def
         TimberCollectionMessageFormat_def counting_memory_redis\<close>)
  then obtain log s' where run: "serveAll demo_interface_env demo_requests s = Ret (log, s')" "map fst log = demo_requests"
      "deliveredFor s ''app_logs'' log \<le> 10" by auto
  from run(2) have "length (map fst log) = length demo_requests" by (rule arg_cong)
  then have "length log = 3" by (simp add: demo_requests_def)
  with act start run show ?thesis by blast
qed

end
