(* ===== verification/Producer_Concurrent.thy ===== *)
theory Producer_Concurrent
  imports Producer_Rate Redis_Limiter
begin

text \<open>
  The producer under load: gRPC runs every request in a goroutine of its own, so that calls of \<open>Produce\<close> and
  \<open>ProduceBatch\<close> of \<open>flow/grpc_producer.go\<close> interleave on one service, with one topic cache and one connection.
  A step is one call of the limiter, the topic cache, Kafka or the clock; the metrics updates that follow a call
  belong to its step. A call of the limiter is a step for the Redis limiter, which holds its mutex throughout.
\<close>

section \<open>A handler, step by step\<close>

text \<open>What \<open>handleProduce\<close> or \<open>handleProduceBatch\<close> is called with, and how often a request calls them.\<close>

datatype job = LogJob Timber | CollectionJob TimberCollection

fun jobContext :: "job \<Rightarrow> TimberContext option" where
  "jobContext (LogJob t) = tContext t"
| "jobContext (CollectionJob tc) = cContext tc"

fun jobMessage :: "('l, 'k) producer_env \<Rightarrow> string \<Rightarrow> job \<Rightarrow> ProducerMessage" where
  "jobMessage env topic (LogJob t) = ConvertTimberToKafkaMessage (marshalTimber env) t topic"
| "jobMessage env topic (CollectionJob tc) = ConvertTimberCollectionToKafkaMessage (marshalCollection env) tc topic"

fun jobIngested :: "('l, 'k) producer_env \<Rightarrow> string \<Rightarrow> string \<Rightarrow> job \<Rightarrow> metrics \<Rightarrow> metrics go" where
  "jobIngested env topic sfx (LogJob t) =
     ObserveByteIngestion (regexpReplace env) topic sfx (length (fst (marshalTimber env t)))"
| "jobIngested env topic sfx (CollectionJob tc) =
     ObserveByteIngestionCollection (regexpReplace env) topic sfx (length (fst (marshalCollection env tc)))"

fun stampJob :: "('l, 'k) producer_env \<Rightarrow> job \<Rightarrow> ('l, 'k) producerService \<Rightarrow> job \<times> ('l, 'k) producerService" where
  "stampJob env (LogJob t) s = (let (t', s1) = stamp env t s in (LogJob t', s1))"
| "stampJob env (CollectionJob tc) s = (let (ts, s1) = stampItems env (cItems tc) s in (CollectionJob (tc\<lparr>cItems := ts\<rparr>), s1))"

fun jobsOf :: "string \<Rightarrow> produce_request \<Rightarrow> job list" where
  "jobsOf format (One t) =
     (if format = TimberCollectionMessageFormat then [CollectionJob \<lparr>cContext = tContext t, cItems = [t]\<rparr>] else [LogJob t])"
| "jobsOf format (Batch tc) =
     (if format = TimberCollectionMessageFormat then [CollectionJob tc]
      else map (\<lambda>t. LogJob (t\<lparr>tContext := cContext tc\<rparr>)) (cItems tc))"

datatype phase = Between | Ensuring job | Creating job | Adding job | Announcing job | Sending job | Answered "error + string"

record handler =
  h_request :: produce_request
  h_topic :: string
  h_limited :: bool
  h_jobs :: "job list"
  h_phase :: phase

fun itemsOf :: "produce_request \<Rightarrow> Timber list" where
  "itemsOf (One t) = [t]"
| "itemsOf (Batch tc) = cItems tc"

definition arrive :: "('l, 'k) producer_env \<Rightarrow> produce_request \<Rightarrow> ('l, 'k) producerService \<Rightarrow> (handler \<times> ('l, 'k) producerService) go" where
  "arrive env r s =
     (let context = contextOf r;
          topic = topicOf s context;
          (hit, s1) = checkLimit env context (word_of_nat (messageCount r)) s;
          h = \<lparr>h_request = r, h_topic = topic, h_limited = hit, h_jobs = jobsOf (kafkaMessageFormat s) r, h_phase = Between\<rparr>
      in if hit
         then go_bind (observeExceededItems env context topic (itemsOf r)
                  (observe (IncreaseProducerTPSExceededCounter topic (int (messageCount r))) s1))
                (\<lambda>s2. Ret (h\<lparr>h_phase := Answered (Inl onLimitExceededGrpc)\<rparr>, s2))
         else Ret (h, s1))"

definition withAdmin :: "('l, 'k) producerService \<Rightarrow> (kafkaAdmin \<Rightarrow> 'a) \<Rightarrow> 'a go" where
  "withAdmin s f = (case adminOf s of None \<Rightarrow> Panic ''nil pointer dereference'' | Some a \<Rightarrow> Ret (f a))"

definition ensureStep :: "('l, 'k) producer_env \<Rightarrow> string \<Rightarrow> job \<Rightarrow> ('l, 'k) producerService \<Rightarrow> (phase \<times> ('l, 'k) producerService) go" where
  "ensureStep env topic j s =
     withAdmin s (\<lambda>a. let (found, a1, k1) = Exist (kenv env) a topic (kafka s)
       in (if found then Sending j else Creating j, s\<lparr>adminOf := Some a1, kafka := k1\<rparr>))"

definition createStep :: "('l, 'k) producer_env \<Rightarrow> string \<Rightarrow> job \<Rightarrow> ('l, 'k) producerService \<Rightarrow> (phase \<times> ('l, 'k) producerService) go" where
  "createStep env topic j s =
     withAdmin s (\<lambda>a.
       let numPartitions = (if ignoreKafkaOptions s then - 1 else GetKafkaPartition (jobContext j));
           replicationFactor = (if ignoreKafkaOptions s then - 1 else GetKafkaReplicationFactor (jobContext j));
           (err, k1) = CreateTopic (kenv env) a topic numPartitions (to_int16 replicationFactor) (kafka s);
           s1 = s\<lparr>kafka := k1, calls := calls s @ [KCreate topic numPartitions (to_int16 replicationFactor) err]\<rparr>
       in case err of
            Some e \<Rightarrow> (Answered (Inl (onCreateTopicErrorGrpc e)),
                observe (IncreaseKafkaMessagesStoredTotalWithError topic ''create_topic'') s1)
          | None \<Rightarrow> (Adding j, s1))"

definition announceStep :: "('l, 'k) producer_env \<Rightarrow> string \<Rightarrow> job \<Rightarrow> ('l, 'k) producerService \<Rightarrow> (phase \<times> ('l, 'k) producerService) go" where
  "announceStep env topic j s =
     go_bind (sendCreateTopicEvents env topic s) (\<lambda>(err, s1). Ret (
       case err of
         Some e \<Rightarrow> (Answered (Inl (onSendCreateTopicErrorGrpc e)),
             observe (IncreaseKafkaMessagesStoredTotalWithError topic ''send_create_topic_event'') s1)
       | None \<Rightarrow> (Sending j, s1)))"

definition sendStep :: "('l, 'k) producer_env \<Rightarrow> string \<Rightarrow> job \<Rightarrow> ('l, 'k) producerService \<Rightarrow> (phase \<times> ('l, 'k) producerService) go" where
  "sendStep env topic j s =
     go_bind (sendMessage env (jobMessage env topic j) s) (\<lambda>(err, s1).
       let s2 = observe (ObserveSendToKafkaTime topic) s1
       in case err of
            Some e \<Rightarrow> Ret (Answered (Inl (onStoreErrorGrpc e)),
                observe (IncreaseKafkaMessagesStoredTotalWithError topic ''send_log'') s2)
          | None \<Rightarrow> go_bind (observeGo (jobIngested env topic (topicSuffix s) j) s2) (\<lambda>s3.
              Ret (Between, observe (IncreaseKafkaMessagesStoredTotal topic) s3)))"

definition inPhase :: "handler \<Rightarrow> (phase \<times> 's) go \<Rightarrow> (handler \<times> 's) go" where
  "inPhase h m = go_bind m (\<lambda>(p, s). Ret (h\<lparr>h_phase := p\<rparr>, s))"

definition handlerStep :: "('l, 'k) producer_env \<Rightarrow> handler \<Rightarrow> ('l, 'k) producerService \<Rightarrow> (handler \<times> ('l, 'k) producerService) go" where
  "handlerStep env h s =
     (case h_phase h of
        Between \<Rightarrow>
          (case h_jobs h of
             [] \<Rightarrow> Ret (h\<lparr>h_phase := Answered (Inr (h_topic h))\<rparr>, s)
           | j # js \<Rightarrow> let (j', s1) = stampJob env j s in Ret (h\<lparr>h_jobs := js, h_phase := Ensuring j'\<rparr>, s1))
      | Ensuring j \<Rightarrow> inPhase h (ensureStep env (h_topic h) j s)
      | Creating j \<Rightarrow> inPhase h (createStep env (h_topic h) j s)
      | Adding j \<Rightarrow> inPhase h (withAdmin s (\<lambda>a. (Announcing j, s\<lparr>adminOf := Some (AddTopic a (h_topic h))\<rparr>)))
      | Announcing j \<Rightarrow> inPhase h (announceStep env (h_topic h) j s)
      | Sending j \<Rightarrow> inPhase h (sendStep env (h_topic h) j s)
      | Answered r \<Rightarrow> Ret (h, s))"

section \<open>Requests in parallel\<close>

text \<open>The handlers in the order in which their requests were admitted or turned away, and whose each call to Kafka is.\<close>

record ('l, 'k) conc =
  co_service :: "('l, 'k) producerService"
  co_handlers :: "handler list"
  co_calls :: "(nat \<times> kafka_call) list"

definition afterMove :: "nat \<Rightarrow> handler \<Rightarrow> ('l, 'k) producerService \<Rightarrow> ('l, 'k) conc \<Rightarrow> ('l, 'k) conc" where
  "afterMove i h s c =
     c\<lparr>co_service := s, co_handlers := (co_handlers c)[i := h],
       co_calls := co_calls c @ map (Pair i) (drop (length (calls (co_service c))) (calls s))\<rparr>"

inductive conc_step :: "('l, 'k) producer_env \<Rightarrow> ('l, 'k) conc \<Rightarrow> ('l, 'k) conc \<Rightarrow> bool"
  for env :: "('l, 'k) producer_env" where
  request_arrives: "arrive env r (co_service c) = Ret (h, s) \<Longrightarrow>
    conc_step env c (c\<lparr>co_service := s, co_handlers := co_handlers c @ [h]\<rparr>)"
| handler_moves: "i < length (co_handlers c) \<Longrightarrow> handlerStep env (co_handlers c ! i) (co_service c) = Ret (h, s) \<Longrightarrow>
    conc_step env c (afterMove i h s c)"

definition conc_init :: "('l, 'k) producerService \<Rightarrow> ('l, 'k) conc \<Rightarrow> bool" where
  "conc_init s c \<longleftrightarrow> c = \<lparr>co_service = s, co_handlers = [], co_calls = []\<rparr>"

section \<open>One handler alone\<close>

text \<open>Undisturbed, the steps of a handler are the calls of the sequential model.\<close>

inductive runs :: "('l, 'k) producer_env \<Rightarrow> handler \<times> ('l, 'k) producerService \<Rightarrow> handler \<times> ('l, 'k) producerService \<Rightarrow> bool"
  for env :: "('l, 'k) producer_env" where
  runs_refl: "runs env x x"
| runs_step: "handlerStep env h s = Ret y \<Longrightarrow> runs env y z \<Longrightarrow> runs env (h, s) z"

lemma runs_trans: "runs env x y \<Longrightarrow> runs env y z \<Longrightarrow> runs env x z"
  by (induction rule: runs.induct) (auto intro: runs_step)

lemma runs_one: "handlerStep env h s = Ret y \<Longrightarrow> runs env (h, s) y"
  by (blast intro: runs_step runs_refl)

lemma ensure_runs:
  assumes "createTopicIfNotExist env (jobContext j) (h_topic h) s = Ret (err, s')"
  shows "runs env (h\<lparr>h_phase := Ensuring j\<rparr>, s) (h\<lparr>h_phase := (case err of None \<Rightarrow> Sending j | Some e \<Rightarrow> Answered (Inl e))\<rparr>, s')"
proof -
  let ?h = "\<lambda>p. h\<lparr>h_phase := p\<rparr>"
  obtain a where a: "adminOf s = Some a"
    using assms by (cases "adminOf s") (auto simp: createTopicIfNotExist_def)
  obtain found a1 k1 where ex: "Exist (kenv env) a (h_topic h) (kafka s) = (found, a1, k1)" by (metis prod_cases3)
  let ?s1 = "s\<lparr>adminOf := Some a1, kafka := k1\<rparr>"
  have 1: "runs env (?h (Ensuring j), s) (?h (if found then Sending j else Creating j), ?s1)"
    by (rule runs_one) (simp add: handlerStep_def inPhase_def ensureStep_def withAdmin_def a ex)
  show ?thesis
  proof (cases found)
    case True
    with assms a ex 1 show ?thesis by (auto simp: createTopicIfNotExist_def)
  next
    case False
    let ?p = "if ignoreKafkaOptions s then - 1 else GetKafkaPartition (jobContext j)"
    let ?r = "to_int16 (if ignoreKafkaOptions s then - 1 else GetKafkaReplicationFactor (jobContext j))"
    obtain r k2 where cr: "CreateTopic (kenv env) a1 (h_topic h) ?p ?r k1 = (r, k2)" by (metis surj_pair)
    let ?s2 = "?s1\<lparr>kafka := k2, calls := calls s @ [KCreate (h_topic h) ?p ?r r]\<rparr>"
    have 2: "runs env (?h (Creating j), ?s1) (case r of
        Some e \<Rightarrow> (?h (Answered (Inl (onCreateTopicErrorGrpc e))),
          observe (IncreaseKafkaMessagesStoredTotalWithError (h_topic h) ''create_topic'') ?s2)
      | None \<Rightarrow> (?h (Adding j), ?s2))"
      by (rule runs_one, cases r) (use cr in \<open>simp_all add: handlerStep_def inPhase_def createStep_def withAdmin_def Let_def\<close>)
    note 12 = runs_trans [OF 1 [unfolded if_not_P [OF False]] 2]
    show ?thesis
    proof (cases r)
      case (Some e)
      with assms a ex cr False 12 show ?thesis by (auto simp: createTopicIfNotExist_def Let_def)
    next
      case None
      let ?s3 = "?s2\<lparr>adminOf := Some (AddTopic a1 (h_topic h))\<rparr>"
      have 3: "runs env (?h (Adding j), ?s2) (?h (Announcing j), ?s3)"
        by (rule runs_one) (simp add: handlerStep_def inPhase_def withAdmin_def)
      obtain e3 s4 where 4: "sendCreateTopicEvents env (h_topic h) ?s3 = Ret (e3, s4)"
        using assms a ex cr False None by (auto simp: createTopicIfNotExist_def Let_def go_bind_Ret_iff)
      have "handlerStep env (?h (Announcing j)) ?s3 = Ret (?h (case err of None \<Rightarrow> Sending j | Some e \<Rightarrow> Answered (Inl e)), s')"
        using assms a ex cr False None 4
        by (auto simp: createTopicIfNotExist_def Let_def handlerStep_def inPhase_def announceStep_def split: option.splits)
      from runs_one [OF this] 12 None 3 show ?thesis by (auto intro: runs_trans)
    qed
  qed
qed

fun handleJob :: "('l, 'k) producer_env \<Rightarrow> string \<Rightarrow> job \<Rightarrow> ('l, 'k) producerService \<Rightarrow> (error option \<times> ('l, 'k) producerService) go" where
  "handleJob env topic (LogJob t) s = handleProduce env t topic s"
| "handleJob env topic (CollectionJob tc) s = handleProduceBatch env tc topic s"

lemma job_runs:
  assumes "handleJob env (h_topic h) j s = Ret (err, s')"
  shows "runs env (h\<lparr>h_phase := Ensuring j\<rparr>, s) (h\<lparr>h_phase := (case err of None \<Rightarrow> Between | Some e \<Rightarrow> Answered (Inl e))\<rparr>, s')"
proof -
  obtain e1 s1 where 1: "createTopicIfNotExist env (jobContext j) (h_topic h) s = Ret (e1, s1)"
    using assms by (cases j) (auto simp: handleProduce_def handleProduceBatch_def go_bind_Ret_iff)
  note ens = ensure_runs [OF 1] and sfx = same_service_fields(2) [OF conjunct1 [OF createTopicIfNotExist_effect [OF 1]]]
  show ?thesis
  proof (cases e1)
    case (Some e)
    with assms 1 ens show ?thesis by (cases j) (auto simp: handleProduce_def handleProduceBatch_def)
  next
    case None
    have "sendStep env (h_topic h) j s1 = Ret (case err of None \<Rightarrow> Between | Some e \<Rightarrow> Answered (Inl e), s')"
      using assms 1 None sfx
      by (cases j) (auto simp: handleProduce_def handleProduceBatch_def sendStep_def sendLogs_def sendLogsTimberCollection_def
          go_bind_Ret_iff split: option.splits)
    then have "handlerStep env (h\<lparr>h_phase := Sending j\<rparr>) s1 =
        Ret (h\<lparr>h_phase := (case err of None \<Rightarrow> Between | Some e \<Rightarrow> Answered (Inl e))\<rparr>, s')"
      by (simp add: handlerStep_def inPhase_def)
    from runs_one [OF this] ens None show ?thesis by (auto intro: runs_trans)
  qed
qed

text \<open>A handler after the limit check, as a loop over its jobs.\<close>

fun handleJobs :: "('l, 'k) producer_env \<Rightarrow> string \<Rightarrow> job list \<Rightarrow> ('l, 'k) producerService \<Rightarrow>
    (error option \<times> ('l, 'k) producerService) go" where
  "handleJobs env topic [] s = Ret (None, s)"
| "handleJobs env topic (j # js) s =
     (let (j', s1) = stampJob env j s
      in go_bind (handleJob env topic j' s1) (\<lambda>(err, s2).
           case err of
             Some e \<Rightarrow> Ret (Some e, s2)
           | None \<Rightarrow> handleJobs env topic js s2))"

lemma handleJobs_single: "handleJobs env topic [j] s = (case stampJob env j s of (j', s1) \<Rightarrow> handleJob env topic j' s1)"
  by (cases "stampJob env j s"; cases "handleJob env topic (fst (stampJob env j s)) (snd (stampJob env j s))")
    (auto split: option.splits)

lemma handleJobs_items:
  "handleJobs env topic (map (\<lambda>t. LogJob (t\<lparr>tContext := c\<rparr>)) items) s = produceItems env c topic items s"
proof (induction items arbitrary: s)
  case (Cons t items)
  then show ?case
    by (cases "stamp env (t\<lparr>tContext := c\<rparr>) s") (auto intro!: arg_cong [where f = "go_bind _"] split: option.splits)
qed simp

lemma handle_jobs:
  "handle env r s = go_bind (arrive env r s) (\<lambda>(h, s1).
    if h_limited h then Ret (Inl onLimitExceededGrpc, s1) else respond (h_topic h) (handleJobs env (h_topic h) (h_jobs h) s1))"
proof (cases r)
  case (One t)
  obtain hit s1 where "checkLimit env (tContext t) 1 s = (hit, s1)" by fastforce
  with One show ?thesis
    by (cases "stamp env t s1") (auto simp: Produce_def arrive_def handleJobs_single Let_def simp del: handleJobs.simps)
next
  case (Batch tc)
  obtain hit s1 where "checkLimit env (cContext tc) (word_of_nat (length (cItems tc))) s = (hit, s1)" by fastforce
  with Batch show ?thesis
    by (cases "stampItems env (cItems tc) s1"; cases tc)
      (auto simp: ProduceBatch_def arrive_def handleJobs_single handleJobs_items Let_def simp del: handleJobs.simps)
qed

lemma jobs_run:
  assumes "handleJobs env (h_topic h) (h_jobs h) s = Ret (err, s')" and "h_phase h = Between"
  shows "\<exists>h'. runs env (h, s) (h', s') \<and> h_phase h' = Answered (case err of None \<Rightarrow> Inr (h_topic h) | Some e \<Rightarrow> Inl e)"
  using assms
proof (induction "h_jobs h" arbitrary: h s)
  case Nil
  with runs_one [of env h s] show ?case by (auto simp: handlerStep_def)
next
  case (Cons j js)
  obtain j' s1 where st: "stampJob env j s = (j', s1)" by fastforce
  let ?h = "\<lambda>p. h\<lparr>h_jobs := js, h_phase := p\<rparr>"
  have 1: "runs env (h, s) (?h (Ensuring j'), s1)"
    by (rule runs_one) (use st in \<open>simp add: handlerStep_def Cons.prems(2) flip: Cons.hyps(2)\<close>)
  obtain e2 s2 where 2: "handleJob env (h_topic h) j' s1 = Ret (e2, s2)"
      "(case e2 of None \<Rightarrow> handleJobs env (h_topic h) js s2 | Some e \<Rightarrow> Ret (Some e, s2)) = Ret (err, s')"
    using Cons.prems(1) st by (auto simp: go_bind_Ret_iff simp flip: Cons.hyps(2))
  note 12 = runs_trans [OF 1 job_runs [of env "?h Between" j' s1 e2 s2, simplified, OF 2(1)]]
  show ?case
  proof (cases e2)
    case (Some e)
    with 2(2) 12 show ?thesis by auto
  next
    case None
    with 2(2) Cons.hyps(1) [of "?h Between" s2] obtain h' where "runs env (?h Between, s2) (h', s')"
        "h_phase h' = Answered (case err of None \<Rightarrow> Inr (h_topic h) | Some e \<Rightarrow> Inl e)" by (cases err) auto
    with 12 None show ?thesis by (auto intro: runs_trans)
  qed
qed

lemma handle_runs:
  assumes "handle env r s = Ret (resp, s')"
  shows "\<exists>h s1 h'. arrive env r s = Ret (h, s1) \<and> runs env (h, s1) (h', s') \<and> h_phase h' = Answered resp"
proof -
  obtain h s1 where h: "arrive env r s = Ret (h, s1)"
      "(if h_limited h then Ret (Inl onLimitExceededGrpc, s1) else respond (h_topic h) (handleJobs env (h_topic h) (h_jobs h) s1)) = Ret (resp, s')"
    using assms by (auto simp: handle_jobs go_bind_Ret_iff)
  have p: "h_phase h = (if h_limited h then Answered (Inl onLimitExceededGrpc) else Between)"
    using h(1) by (auto simp: arrive_def Let_def go_bind_Ret_iff split: prod.splits if_splits)
  show ?thesis
  proof (cases "h_limited h")
    case True
    with h p runs_refl [of env] show ?thesis by auto
  next
    case False
    with h(2) obtain err where "handleJobs env (h_topic h) (h_jobs h) s1 = Ret (err, s')"
        "resp = (case err of Some e \<Rightarrow> Inl e | None \<Rightarrow> Inr (h_topic h))" by (auto simp: respond_Ret_iff)
    with jobs_run [of env h s1 err s'] p False h(1) show ?thesis by (cases err) auto
  qed
qed

section \<open>What a step does to the service\<close>

lemma ensureStep_effect:
  assumes "ensureStep env topic j s = Ret (p, s')"
  shows "same_service s s' \<and> calls s' = calls s \<and> (p = Sending j \<or> p = Creating j)"
  using assms by (auto simp: ensureStep_def withAdmin_def same_service_def Let_def split: option.splits prod.splits if_splits)

lemma createStep_effect:
  assumes "createStep env topic j s = Ret (p, s')"
  shows "same_service s s' \<and>
    (p = Adding j \<and> calls s' = calls s @ [wantedTopic s (jobContext j) topic None]
     \<or> (\<exists>e. p = Answered (Inl (onCreateTopicErrorGrpc e)) \<and> calls s' = calls s @ [wantedTopic s (jobContext j) topic (Some e)]))"
  using assms
  by (auto simp: createStep_def withAdmin_def same_service_def wantedTopic_def to_int16_minus_1 observe_def Let_def
      split: option.splits prod.splits)

lemma announceStep_effect:
  assumes "announceStep env topic j s = Ret (p, s')"
  shows "same_service s s' \<and>
    (p = Sending j \<and> calls s' = calls s @ [KSend (topicEvent s topic) None]
     \<or> (\<exists>e. p = Answered (Inl (onSendCreateTopicErrorGrpc e)) \<and> calls s' = calls s @ [KSend (topicEvent s topic) (Some e)]))"
  using assms
  by (auto simp: announceStep_def sendCreateTopicEvents_def go_bind_Ret_iff handler split: option.splits dest!: sendMessage_handler)

lemma sendStep_effect:
  assumes "sendStep env topic j s = Ret (p, s')"
  shows "same_service s s' \<and>
    (p = Between \<and> calls s' = calls s @ [KSend (jobMessage env topic j) None]
     \<or> (\<exists>e. p = Answered (Inl (onStoreErrorGrpc e)) \<and> calls s' = calls s @ [KSend (jobMessage env topic j) (Some e)]))"
proof -
  obtain err s1 where 1: "sendMessage env (jobMessage env topic j) s = Ret (err, s1)"
    using assms by (auto simp: sendStep_def go_bind_Ret_iff)
  note send = sendMessage_handler [OF 1]
  show ?thesis
  proof (cases err)
    case None
    with assms 1 obtain s3 where "observeGo (jobIngested env topic (topicSuffix s) j) (observe (ObserveSendToKafkaTime topic) s1) = Ret s3"
        "p = Between" "s' = observe (IncreaseKafkaMessagesStoredTotal topic) s3"
      by (auto simp: sendStep_def go_bind_Ret_iff)
    with send None show ?thesis
      by (auto simp: handler same_service_after_observe dest!: observeGo_handler intro: same_service_trans)
  next
    case (Some e)
    with assms 1 send show ?thesis by (auto simp: sendStep_def handler)
  qed
qed

text \<open>A job and the same job with time stamps.\<close>

fun stampedAs :: "job \<Rightarrow> job \<Rightarrow> bool" where
  "stampedAs (LogJob t) (LogJob t') \<longleftrightarrow> t' = t\<lparr>tTimestamp := tTimestamp t'\<rparr>"
| "stampedAs (CollectionJob tc) (CollectionJob tc') \<longleftrightarrow>
     cContext tc' = cContext tc \<and> list_all2 (\<lambda>t t'. t' = t\<lparr>tTimestamp := tTimestamp t'\<rparr>) (cItems tc) (cItems tc')"
| "stampedAs _ _ \<longleftrightarrow> False"

lemma stampItems_stamped:
  "stampItems env items s = (ts, s') \<Longrightarrow> same_service s s' \<and> calls s' = calls s
    \<and> list_all2 (\<lambda>t t'. t' = t\<lparr>tTimestamp := tTimestamp t'\<rparr>) items ts"
  by (induction items arbitrary: s ts)
    (auto simp: Let_def split: prod.splits dest!: stamp_handler intro: same_service_trans)

lemma stampJob_effect:
  assumes "stampJob env j s = (j', s')"
  shows "same_service s s' \<and> calls s' = calls s \<and> stampedAs j j'"
  using assms by (cases j) (auto split: prod.splits dest!: stampItems_stamped stamp_handler)

lemma arrive_effect:
  assumes "arrive env r s = Ret (h, s')" and "limiterRequest s r = (k, n, m)"
  shows "same_service (s\<lparr>limiter := snd (hitLimit env (limiter s) k n m)\<rparr>) s'" "calls s' = calls s"
    "h = \<lparr>h_request = r, h_topic = topicOf s (contextOf r), h_limited = fst (hitLimit env (limiter s) k n m),
          h_jobs = jobsOf (kafkaMessageFormat s) r,
          h_phase = (if fst (hitLimit env (limiter s) k n m) then Answered (Inl onLimitExceededGrpc) else Between)\<rparr>"
  using assms(1) checkLimit_request [of env r s, unfolded assms(2)]
  by (auto simp: arrive_def Let_def go_bind_Ret_iff same_service_after_observe handler split: if_splits
      dest!: observeExceededItems_effect)

section \<open>The calls of one request\<close>

definition jobCalls :: "('l, 'k) producer_env \<Rightarrow> ('l, 'k) producerService \<Rightarrow> string \<Rightarrow> job \<Rightarrow> error option \<Rightarrow> kafka_call list \<Rightarrow> bool" where
  "jobCalls env s topic d = produce_calls s (jobContext d) topic (jobMessage env topic d)"

lemma jobCalls_intros:
  "jobCalls env s topic d (Some (onCreateTopicErrorGrpc e)) [wantedTopic s (jobContext d) topic (Some e)]"
  "jobCalls env s topic d (Some (onSendCreateTopicErrorGrpc e))
     [wantedTopic s (jobContext d) topic None, KSend (topicEvent s topic) (Some e)]"
  "ensure_calls s (jobContext d) topic None cs \<Longrightarrow>
     jobCalls env s topic d (Some (onStoreErrorGrpc e)) (cs @ [KSend (jobMessage env topic d) (Some e)])"
  "ensure_calls s (jobContext d) topic None cs \<Longrightarrow> jobCalls env s topic d None (cs @ [KSend (jobMessage env topic d) None])"
  by (auto simp: jobCalls_def produce_calls_def ensure_calls_def)

definition inHand :: "job list \<Rightarrow> job \<Rightarrow> job list \<Rightarrow> bool" where
  "inHand js d rest \<longleftrightarrow> (\<exists>j. rest = j # js \<and> stampedAs j d)"

text \<open>The calls \<open>cur\<close> made for the job in hand, the first of the jobs \<open>rest\<close> not yet done.\<close>

fun phaseOk :: "('l, 'k) producer_env \<Rightarrow> ('l, 'k) producerService \<Rightarrow> string \<Rightarrow> job list \<Rightarrow> phase \<Rightarrow> job list \<Rightarrow> kafka_call list \<Rightarrow> bool" where
  "phaseOk env s topic js Between rest cur \<longleftrightarrow> rest = js \<and> cur = []"
| "phaseOk env s topic js (Ensuring d) rest cur \<longleftrightarrow> inHand js d rest \<and> cur = []"
| "phaseOk env s topic js (Creating d) rest cur \<longleftrightarrow> inHand js d rest \<and> cur = []"
| "phaseOk env s topic js (Adding d) rest cur \<longleftrightarrow> inHand js d rest \<and> cur = [wantedTopic s (jobContext d) topic None]"
| "phaseOk env s topic js (Announcing d) rest cur \<longleftrightarrow> inHand js d rest \<and> cur = [wantedTopic s (jobContext d) topic None]"
| "phaseOk env s topic js (Sending d) rest cur \<longleftrightarrow> inHand js d rest \<and> ensure_calls s (jobContext d) topic None cur"
| "phaseOk env s topic js (Answered (Inr t)) rest cur \<longleftrightarrow> t = topic \<and> rest = [] \<and> cur = []"
| "phaseOk env s topic js (Answered (Inl e)) rest cur \<longleftrightarrow> (\<exists>d. inHand (tl rest) d rest \<and> jobCalls env s topic d (Some e) cur)"

definition agrees :: "('l, 'k) producerService \<Rightarrow> ('l, 'k) producerService \<Rightarrow> bool" where
  "agrees s0 s \<longleftrightarrow> same_service (s0\<lparr>limiter := limiter s\<rparr>) s"

lemma agrees_same: "agrees s0 s \<Longrightarrow> same_service s s' \<Longrightarrow> agrees s0 s'"
  by (cases s0; cases s; cases s') (auto simp: agrees_def same_service_def)

lemma agrees_calls:
  assumes "agrees s0 s"
  shows "wantedTopic s = wantedTopic s0" "topicEvent s = topicEvent s0"
  using produce_calls_cong [of s s0] same_service_fields [OF assms [unfolded agrees_def]] by simp_all

lemma phase_step:
  assumes "handlerStep env h s = Ret (h', s')" and "agrees s0 s"
    and "phaseOk env s0 (h_topic h) (h_jobs h) (h_phase h) rest cur"
  shows "\<exists>new. same_service s s' \<and> calls s' = calls s @ new \<and> h' = h\<lparr>h_jobs := h_jobs h', h_phase := h_phase h'\<rparr>
    \<and> (phaseOk env s0 (h_topic h) (h_jobs h') (h_phase h') rest (cur @ new)
       \<or> (\<exists>d. inHand (h_jobs h') d rest \<and> jobCalls env s0 (h_topic h) d None (cur @ new) \<and> h_phase h' = Between))"
proof -
  note eq = agrees_calls [OF assms(2)]
  show ?thesis
  proof (cases "h_phase h")
    case Between
    with assms(1,3) show ?thesis
      by (auto simp: handlerStep_def inHand_def split: list.splits prod.splits dest!: stampJob_effect)
  next
    case (Ensuring d)
    with assms(1,3) show ?thesis
      by (auto simp: handlerStep_def inPhase_def go_bind_Ret_iff ensure_calls_def dest!: ensureStep_effect)
  next
    case (Creating d)
    with assms(1,3) show ?thesis
      by (auto simp: handlerStep_def inPhase_def go_bind_Ret_iff eq inHand_def dest!: createStep_effect)
        (blast intro: jobCalls_intros(1))
  next
    case (Adding d)
    with assms(1,3) show ?thesis
      by (auto simp: handlerStep_def inPhase_def go_bind_Ret_iff withAdmin_def same_service_def split: option.splits)
  next
    case (Announcing d)
    with assms(1,3) show ?thesis
      by (auto simp: handlerStep_def inPhase_def go_bind_Ret_iff eq inHand_def ensure_calls_def dest!: announceStep_effect)
        (blast intro: jobCalls_intros(2))
  next
    case (Sending d)
    with assms(1,3) show ?thesis
      by (auto simp: handlerStep_def inPhase_def go_bind_Ret_iff eq inHand_def dest!: sendStep_effect)
        (blast intro: jobCalls_intros(3,4))+
  next
    case (Answered r)
    with assms(1,3) show ?thesis by (auto simp: handlerStep_def)
  qed
qed

text \<open>The calls of a request so far: those of the jobs done, \<open>ds\<close>, and those of the job in hand.\<close>

definition handlerOk :: "('l, 'k) producer_env \<Rightarrow> ('l, 'k) producerService \<Rightarrow> handler \<Rightarrow> kafka_call list \<Rightarrow> bool" where
  "handlerOk env s h cs \<longleftrightarrow>
     h_topic h = topicOf s (contextOf (h_request h))
     \<and> (if h_limited h then cs = [] \<and> h_phase h = Answered (Inl onLimitExceededGrpc)
        else \<exists>ds css cur. cs = concat css @ cur \<and> length ds \<le> length (jobsOf (kafkaMessageFormat s) (h_request h))
          \<and> list_all2 stampedAs (take (length ds) (jobsOf (kafkaMessageFormat s) (h_request h))) ds
          \<and> list_all2 (\<lambda>d. jobCalls env s (h_topic h) d None) ds css
          \<and> phaseOk env s (h_topic h) (h_jobs h) (h_phase h) (drop (length ds) (jobsOf (kafkaMessageFormat s) (h_request h))) cur)"

lemma handlerOk_step:
  assumes "handlerStep env h s = Ret (h', s')" and "agrees s0 s" and "handlerOk env s0 h cs"
  shows "\<exists>new. same_service s s' \<and> calls s' = calls s @ new \<and> h_request h' = h_request h \<and> h_limited h' = h_limited h
    \<and> handlerOk env s0 h' (cs @ new)"
proof (cases "h_limited h")
  case True
  with assms(1,3) show ?thesis by (auto simp: handlerOk_def handlerStep_def)
next
  case False
  let ?jobs = "jobsOf (kafkaMessageFormat s0) (h_request h)"
  obtain ds css cur where ok: "cs = concat css @ cur" "length ds \<le> length ?jobs" "list_all2 stampedAs (take (length ds) ?jobs) ds"
      "list_all2 (\<lambda>d. jobCalls env s0 (h_topic h) d None) ds css"
    and ph: "phaseOk env s0 (h_topic h) (h_jobs h) (h_phase h) (drop (length ds) ?jobs) cur"
    using assms(3) False by (auto simp: handlerOk_def)
  obtain new where new: "same_service s s'" "calls s' = calls s @ new" and h': "h' = h\<lparr>h_jobs := h_jobs h', h_phase := h_phase h'\<rparr>"
    and step: "phaseOk env s0 (h_topic h) (h_jobs h') (h_phase h') (drop (length ds) ?jobs) (cur @ new)
      \<or> (\<exists>d. inHand (h_jobs h') d (drop (length ds) ?jobs) \<and> jobCalls env s0 (h_topic h) d None (cur @ new) \<and> h_phase h' = Between)"
    using phase_step [OF assms(1,2) ph] by blast
  have same: "h_request h' = h_request h" "h_limited h' = h_limited h" "h_topic h' = h_topic h"
    by (subst h', simp)+
  from step have "handlerOk env s0 h' (cs @ new)"
  proof
    assume "phaseOk env s0 (h_topic h) (h_jobs h') (h_phase h') (drop (length ds) ?jobs) (cur @ new)"
    with ok assms(3) False show ?thesis unfolding handlerOk_def same if_not_P [OF False]
      by (intro conjI exI [of _ ds] exI [of _ css] exI [of _ "cur @ new"]) simp_all
  next
    assume "\<exists>d. inHand (h_jobs h') d (drop (length ds) ?jobs) \<and> jobCalls env s0 (h_topic h) d None (cur @ new) \<and> h_phase h' = Between"
    then obtain j d where d: "drop (length ds) ?jobs = j # h_jobs h'" "stampedAs j d" "jobCalls env s0 (h_topic h) d None (cur @ new)"
      "h_phase h' = Between" by (auto simp: inHand_def)
    then have n: "length ds < length ?jobs" "?jobs ! length ds = j" "drop (Suc (length ds)) ?jobs = h_jobs h'"
      by (metis drop_all linorder_not_less list.distinct(1), metis nth_via_drop, metis drop_Suc list.sel(3) tl_drop)
    with ok d have "list_all2 stampedAs (take (length (ds @ [d])) ?jobs) (ds @ [d])"
        "list_all2 (\<lambda>d. jobCalls env s0 (h_topic h) d None) (ds @ [d]) (css @ [cur @ new])"
      by (auto simp: take_Suc_conv_app_nth intro!: list_all2_appendI)
    with ok(1) d(4) n assms(3) False show ?thesis unfolding handlerOk_def same if_not_P [OF False]
      by (intro conjI exI [of _ "ds @ [d]"] exI [of _ "css @ [cur @ new]"] exI [of _ "[]"]) simp_all
  qed
  with new same show ?thesis by blast
qed

section \<open>The invariant\<close>

definition limiterLog :: "('l, 'k) producerService \<Rightarrow> handler list \<Rightarrow> (request \<times> bool) list" where
  "limiterLog s hs = map (\<lambda>h. (limiterRequest s (h_request h), h_limited h)) hs"

definition conc_inv :: "('l, 'k) producer_env \<Rightarrow> ('l, 'k) producerService \<Rightarrow> ('l, 'k) conc \<Rightarrow> bool" where
  "conc_inv env s c \<longleftrightarrow>
     agrees s (co_service c)
     \<and> calls (co_service c) = calls s @ map snd (co_calls c)
     \<and> (\<forall>i<length (co_handlers c). handlerOk env s (co_handlers c ! i) (partOf i (co_calls c)))
     \<and> (\<forall>i\<ge>length (co_handlers c). partOf i (co_calls c) = [])
     \<and> run_limiter (hitLimit env) (limiter s) (map fst (limiterLog s (co_handlers c))) =
       (limiterLog s (co_handlers c), limiter (co_service c))"

lemma agrees_names: "agrees s0 s \<Longrightarrow> sameNames s0 s"
  using same_service_fields [of "s0\<lparr>limiter := limiter s\<rparr>" s] by (simp add: agrees_def sameNames_def)

lemma conc_arrives:
  assumes "conc_inv env s c" and "arrive env r (co_service c) = Ret (h, s')"
  shows "conc_inv env s (c\<lparr>co_service := s', co_handlers := co_handlers c @ [h]\<rparr>)"
proof -
  let ?s = "co_service c"
  have ag: "agrees s ?s" using assms(1) by (simp add: conc_inv_def)
  note eq = sameNames_same [OF agrees_names [OF ag]]
  have fmt: "kafkaMessageFormat ?s = kafkaMessageFormat s" using agrees_names [OF ag] by (simp add: sameNames_def)
  obtain k n m where q: "limiterRequest s r = (k, n, m)" by (metis prod_cases3)
  then have q': "limiterRequest ?s r = (k, n, m)" by (simp add: eq)
  let ?l = "snd (hitLimit env (limiter ?s) k n m)"
  note a = arrive_effect [OF assms(2) q', unfolded eq fmt]
  have "agrees s (?s\<lparr>limiter := ?l\<rparr>)" using ag by (cases s; cases ?s) (auto simp: agrees_def same_service_def)
  from agrees_same [OF this a(1)] have "agrees s s'" .
  moreover have "limiter s' = ?l" using same_service_fields(7) [OF a(1)] by simp
  moreover have "handlerOk env s h []" unfolding a(3) handlerOk_def
    by (auto intro!: exI [of _ "[]"])
  ultimately show ?thesis
    using assms(1) a(2) q unfolding conc_inv_def
    by (auto simp: limiterLog_def a(3) run_limiter_append nth_append less_Suc_eq split_beta)
qed

lemma conc_moves:
  assumes "conc_inv env s c" and "i < length (co_handlers c)" and "handlerStep env (co_handlers c ! i) (co_service c) = Ret (h, s')"
  shows "conc_inv env s (afterMove i h s' c)"
proof -
  have inv: "agrees s (co_service c)" "handlerOk env s (co_handlers c ! i) (partOf i (co_calls c))"
    using assms(1,2) by (simp_all add: conc_inv_def)
  obtain new where new: "same_service (co_service c) s'" "calls s' = calls (co_service c) @ new"
      "h_request h = h_request (co_handlers c ! i)" "h_limited h = h_limited (co_handlers c ! i)"
      "handlerOk env s h (partOf i (co_calls c) @ new)"
    using handlerOk_step [OF assms(3) inv] by blast
  have "limiterLog s ((co_handlers c)[i := h]) = limiterLog s (co_handlers c)"
    using new(3,4) assms(2) by (auto simp: limiterLog_def map_update list_update_id intro!: nth_equalityI simp: nth_list_update)
  moreover have "limiter s' = limiter (co_service c)" using same_service_fields(7) [OF new(1)] .
  ultimately show ?thesis
    using assms(1,2) agrees_same [OF inv(1) new(1)] new(2,5)
    by (auto simp: conc_inv_def afterMove_def nth_list_update comp_def)
qed

interpretation conc: state_machine "conc_init s" "conc_step env" "conc_inv env s" for env s
proof (unfold_locales, goal_cases)
  case (1 c)
  then show ?case by (cases s) (simp add: conc_init_def conc_inv_def agrees_def limiterLog_def)
next
  case (2 c c')
  from 2(2,1) show ?case by cases (auto intro: conc_arrives conc_moves)
qed

text \<open>A request served without interruption, within the system.\<close>

lemma runs_reach:
  assumes "runs env x y" and "reach (conc_init s0) (conc_step env) c" and "i < length (co_handlers c)"
    and "x = (co_handlers c ! i, co_service c)" and "y = (h', s')"
  shows "\<exists>c'. reach (conc_init s0) (conc_step env) c' \<and> co_service c' = s' \<and> co_handlers c' = (co_handlers c)[i := h']"
  using assms
proof (induction arbitrary: c rule: runs.induct)
  case (runs_refl x)
  then show ?case by auto
next
  case (runs_step h s y z)
  obtain h1 s1 where y: "y = (h1, s1)" by fastforce
  let ?c = "afterMove i h1 s1 c"
  have "reach (conc_init s0) (conc_step env) ?c"
    by (rule reach_step [OF runs_step.prems(1) handler_moves]) (use runs_step y in auto)
  with runs_step.IH [of ?c] runs_step.prems y show ?case by (simp add: afterMove_def)
qed

lemma served_alone:
  assumes "reach (conc_init s0) (conc_step env) c" and "handle env r (co_service c) = Ret (resp, s')"
  shows "\<exists>c' h. reach (conc_init s0) (conc_step env) c' \<and> co_service c' = s' \<and> co_handlers c' = co_handlers c @ [h]
    \<and> h_request h = r \<and> h_phase h = Answered resp"
proof -
  obtain h s1 h' where h: "arrive env r (co_service c) = Ret (h, s1)" "runs env (h, s1) (h', s')" "h_phase h' = Answered resp"
    using handle_runs [OF assms(2)] by blast
  obtain k n m where "limiterRequest (co_service c) r = (k, n, m)" by (metis prod_cases3)
  note a = arrive_effect [OF h(1) this]
  let ?c = "c\<lparr>co_service := s1, co_handlers := co_handlers c @ [h]\<rparr>"
  have "reach (conc_init s0) (conc_step env) ?c" using reach_step [OF assms(1) request_arrives [OF h(1)]] .
  with runs_reach [OF h(2), of s0 ?c "length (co_handlers c)" h' s'] obtain c' where c':
    "reach (conc_init s0) (conc_step env) c'" "co_service c' = s'" "co_handlers c' = co_handlers c @ [h']" by auto
  have "runs env x y \<Longrightarrow> h_request (fst y) = h_request (fst x)" for x y :: "handler \<times> ('a, 'b) producerService"
    by (induction rule: runs.induct)
      (auto simp: handlerStep_def inPhase_def go_bind_Ret_iff split: phase.splits list.splits prod.splits)
  from this [OF h(2)] a(3) c' h(3) show ?thesis by auto
qed

section \<open>Every request gets what it is answered\<close>

text \<open>
  C4. Concurrent requests do not mix: in every interleaving of any number of \<open>Produce\<close> and \<open>ProduceBatch\<close> requests the
  calls to Kafka are those of the requests merged, and those of one request are those of a run of its own: none
  if it was turned away; else, job by job in order (a log, or the batch as one collection), the topic
  ensured and the message, with its time stamp, acknowledged. A request that is answered with its topic had
  all its messages acknowledged; one that is answered with an error had the messages before it acknowledged, and its
  last calls are those that give the error.
\<close>

theorem concurrent_requests_deliver:
  assumes "reach (conc_init s) (conc_step env) c"
  shows "calls (co_service c) = calls s @ map snd (co_calls c)
    \<and> (\<forall>i<length (co_handlers c).
        let h = co_handlers c ! i; topic = topicOf s (contextOf (h_request h));
            jobs = jobsOf (kafkaMessageFormat s) (h_request h); mine = partOf i (co_calls c)
        in if h_limited h then mine = [] \<and> h_phase h = Answered (Inl onLimitExceededGrpc)
           else \<exists>ds css cur. mine = concat css @ cur
             \<and> list_all2 stampedAs (take (length ds) jobs) ds \<and> list_all2 (\<lambda>d. jobCalls env s topic d None) ds css
             \<and> (\<forall>t. h_phase h = Answered (Inr t) \<longrightarrow> t = topic \<and> length ds = length jobs \<and> cur = [])
             \<and> (\<forall>e. h_phase h = Answered (Inl e) \<longrightarrow> length ds < length jobs
                 \<and> (\<exists>d. stampedAs (jobs ! length ds) d \<and> jobCalls env s topic d (Some e) cur)))"
proof -
  note inv = conc.inv_reach [OF assms, unfolded conc_inv_def]
  have "\<exists>ds css cur. partOf i (co_calls c) = concat css @ cur
      \<and> list_all2 stampedAs (take (length ds) jobs) ds \<and> list_all2 (\<lambda>d. jobCalls env s (h_topic h) d None) ds css
      \<and> (\<forall>t. h_phase h = Answered (Inr t) \<longrightarrow> t = h_topic h \<and> length ds = length jobs \<and> cur = [])
      \<and> (\<forall>e. h_phase h = Answered (Inl e) \<longrightarrow> length ds < length jobs
          \<and> (\<exists>d. stampedAs (jobs ! length ds) d \<and> jobCalls env s (h_topic h) d (Some e) cur))"
    if i: "i < length (co_handlers c)" "h = co_handlers c ! i" "\<not> h_limited h" "jobs = jobsOf (kafkaMessageFormat s) (h_request h)"
    for i h jobs
  proof -
    have "handlerOk env s h (partOf i (co_calls c))" using inv i by simp
    then obtain ds css cur where ok: "partOf i (co_calls c) = concat css @ cur" "length ds \<le> length jobs"
        "list_all2 stampedAs (take (length ds) jobs) ds" "list_all2 (\<lambda>d. jobCalls env s (h_topic h) d None) ds css"
      and ph: "phaseOk env s (h_topic h) (h_jobs h) (h_phase h) (drop (length ds) jobs) cur"
      using i by (auto simp: handlerOk_def)
    have "length ds < length jobs \<and> (\<exists>d. stampedAs (jobs ! length ds) d \<and> jobCalls env s (h_topic h) d (Some e) cur)"
      if "h_phase h = Answered (Inl e)" for e
    proof -
      from ph that obtain d j where "drop (length ds) jobs = j # tl (drop (length ds) jobs)" "stampedAs j d"
          "jobCalls env s (h_topic h) d (Some e) cur" by (auto simp: inHand_def)
      then show ?thesis by (metis drop_all linorder_not_less list.distinct(1) nth_via_drop)
    qed
    with ok ph show ?thesis by (intro exI [of _ ds] exI [of _ css] exI [of _ cur]) auto
  qed
  moreover have "h_topic (co_handlers c ! i) = topicOf s (contextOf (h_request (co_handlers c ! i)))"
      "h_limited (co_handlers c ! i) \<longrightarrow> partOf i (co_calls c) = [] \<and> h_phase (co_handlers c ! i) = Answered (Inl onLimitExceededGrpc)"
    if "i < length (co_handlers c)" for i using inv that by (auto simp: handlerOk_def)
  ultimately show ?thesis using inv by (simp add: Let_def)
qed

section \<open>An interleaving written out\<close>

datatype move = Arrives produce_request | Moves nat

fun schedule :: "('l, 'k) producer_env \<Rightarrow> move list \<Rightarrow> ('l, 'k) conc \<Rightarrow> ('l, 'k) conc option" where
  "schedule env [] c = Some c"
| "schedule env (Arrives r # ms) c =
     (case arrive env r (co_service c) of
        Ret (h, s) \<Rightarrow> schedule env ms (c\<lparr>co_service := s, co_handlers := co_handlers c @ [h]\<rparr>)
      | Panic _ \<Rightarrow> None)"
| "schedule env (Moves i # ms) c =
     (if i < length (co_handlers c)
      then case handlerStep env (co_handlers c ! i) (co_service c) of
             Ret (h, s) \<Rightarrow> schedule env ms (afterMove i h s c)
           | Panic _ \<Rightarrow> None
      else None)"

lemma schedule_reach: "schedule env ms c = Some c' \<Longrightarrow> reach I (conc_step env) c \<Longrightarrow> reach I (conc_step env) c'"
proof (induction env ms c rule: schedule.induct)
  case (2 env r ms c)
  then obtain h s where "arrive env r (co_service c) = Ret (h, s)"
      "schedule env ms (c\<lparr>co_service := s, co_handlers := co_handlers c @ [h]\<rparr>) = Some c'" by (auto split: go.splits)
  with 2 reach_step [OF 2(3) request_arrives] show ?case by simp
next
  case (3 env i ms c)
  then obtain h s where "i < length (co_handlers c)" "handlerStep env (co_handlers c ! i) (co_service c) = Ret (h, s)"
      "schedule env ms (afterMove i h s c) = Some c'" by (auto split: go.splits if_splits)
  with 3 reach_step [OF 3(3) handler_moves] show ?case by simp
qed simp

text \<open>A cluster that has topics, as Kafka does, at most once, and a service on it; the state is the list of its topics.\<close>

definition busy_env :: "'l hit_limit \<Rightarrow> ('l, string list) producer_env" where
  "busy_env hit =
     \<lparr>kenv = \<lparr>NewSyncProducer = (\<lambda>k. (None, k)), NewClient = (\<lambda>k. (Inr [''localhost:9092''], k)),
        ClientTopics = (\<lambda>k. (Inr k, k)), RefreshMetadata = (\<lambda>k. k), NewClusterAdmin = (\<lambda>_ k. (None, k)),
        ClusterCreateTopic = (\<lambda>t _ _ k. if t \<in> set k then (Some (Err ''Topic already exists''), k) else (None, k @ [t])),
        CloseClusterAdmin = (\<lambda>k. k), CloseClient = (\<lambda>k. k), SendMessage = (\<lambda>_ k. (None, k)),
        Now = (\<lambda>k. (''2024-01-31T00:00:00Z'', k)), Sleep = (\<lambda>_ k. k)\<rparr>,
      marshalTimber = (\<lambda>t. (tTimestamp t, None)), marshalCollection = (\<lambda>c. (''batch'', None)),
      regexpReplace = (\<lambda>pat src repl. Some src), hitLimit = hit,
      limiterStart = (\<lambda>l. l), limiterStop = (\<lambda>l. l), Listen = (\<lambda>_ k. (None, k)), Serve = (\<lambda>k. (None, k)),
      GracefulStop = (\<lambda>k. k), CloseProducer = (\<lambda>k. k)\<rparr>"

definition busy_service :: "'l \<Rightarrow> ('l, string list) producerService" where
  "busy_service l =
     \<lparr>grpcAddr = '':8082'', topicPrefix = ''p_'', topicSuffix = ''_pb'', kafkaMaxRetry = 0, kafkaRetryInterval = 10,
      newEventTopic = ''events'', grpcMaxRecvMsgSize = 20000000, ignoreKafkaOptions = False,
      kafkaMessageFormat = ''Timber'', producer = True, adminOf = Some (NewKafkaAdmin [''localhost:9092'']),
      limiter = l, grpcServer = True, metrics = [], calls = [], kafka = [''events'']\<rparr>"

text \<open>Two first requests for one topic, with a limiter that admits everything: both find it missing before either creates it.\<close>

definition racing_env :: "(unit, string list) producer_env" where
  "racing_env = busy_env (\<lambda>l _ _ _. (False, l))"

definition racing_service :: "(unit, string list) producerService" where
  "racing_service = busy_service ()"

definition racing_moves :: "move list" where
  "racing_moves =
     [Arrives (One (demo_timber 5)), Arrives (One (demo_timber 5)), Moves 0, Moves 1, Moves 0, Moves 1,
      Moves 0, Moves 1, Moves 0, Moves 0, Moves 0, Moves 0]"

lemma racing_run:
  obtains c where "reach (conc_init racing_service) (conc_step racing_env) c"
    "map h_phase (co_handlers c) = [Answered (Inr ''p_app_pb''), Answered (Inl (Status Unavailable (Err ''Topic already exists'')))]"
    "map h_request (co_handlers c) = [One (demo_timber 5), One (demo_timber 5)]" "map h_limited (co_handlers c) = [False, False]"
    "kafka (co_service c) = [''events'', ''p_app_pb'']" "length (acked ''p_app_pb'' (calls (co_service c))) = 1"
proof -
  let ?c0 = "\<lparr>co_service = racing_service, co_handlers = [], co_calls = []\<rparr>"
  have "\<exists>c. schedule racing_env racing_moves ?c0 = Some c
      \<and> map h_phase (co_handlers c) = [Answered (Inr ''p_app_pb''), Answered (Inl (Status Unavailable (Err ''Topic already exists'')))]
      \<and> map h_request (co_handlers c) = [One (demo_timber 5), One (demo_timber 5)] \<and> map h_limited (co_handlers c) = [False, False]
      \<and> kafka (co_service c) = [''events'', ''p_app_pb''] \<and> length (acked ''p_app_pb'' (calls (co_service c))) = 1"
    by (simp add: racing_moves_def arrive_def checkLimit_def racing_env_def busy_env_def racing_service_def busy_service_def handlerStep_def inPhase_def
        ensureStep_def createStep_def announceStep_def sendStep_def withAdmin_def afterMove_def produce_defs admin_defs
        demo_context_def demo_timber_def topicOf_def GetKafkaTopic_def onCreateTopicErrorGrpc_def topicEvent_def
        ConvertTimberToKafkaMessage_def split_beta Let_def)
  then obtain c where c: "schedule racing_env racing_moves ?c0 = Some c
      \<and> map h_phase (co_handlers c) = [Answered (Inr ''p_app_pb''), Answered (Inl (Status Unavailable (Err ''Topic already exists'')))]
      \<and> map h_request (co_handlers c) = [One (demo_timber 5), One (demo_timber 5)] \<and> map h_limited (co_handlers c) = [False, False]
      \<and> kafka (co_service c) = [''events'', ''p_app_pb''] \<and> length (acked ''p_app_pb'' (calls (co_service c))) = 1"
    by (rule exE)
  have "reach (conc_init racing_service) (conc_step racing_env) ?c0" by (rule reach_init) (simp add: conc_init_def)
  from schedule_reach [OF conjunct1 [OF c] this] conjunct2 [OF c] show thesis by (elim conjE) (rule that)
qed

theorem concurrent_requests_deliver_witness:
  "\<exists>c d cs. reach (conc_init racing_service) (conc_step racing_env) c
    \<and> map h_phase (co_handlers c) = [Answered (Inr ''p_app_pb''), Answered (Inl (Status Unavailable (Err ''Topic already exists'')))]
    \<and> partOf 0 (co_calls c) = cs \<and> stampedAs (LogJob (demo_timber 5)) d \<and> jobCalls racing_env racing_service ''p_app_pb'' d None cs"
proof -
  obtain c where c: "reach (conc_init racing_service) (conc_step racing_env) c"
      "map h_phase (co_handlers c) = [Answered (Inr ''p_app_pb''), Answered (Inl (Status Unavailable (Err ''Topic already exists'')))]"
      "map h_request (co_handlers c) = [One (demo_timber 5), One (demo_timber 5)]" "map h_limited (co_handlers c) = [False, False]"
    by (rule racing_run)
  then obtain h h' where h: "co_handlers c = [h, h']" "h_phase h = Answered (Inr ''p_app_pb'')" "h_request h = One (demo_timber 5)"
      "\<not> h_limited h" by (auto simp: map_eq_Cons_conv)
  have jobs: "jobsOf (kafkaMessageFormat racing_service) (h_request h) = [LogJob (demo_timber 5)]"
    by (simp add: h racing_service_def busy_service_def TimberCollectionMessageFormat_def)
  have "0 < length (co_handlers c)" "co_handlers c ! 0 = h" by (simp_all add: h(1))
  with mp [OF spec [OF conjunct2 [OF concurrent_requests_deliver [OF c(1)]], of 0]] obtain ds css cur where
      "partOf 0 (co_calls c) = concat css @ cur" "list_all2 stampedAs (take (length ds) [LogJob (demo_timber 5)]) ds"
      "list_all2 (\<lambda>d. jobCalls racing_env racing_service (topicOf racing_service (tContext (demo_timber 5))) d None) ds css"
      "''p_app_pb'' = topicOf racing_service (tContext (demo_timber 5)) \<and> length ds = 1 \<and> cur = []"
    using h(2-4) jobs unfolding Let_def by auto
  then obtain d where "stampedAs (LogJob (demo_timber 5)) d" "jobCalls racing_env racing_service ''p_app_pb'' d None (partOf 0 (co_calls c))"
    by (auto simp: list_all2_Cons1 list_all2_Cons2 length_Suc_conv)
  with c(1,2) show ?thesis by (intro exI conjI) (assumption | rule refl)+
qed


section \<open>The rate under load\<close>

lemma jobs_acked:
  assumes "list_all2 (\<lambda>d. jobCalls env s topic d None) ds css" and "newEventTopic s \<noteq> topic"
  shows "length (acked topic (concat css)) = length ds"
  using assms(1)
proof (induction rule: list_all2_induct)
  case (Cons d ds cs css)
  have "pmTopic (jobMessage env topic d) = topic" by (cases d) (simp_all add: ConvertTimberToKafkaMessage_def ConvertTimberCollectionToKafkaMessage_def)
  with produce_calls_counts(1) [of s "jobContext d" topic _ None cs] Cons assms(2) show ?case by (simp add: jobCalls_def)
qed simp

lemma phase_acked:
  assumes "phaseOk env s topic js p rest cur" and "newEventTopic s \<noteq> topic"
  shows "acked topic cur = []"
proof -
  have m: "pmTopic (jobMessage env topic d) = topic" for d
    by (cases d) (simp_all add: ConvertTimberToKafkaMessage_def ConvertTimberCollectionToKafkaMessage_def)
  from assms show ?thesis
    by (cases "(env, s, topic, js, p, rest, cur)" rule: phaseOk.cases)
      (auto simp: wantedTopic_def jobCalls_def m dest: ensure_calls_counts(1) produce_calls_counts(1))
qed

lemma length_jobsOf: "format \<noteq> TimberCollectionMessageFormat \<Longrightarrow> length (jobsOf format r) = messageCount r"
  by (cases r) simp_all

lemma handler_delivered:
  assumes "handlerOk env s h cs" and "newEventTopic s \<noteq> topicOf s (contextOf (h_request h))"
    and "kafkaMessageFormat s \<noteq> TimberCollectionMessageFormat"
  shows "length (acked (topicOf s (contextOf (h_request h))) cs) \<le> (if h_limited h then 0 else messageCount (h_request h))"
proof (cases "h_limited h")
  case True
  with assms(1) show ?thesis by (simp add: handlerOk_def)
next
  case False
  with assms(1) obtain ds css cur where d: "cs = concat css @ cur" "length ds \<le> length (jobsOf (kafkaMessageFormat s) (h_request h))"
      "list_all2 (\<lambda>d. jobCalls env s (topicOf s (contextOf (h_request h))) d None) ds css"
      "phaseOk env s (topicOf s (contextOf (h_request h))) (h_jobs h) (h_phase h) (drop (length ds) (jobsOf (kafkaMessageFormat s) (h_request h))) cur"
    by (auto simp: handlerOk_def)
  with jobs_acked [OF d(3) assms(2)] phase_acked [OF d(4) assms(2)] length_jobsOf [OF assms(3)] False show ?thesis by simp
qed

text \<open>The messages of a key that Kafka has acknowledged, over all requests.\<close>

definition deliveredSoFar :: "('l, 'k) producerService \<Rightarrow> string \<Rightarrow> ('l, 'k) conc \<Rightarrow> int" where
  "deliveredSoFar s key c =
     (\<Sum>i<length (co_handlers c). let r = h_request (co_handlers c ! i) in
        if fst (getRateLimitInfo s (contextOf r)) = key then int (length (acked (topicOf s (contextOf r)) (partOf i (co_calls c)))) else 0)"

lemma admitted_limiterLog:
  "admitted key (limiterLog s hs) = (\<Sum>i<length hs.
     if fst (limiterRequest s (h_request (hs ! i))) = key \<and> \<not> h_limited (hs ! i) then sint (fst (snd (limiterRequest s (h_request (hs ! i))))) else 0)"
  by (simp add: admitted_def limiterLog_def sum_list_sum_nth atLeast0LessThan split_beta)

lemma delivered_admitted:
  assumes "conc_inv env s c" and "kafkaMessageFormat s \<noteq> TimberCollectionMessageFormat"
    and "\<forall>h\<in>set (co_handlers c). newEventTopic s \<noteq> topicOf s (contextOf (h_request h)) \<and> int (messageCount (h_request h)) < 2 ^ 63"
  shows "deliveredSoFar s key c \<le> admitted key (limiterLog s (co_handlers c))"
  unfolding deliveredSoFar_def admitted_limiterLog
proof (rule sum_mono)
  fix i assume "i \<in> {..<length (co_handlers c)}"
  then have i: "i < length (co_handlers c)" by simp
  let ?h = "co_handlers c ! i"
  have "handlerOk env s ?h (partOf i (co_calls c))" using assms(1) i by (simp add: conc_inv_def)
  from handler_delivered [OF this _ assms(2)] assms(3) i
  have "int (length (acked (topicOf s (contextOf (h_request ?h))) (partOf i (co_calls c)))) \<le>
      (if h_limited ?h then 0 else int (messageCount (h_request ?h)))" by (auto split: if_splits)
  with assms(3) i show "(let r = h_request ?h in if fst (getRateLimitInfo s (contextOf r)) = key
        then int (length (acked (topicOf s (contextOf r)) (partOf i (co_calls c)))) else 0) \<le>
      (if fst (limiterRequest s (h_request ?h)) = key \<and> \<not> h_limited ?h then sint (fst (snd (limiterRequest s (h_request ?h)))) else 0)"
    by (auto simp: limiterRequest_def sint_word_of_nat Let_def split: if_splits)
qed

context rate_cap
begin

lemma concurrent_bound:
  assumes "reach (conc_init s) (conc_step env) c" and "hitLimit env = hit" and "safe (limiter s) (map fst (limiterLog s (co_handlers c)))"
    and "kafkaMessageFormat s \<noteq> TimberCollectionMessageFormat"
    and "\<forall>h\<in>set (co_handlers c). newEventTopic s \<noteq> topicOf s (contextOf (h_request h)) \<and> int (messageCount (h_request h)) < 2 ^ 63"
  shows "used (limiter s) key + deliveredSoFar s key c \<le> max (used (limiter s) key) (cap key)"
proof -
  note inv = conc.inv_reach [OF assms(1)]
  then have "fst (run_limiter hit (limiter s) (map fst (limiterLog s (co_handlers c)))) = limiterLog s (co_handlers c)"
    using assms(2) by (simp add: conc_inv_def)
  with admitted_max [OF assms(3), of key] delivered_admitted [OF inv assms(4,5), of key] show ?thesis by simp
qed

end

text \<open>
  C5. The producer keeps to the rate under load: with the Redis limiter and a Redis that counts, in every
  interleaving of any number of requests, also while some are still being served, Kafka has acknowledged of the
  requests charged to one key at most the rate times the interval many log messages, less what the key stood
  at. All requests of a key must ask for its rate and not for so much that its counter reaches \<open>2 ^ 31\<close>, no
  log topic may be the topic of the new-topic events, and messages are sent one by one (format Timber).
\<close>

theorem concurrent_producer_enforces_rate:
  assumes "reach (conc_init s) (conc_step env) c" and "hitLimit env = redisIsHitLimit impl renv" and "counting_redis renv val"
    and "redisSafe val rate (durationSeconds (rr_duration (limiter s))) (limiter s) (map (\<lambda>h. limiterRequest s (h_request h)) (co_handlers c))"
    and "kafkaMessageFormat s \<noteq> TimberCollectionMessageFormat"
    and "\<forall>h\<in>set (co_handlers c). newEventTopic s \<noteq> topicOf s (contextOf (h_request h)) \<and> int (messageCount (h_request h)) < 2 ^ 63"
  shows "deliveredSoFar s key c \<le>
    max 0 (sint (rate key * durationSeconds (rr_duration (limiter s))) - val (rr_db (limiter s)) (getKeyFormatted (limiter s) key))"
proof -
  have "redisSafe val rate (durationSeconds (rr_duration (limiter s))) (limiter s) (map fst (limiterLog s (co_handlers c)))"
    using assms(4) by (simp add: limiterLog_def comp_def)
  from rate_cap.concurrent_bound [OF redis_cap [OF assms(3)] assms(1,2) this assms(5,6), of key] show ?thesis by simp
qed

definition load :: "produce_request list" where
  "load = [Batch \<lparr>cContext = Some (demo_context 5), cItems = replicate 45 (demo_timber 5)\<rparr>,
     Batch \<lparr>cContext = Some (demo_context 5), cItems = replicate 20 (demo_timber 5)\<rparr>]"

theorem concurrent_producer_enforces_rate_witness:
  "\<exists>c. reach (conc_init (busy_service demo_redis)) (conc_step (busy_env (redisIsHitLimit local_impl memory_redis))) c
    \<and> map h_request (co_handlers c) = load \<and> deliveredSoFar (busy_service demo_redis) ''p_app_pb'' c \<le> 50"
proof -
  let ?s = "busy_service demo_redis" and ?env = "busy_env (redisIsHitLimit local_impl memory_redis)"
  let ?R = "reach (conc_init ?s) (conc_step ?env)"
  have serve: "\<exists>c' h. ?R c' \<and> co_handlers c' = co_handlers c @ [h] \<and> h_request h = r \<and> ready (co_service c') \<and> suffix_compiles ?env (co_service c')"
    if c: "?R c" "ready (co_service c)" "suffix_compiles ?env (co_service c)" for c r
    using handle_returns [OF c(2,3), of r] served_alone [OF c(1), of r] by blast
  have "?R \<lparr>co_service = ?s, co_handlers = [], co_calls = []\<rparr>" by (rule reach_init) (simp add: conc_init_def)
  moreover have "ready ?s" "suffix_compiles ?env ?s" by (simp_all add: ready_def suffix_compiles_def busy_service_def busy_env_def)
  ultimately obtain c1 h1 where c1: "?R c1" "co_handlers c1 = [h1]" "h_request h1 = hd load" "ready (co_service c1)" "suffix_compiles ?env (co_service c1)"
    using serve [of "\<lparr>co_service = ?s, co_handlers = [], co_calls = []\<rparr>" "hd load"] by auto
  from serve [OF c1(1,4,5), of "load ! 1"] obtain c2 h2 where c2: "?R c2" "co_handlers c2 = [h1, h2]" "h_request h2 = load ! 1"
    by (auto simp: c1(2))
  have load: "map h_request (co_handlers c2) = load" using c1(3) c2(2,3) by (simp add: load_def)
  have q: "map (\<lambda>h. limiterRequest ?s (h_request h)) (co_handlers c2) = [(''p_app_pb'', 45, 5), (''p_app_pb'', 20, 5)]"
    using c1(3) c2(2,3)
    by (simp add: load_def limiterRequest_def getRateLimitInfo_def busy_service_def demo_context_def GetKafkaTopic_def
        GetDisableAppTps_def GetAppMaxTps_def ProberTopic_def HasPrefix_def)
  have l: "limiter ?s = demo_redis" "\<not> rr_isUsingLocal demo_redis" "rr_duration demo_redis = 10 * 1000000000" "rr_db demo_redis = (\<lambda>_. 0)"
    by (simp_all add: busy_service_def demo_redis_def redis_new_defs)
  have safe: "redisSafe (\<lambda>r. r) (\<lambda>_. 5) (durationSeconds (rr_duration (limiter ?s))) (limiter ?s) (map (\<lambda>h. limiterRequest ?s (h_request h)) (co_handlers c2))"
    unfolding q by (simp add: redisSafe_def l counted_def)
  have ok: "\<forall>h\<in>set (co_handlers c2). newEventTopic ?s \<noteq> topicOf ?s (contextOf (h_request h)) \<and> int (messageCount (h_request h)) < 2 ^ 63"
      "kafkaMessageFormat ?s \<noteq> TimberCollectionMessageFormat" "hitLimit ?env = redisIsHitLimit local_impl memory_redis"
    using c1(3) c2(2,3)
    by (simp_all add: load_def busy_service_def busy_env_def topicOf_def demo_context_def GetKafkaTopic_def TimberCollectionMessageFormat_def)
  from concurrent_producer_enforces_rate [OF c2(1) ok(3) counting_memory_redis safe ok(2,1), of "''p_app_pb''"] c2(1) load
  show ?thesis by (auto simp: l durationSeconds_def)
qed

end
