(* ===== verification/Redis_Shared.thy ===== *)
theory Redis_Shared
  imports Redis_Limiter
begin

text \<open>
  Several producers that share one Redis, each with a limiter of \<open>flow/redis_rate_limiter.go\<close> of its own. The
  mutex of a limiter keeps its calls apart from one another, not from those of other processes: the two Redis
  commands of a call are separate steps, and those of different limiters interleave.
\<close>

section \<open>A call in two halves\<close>

text \<open>
  \<open>IsHitLimit\<close> up to the expiry: \<^const>\<open>None\<close> when the key is new and its time to live is still to be set, else
  the answer. Then the rest.
\<close>

definition redisCount :: "'l limiter_impl \<Rightarrow> 'r redis_env \<Rightarrow> ('l, 'r) RedisRateLimiter \<Rightarrow> string \<Rightarrow> int64 \<Rightarrow> int32 \<Rightarrow>
    bool option \<times> ('l, 'r) RedisRateLimiter" where
  "redisCount impl env l topic count maxTokenIfNotExist =
     (if rr_isUsingLocal l then apfst Some (localIsHitLimit impl l topic count maxTokenIfNotExist)
      else
        let ((currentToken, err), l1) = incrBy env (getKeyFormatted l topic) count l;
            (failed, l2) = onErr err l1
        in if failed then (Some True, l2)
           else if maxTokenIfNotExist * durationSeconds (rr_duration l2) <s currentToken then (Some True, l2)
           else if widen currentToken \<noteq> count then (Some False, l2)
           else (None, l2))"

definition redisExpire :: "'r redis_env \<Rightarrow> string \<Rightarrow> ('l, 'r) RedisRateLimiter \<Rightarrow> bool \<times> ('l, 'r) RedisRateLimiter" where
  "redisExpire env topic l = (let (err, l1) = expireNx env (getKeyFormatted l topic) l in onErr err l1)"

lemma expireNx_key: "getKeyFormatted (snd (onErr err (snd (incrBy env key n l)))) = getKeyFormatted l"
  by (auto simp: fun_eq_iff getKeyFormatted_def onErr_def incrBy_def onConnect_def Let_def split: prod.splits)

lemma redisIsHitLimit_halves:
  "redisIsHitLimit impl env l topic n m =
    (case redisCount impl env l topic n m of
       (Some h, l1) \<Rightarrow> (h, l1)
     | (None, l1) \<Rightarrow> redisExpire env topic l1)"
proof (cases "rr_isUsingLocal l")
  case False
  obtain tok err l1 where 1: "incrBy env (getKeyFormatted l topic) n l = ((tok, err), l1)" by (metis surj_pair)
  obtain failed l2 where 2: "onErr err l1 = (failed, l2)" by fastforce
  have "getKeyFormatted l2 topic = getKeyFormatted l topic"
    using expireNx_key [of err env "getKeyFormatted l topic" n l] 1 2 by simp
  with False 1 2 show ?thesis by (simp add: redisIsHitLimit_def redisCount_def redisExpire_def Let_def split_beta)
qed (simp add: redisIsHitLimit_def redisCount_def split_beta)

section \<open>The system\<close>

text \<open>
  Each limiter \<open>i < n\<close> has at most one call between its two commands (\<open>ru_busy\<close>); \<open>ru_asked\<close> and \<open>ru_log\<close> record the
  requests of all limiters, when they come in and when they are answered.
\<close>

record ('l, 'r) redis_users =
  ru_limiters :: "nat \<Rightarrow> ('l, 'r) RedisRateLimiter"
  ru_db :: 'r
  ru_busy :: "nat \<Rightarrow> request option"
  ru_asked :: "request list"
  ru_log :: "(request \<times> bool) list"

abbreviation limiterOn :: "('l, 'r) redis_users \<Rightarrow> nat \<Rightarrow> ('l, 'r) RedisRateLimiter" where
  "limiterOn s i \<equiv> (ru_limiters s i)\<lparr>rr_db := ru_db s\<rparr>"

inductive users_step :: "'l limiter_impl \<Rightarrow> 'r redis_env \<Rightarrow> nat \<Rightarrow> ('l, 'r) redis_users \<Rightarrow> ('l, 'r) redis_users \<Rightarrow> bool"
  for impl :: "'l limiter_impl" and env :: "'r redis_env" and n :: nat where
  answered: "i < n \<Longrightarrow> ru_busy s i = None \<Longrightarrow> redisCount impl env (limiterOn s i) k c m = (Some h, l) \<Longrightarrow>
    users_step impl env n s
      (s\<lparr>ru_limiters := (ru_limiters s)(i := l), ru_db := rr_db l, ru_asked := ru_asked s @ [(k, c, m)],
         ru_log := ru_log s @ [((k, c, m), h)]\<rparr>)"
| counted_first: "i < n \<Longrightarrow> ru_busy s i = None \<Longrightarrow> redisCount impl env (limiterOn s i) k c m = (None, l) \<Longrightarrow>
    users_step impl env n s
      (s\<lparr>ru_limiters := (ru_limiters s)(i := l), ru_db := rr_db l, ru_asked := ru_asked s @ [(k, c, m)],
         ru_busy := (ru_busy s)(i := Some (k, c, m))\<rparr>)"
| expiry_set: "i < n \<Longrightarrow> ru_busy s i = Some (k, c, m) \<Longrightarrow> redisExpire env k (limiterOn s i) = (h, l) \<Longrightarrow>
    users_step impl env n s
      (s\<lparr>ru_limiters := (ru_limiters s)(i := l), ru_db := rr_db l, ru_busy := (ru_busy s)(i := None),
         ru_log := ru_log s @ [((k, c, m), h)]\<rparr>)"

text \<open>The limiters are configured alike and use Redis; \<open>db\<close> is Redis at the start of the window.\<close>

definition alike :: "int \<Rightarrow> string \<Rightarrow> ('l, 'r) RedisRateLimiter \<Rightarrow> bool" where
  "alike d pre l \<longleftrightarrow> rr_duration l = d \<and> rr_keyPrefix l = pre \<and> \<not> rr_isUsingLocal l"

definition redisKey :: "string \<Rightarrow> string \<Rightarrow> string" where
  "redisKey pre topic = (if pre \<noteq> [] then pre @ '':'' @ topic else topic)"

definition users_init :: "nat \<Rightarrow> int \<Rightarrow> string \<Rightarrow> 'r \<Rightarrow> ('l, 'r) redis_users \<Rightarrow> bool" where
  "users_init n d pre db s \<longleftrightarrow> (\<forall>i<n. alike d pre (ru_limiters s i)) \<and> ru_db s = db
     \<and> ru_busy s = (\<lambda>_. None) \<and> ru_asked s = [] \<and> ru_log s = []"

text \<open>
  What is relied on between two expirations: \<open>INCRBY\<close> counts, or it fails, and then it may or may not have counted
  (a timeout); no connection is refused, since a limiter then leaves Redis. \<open>EXPIRE NX\<close> changes no value.
\<close>

definition sharing_redis :: "'r redis_env \<Rightarrow> ('r \<Rightarrow> string \<Rightarrow> int) \<Rightarrow> bool" where
  "sharing_redis env val \<longleftrightarrow>
     (\<forall>k n r c t err r'. IncrByCmd env k n r = (c, (t, err), r') \<longrightarrow>
        \<not> isRedisConnectionRefused err
        \<and> (val r' = (val r)(k := val r k + sint n) \<or> val r' = val r \<and> isLegitRedisError err)
        \<and> (\<not> isLegitRedisError err \<longrightarrow> t = word_of_int (val r k + sint n)))
     \<and> (\<forall>k d r c err r'. ExpireNXCmd env k d r = (c, err, r') \<longrightarrow> \<not> isRedisConnectionRefused err \<and> val r' = val r)"

section \<open>One step\<close>

lemma no_redis_error [simp]: "\<not> isLegitRedisError None" "\<not> isRedisConnectionRefused None"
  by (simp_all add: isLegitRedisError_def isRedisConnectionRefused_def)

lemma alike_key: "alike d pre l \<Longrightarrow> getKeyFormatted l = redisKey pre"
  by (auto simp: fun_eq_iff alike_def getKeyFormatted_def redisKey_def)

lemma redisKey_inj [simp]: "redisKey pre t = redisKey pre t' \<longleftrightarrow> t = t'"
  by (simp add: redisKey_def)

lemma redisCount_sharing:
  assumes "sharing_redis env val" and "alike d pre l" and "redisCount impl env l k c m = (res, l')"
    and v: "0 \<le> val (rr_db l) (redisKey pre k)" "0 \<le> sint c" "val (rr_db l) (redisKey pre k) + sint c < 2 ^ 31"
  shows "alike d pre l'"
    and "\<exists>g. val (rr_db l') = (val (rr_db l))(redisKey pre k := val (rr_db l) (redisKey pre k) + g)
      \<and> 0 \<le> g \<and> g \<le> sint c
      \<and> (res \<noteq> Some True \<longrightarrow> g = sint c \<and> val (rr_db l) (redisKey pre k) + sint c \<le> sint (m * durationSeconds d))"
proof -
  let ?key = "redisKey pre k"
  let ?v = "val (rr_db l) ?key"
  obtain b t err r' where incr: "IncrByCmd env ?key c (rr_db l) = (b, (t, err), r')" by (metis surj_pair)
  with assms(1) have r': "\<not> isRedisConnectionRefused err"
      "val r' = (val (rr_db l))(?key := ?v + sint c) \<or> val r' = val (rr_db l) \<and> isLegitRedisError err"
      "\<not> isLegitRedisError err \<Longrightarrow> t = word_of_int (?v + sint c)"
    unfolding sharing_redis_def by blast+
  have "m * durationSeconds d <s to_int32 t \<longleftrightarrow> sint (m * durationSeconds d) < ?v + sint c" if "\<not> isLegitRedisError err"
    using r'(3) [OF that] widen_to_int32(2) [OF v] by (simp add: word_sless_alt)
  moreover have "getKeyFormatted l k = ?key" using alike_key [OF assms(2)] by simp
  ultimately have l': "rr_db l' = r'" "alike d pre l'"
      "res \<noteq> Some True \<Longrightarrow> \<not> isLegitRedisError err \<and> ?v + sint c \<le> sint (m * durationSeconds d)"
    using assms(2,3) incr r'(1)
    by (auto simp: redisCount_def incrBy_def onErr_def onConnect_def alike_def Let_def not_less split: if_splits)
  then show "alike d pre l'" by simp
  from r'(2) l' v(2) show "\<exists>g. val (rr_db l') = (val (rr_db l))(?key := ?v + g)
      \<and> 0 \<le> g \<and> g \<le> sint c \<and> (res \<noteq> Some True \<longrightarrow> g = sint c \<and> ?v + sint c \<le> sint (m * durationSeconds d))"
    by (elim disjE) (rule exI [of _ "sint c"], simp, rule exI [of _ 0], auto)
qed

lemma redisExpire_sharing:
  assumes "sharing_redis env val" and "alike d pre l" and "redisExpire env k l = (h, l')"
  shows "alike d pre l' \<and> val (rr_db l') = val (rr_db l)"
proof -
  obtain b err r' where ex: "ExpireNXCmd env (getKeyFormatted l k) (rr_duration l) (rr_db l) = (b, err, r')" by (metis surj_pair)
  with assms(1) have r': "\<not> isRedisConnectionRefused err" "val r' = val (rr_db l)" unfolding sharing_redis_def by blast+
  with assms(2,3) ex show ?thesis
    by (auto simp: redisExpire_def expireNx_def onErr_def onConnect_def alike_def Let_def isRedisConnectionRefused_def split: if_splits)
qed

section \<open>The invariant\<close>

text \<open>What limiter \<open>i\<close> is about to admit, and what has been admitted or is about to be, of one key.\<close>

definition underWay :: "string \<Rightarrow> request option \<Rightarrow> int" where
  "underWay key b = (case b of Some (k, c, m) \<Rightarrow> if k = key then sint c else 0 | None \<Rightarrow> 0)"

definition taken :: "nat \<Rightarrow> string \<Rightarrow> ('l, 'r) redis_users \<Rightarrow> int" where
  "taken n key s = admitted key (ru_log s) + (\<Sum>i<n. underWay key (ru_busy s i))"

lemma taken_moves:
  assumes "ru_log s' = ru_log s @ log" and "ru_busy s' = (ru_busy s)(i := b)" and "i < n"
  shows "taken n key s' = taken n key s + admitted key log - underWay key (ru_busy s i) + underWay key b"
  using sum_fun_upd [OF assms(3), of "\<lambda>_. underWay key" "ru_busy s" b] assms(1,2)
  by (simp add: taken_def admitted_def del: fun_upd_apply)

text \<open>All requests so far have counts that are not negative and one rate per key, and no counter can have passed \<open>2 ^ 31\<close>.\<close>

definition fits :: "('r \<Rightarrow> string \<Rightarrow> int) \<Rightarrow> (string \<Rightarrow> int32) \<Rightarrow> string \<Rightarrow> 'r \<Rightarrow> request list \<Rightarrow> bool" where
  "fits val rate pre db rs \<longleftrightarrow> counted rate rs
     \<and> (\<forall>k. 0 \<le> val db (redisKey pre k) \<and> val db (redisKey pre k) + demand k rs < 2 ^ 31)"

definition bounded :: "('r \<Rightarrow> string \<Rightarrow> int) \<Rightarrow> (string \<Rightarrow> int32) \<Rightarrow> nat \<Rightarrow> int \<Rightarrow> string \<Rightarrow> 'r \<Rightarrow> ('l, 'r) redis_users \<Rightarrow> string \<Rightarrow> bool" where
  "bounded val rate n d pre db s key \<longleftrightarrow>
     (let v0 = val db (redisKey pre key); v = val (ru_db s) (redisKey pre key)
      in v0 \<le> v \<and> v \<le> v0 + demand key (ru_asked s) \<and> taken n key s \<le> v - v0
         \<and> taken n key s \<le> max 0 (sint (rate key * durationSeconds d) - v0))"

definition users_inv :: "('r \<Rightarrow> string \<Rightarrow> int) \<Rightarrow> (string \<Rightarrow> int32) \<Rightarrow> nat \<Rightarrow> int \<Rightarrow> string \<Rightarrow> 'r \<Rightarrow> ('l, 'r) redis_users \<Rightarrow> bool" where
  "users_inv val rate n d pre db s \<longleftrightarrow> (\<forall>i r. ru_busy s i = Some r \<longrightarrow> r \<in> set (ru_asked s))
     \<and> (fits val rate pre db (ru_asked s) \<longrightarrow>
         (\<forall>i<n. alike d pre (ru_limiters s i)) \<and> (\<forall>key. bounded val rate n d pre db s key))"

lemma demand_append [simp]: "demand key (rs @ rs') = demand key rs + demand key rs'"
  by (simp add: demand_def)

lemma fits_append:
  assumes "fits val rate pre db (rs @ [(k, c, m)])"
  shows "fits val rate pre db rs" "0 \<le> sint c" "m = rate k"
    "val db (redisKey pre k) + demand k rs + sint c < 2 ^ 31"
proof -
  have c: "counted rate rs" "0 \<le> sint c" "m = rate k" using assms by (auto simp: fits_def counted_def)
  have v: "0 \<le> val db (redisKey pre k')" "val db (redisKey pre k') + demand k' (rs @ [(k, c, m)]) < 2 ^ 31" for k'
    using assms by (auto simp: fits_def)
  have "val db (redisKey pre k') + demand k' rs < 2 ^ 31" for k' using v(2) [of k'] c(2) by (simp split: if_splits)
  with c v(1) v(2) [of k] show "fits val rate pre db rs" "0 \<le> sint c" "m = rate k"
    "val db (redisKey pre k) + demand k rs + sint c < 2 ^ 31" by (auto simp: fits_def)
qed

text \<open>The first half of a call keeps the bounds, whether it is answered or goes on.\<close>

lemma bounded_count:
  assumes "sharing_redis env val" and "alike d pre (ru_limiters s i)" and "redisCount impl env (limiterOn s i) k c m = (res, l)"
    and "fits val rate pre db (ru_asked s @ [(k, c, m)])" and b: "\<And>key. bounded val rate n d pre db s key"
    and s': "ru_db s' = rr_db l" "ru_asked s' = ru_asked s @ [(k, c, m)]"
      "\<And>key. taken n key s' = taken n key s + (if key = k \<and> res \<noteq> Some True then sint c else 0)"
  shows "alike d pre l \<and> bounded val rate n d pre db s' key"
proof -
  note f = fits_append [OF assms(4)]
  have l: "alike d pre (limiterOn s i)" using assms(2) by (simp add: alike_def)
  have "0 \<le> val (ru_db s) (redisKey pre k)" "val (ru_db s) (redisKey pre k) + sint c < 2 ^ 31"
    using b [of k] f by (auto simp: bounded_def fits_def Let_def intro: order.trans)
  with redisCount_sharing [OF assms(1) l assms(3) _ f(2)] obtain g where "alike d pre l" and
      g: "val (rr_db l) = (val (ru_db s))(redisKey pre k := val (ru_db s) (redisKey pre k) + g)" "0 \<le> g" "g \<le> sint c"
      "res \<noteq> Some True \<longrightarrow> g = sint c \<and> val (ru_db s) (redisKey pre k) + sint c \<le> sint (rate k * durationSeconds d)"
    using f(3) by auto
  moreover have "bounded val rate n d pre db s' key"
    using b [of key] g by (cases "key = k"; cases "res = Some True") (auto simp: bounded_def Let_def s')
  ultimately show ?thesis by simp
qed

lemma users_step_inv:
  assumes "sharing_redis env val" and inv: "users_inv val rate n d pre db s" and "users_step impl env n s s'"
  shows "users_inv val rate n d pre db s'"
  using assms(3)
proof cases
  case (answered i k c m h l)
  have "taken n key s' = taken n key s + (if key = k \<and> Some h \<noteq> Some True then sint c else 0)" for key
    by (auto simp: answered(1) taken_def admitted_def)
  note count = bounded_count [OF assms(1) _ answered(4) _ _ _ _ this, of d pre rate db]
  have "(\<forall>j<n. alike d pre (ru_limiters s' j)) \<and> (\<forall>key. bounded val rate n d pre db s' key)" if "fits val rate pre db (ru_asked s')"
    using count that inv answered(2)
      fits_append(1) [of val rate pre db "ru_asked s" k c m] by (auto simp: users_inv_def answered(1))
  with inv show ?thesis by (auto simp: users_inv_def answered(1))
next
  case (counted_first i k c m l)
  have "taken n key s' = taken n key s + (if key = k \<and> None \<noteq> Some True then sint c else 0)" for key
    using taken_moves [of s' s "[]" i "Some (k, c, m)" n key] counted_first by (auto simp: underWay_def)
  note count = bounded_count [OF assms(1) _ counted_first(4) _ _ _ _ this, of d pre rate db]
  have "(\<forall>j<n. alike d pre (ru_limiters s' j)) \<and> (\<forall>key. bounded val rate n d pre db s' key)" if "fits val rate pre db (ru_asked s')"
    using count that inv counted_first(2,3)
      fits_append(1) [of val rate pre db "ru_asked s" k c m] by (auto simp: users_inv_def counted_first(1))
  with inv show ?thesis by (auto simp: users_inv_def counted_first(1))
next
  case (expiry_set i k c m h l)
  have ok: "(\<forall>j<n. alike d pre (ru_limiters s' j)) \<and> (\<forall>key. bounded val rate n d pre db s' key)" if fit: "fits val rate pre db (ru_asked s)"
  proof -
    have "alike d pre (limiterOn s i)" using inv fit expiry_set(2) by (auto simp: users_inv_def alike_def)
    from redisExpire_sharing [OF assms(1) this expiry_set(4)] have l: "alike d pre l" "val (rr_db l) = val (ru_db s)" by simp_all
    have "(k, c, m) \<in> set (ru_asked s)" using inv expiry_set(3) by (auto simp: users_inv_def)
    with fit have "0 \<le> sint c" by (auto simp: fits_def counted_def)
    then have "taken n key s' \<le> taken n key s" for key
      using taken_moves [of s' s "[((k, c, m), h)]" i None n key] expiry_set by (auto simp: underWay_def)
    then have "bounded val rate n d pre db s' key" if "bounded val rate n d pre db s key" for key
      using that l(2) order.trans by (fastforce simp: bounded_def Let_def expiry_set(1))
    with inv fit l(1) show ?thesis by (auto simp: users_inv_def expiry_set(1))
  qed
  with inv show ?thesis by (auto simp: users_inv_def expiry_set(1))
qed

lemma users_init_inv: "users_init n d pre db s \<Longrightarrow> users_inv val rate n d pre db s"
  by (auto simp: users_init_def users_inv_def bounded_def taken_def underWay_def Let_def)

interpretation users: state_machine "\<lambda>s. sharing_redis env val \<and> users_init n d pre db s" "users_step impl env n"
    "\<lambda>s. sharing_redis env val \<and> users_inv val rate n d pre db s" for impl env val rate n d pre db
  by unfold_locales (auto intro: users_init_inv users_step_inv)

text \<open>
  C7. A rate holds for all producers together: when several limiters, configured alike, share one Redis and
  their commands interleave in any way, the messages of a key that all of them have admitted since \<open>db\<close> are never
  more than the rate times the interval, less what the key stood at, also while commands fail; provided
  that what all of them were asked for keeps every counter below \<open>2 ^ 31\<close> and no connection is refused.
\<close>

theorem shared_redis_enforces_rate:
  assumes "reach (users_init n d pre db) (users_step impl env n) s" and "sharing_redis env val"
    and "fits val rate pre db (ru_asked s)"
  shows "admitted key (ru_log s) \<le> max 0 (sint (rate key * durationSeconds d) - val db (redisKey pre key))"
proof -
  have "users_inv val rate n d pre db s" using users.inv_reach [of env val n d pre db impl s rate] assms(1,2) by simp
  with assms(3) have "taken n key s \<le> max 0 (sint (rate key * durationSeconds d) - val db (redisKey pre key))"
    and busy: "\<And>i r. ru_busy s i = Some r \<Longrightarrow> r \<in> set (ru_asked s)" by (auto simp: users_inv_def bounded_def Let_def)
  moreover have "0 \<le> underWay key (ru_busy s i)" for i
    using busy [of i] assms(3) by (fastforce simp: underWay_def fits_def counted_def split: option.splits)
  then have "0 \<le> (\<Sum>i<n. underWay key (ru_busy s i))" by (simp add: sum_nonneg)
  ultimately show ?thesis by (simp add: taken_def)
qed

text \<open>A limiter that is not busy can be asked.\<close>

lemma users_ask:
  assumes "i < n" and "ru_busy s i = None"
  shows "\<exists>s'. users_step impl env n s s' \<and> ru_asked s' = ru_asked s @ [(k, c, m)] \<and> (\<forall>j. j \<noteq> i \<longrightarrow> ru_busy s' j = ru_busy s j)"
proof -
  obtain res l where r: "redisCount impl env (limiterOn s i) k c m = (res, l)" by fastforce
  show ?thesis
  proof (cases res)
    case None
    with answered counted_first [OF assms, of impl env k c m l] r show ?thesis by fastforce
  next
    case (Some h)
    with answered [OF assms, of impl env k c m h l] r show ?thesis by fastforce
  qed
qed

lemma sharing_memory_redis: "sharing_redis memory_redis (\<lambda>r. r)"
  by (auto simp: sharing_redis_def memory_redis_def)

definition demo_users :: "(rateLimiter, string \<Rightarrow> int) redis_users" where
  "demo_users = \<lparr>ru_limiters = (\<lambda>_. demo_redis), ru_db = (\<lambda>_. 0), ru_busy = (\<lambda>_. None), ru_asked = [], ru_log = []\<rparr>"

theorem shared_redis_enforces_rate_witness:
  "\<exists>s. reach (users_init 2 (10 * 1000000000) ''barito'' (\<lambda>_. 0)) (users_step local_impl memory_redis 2) s
    \<and> ru_asked s = [(''a'', 30, 5), (''a'', 40, 5)] \<and> admitted ''a'' (ru_log s) \<le> 50"
proof -
  let ?R = "reach (users_init 2 (10 * 1000000000) ''barito'' (\<lambda>_. 0)) (users_step local_impl memory_redis 2)"
  have "?R demo_users"
    by (rule reach_init) (simp add: users_init_def demo_users_def demo_redis_def redis_new_defs alike_def TrimSpace_def isSpace_def)
  moreover obtain s1 where "users_step local_impl memory_redis 2 demo_users s1" "ru_asked s1 = [(''a'', 30, 5)]" "ru_busy s1 1 = None"
    using users_ask [of 0 2 demo_users local_impl memory_redis "''a''" 30 5] by (auto simp: demo_users_def)
  moreover from this obtain s2 where "users_step local_impl memory_redis 2 s1 s2" "ru_asked s2 = [(''a'', 30, 5), (''a'', 40, 5)]"
    using users_ask [of 1 2 s1 local_impl memory_redis "''a''" 40 5] by auto
  ultimately have s2: "?R s2" "ru_asked s2 = [(''a'', 30, 5), (''a'', 40, 5)]" by (blast intro: reach_step)+
  have "fits (\<lambda>r. r) (\<lambda>_. 5) ''barito'' (\<lambda>_. 0) (ru_asked s2)" by (simp add: s2 fits_def counted_def)
  from shared_redis_enforces_rate [OF s2(1) sharing_memory_redis this, of "''a''"] s2 show ?thesis
    by (auto simp: durationSeconds_def)
qed

end
