(* ===== verification/Consumer_Fleet.thy ===== *)
theory Consumer_Fleet
  imports Consumer_Lifecycle
begin

text \<open>
  The Elasticsearch consumer at work: the workers that \<open>Start\<close> and the new-topic events have spawned, all
  with the service's \<open>onStoreTimber\<close> as their success callback, interleaved with one another and with the
  operations on the service. Every worker has the goroutines of \<open>Consumer_Worker\<close>; the state their callbacks
  act on is the one service. A call of \<open>onStoreTimber\<close> is not one step: it stores the logs of its message one
  by one, and other workers store theirs in between. Only calls of \<open>Store\<close> that return are followed.
\<close>

section \<open>The workers of a service\<close>

text \<open>The method value \<open>s.onStoreTimber\<close>, for a call that runs without interruption.\<close>

definition storeCallback :: "('e, 'k) consumer_env \<Rightarrow> ConsumerMessage \<Rightarrow> ('e, 'k) baritoConsumerService \<Rightarrow>
    ('e, 'k) baritoConsumerService" where
  "storeCallback env m s = (case onStoreTimber env m s of Some (Ret s') \<Rightarrow> s' | _ \<Rightarrow> s)"

text \<open>The worker that \<open>spawnLogsWorker\<close> makes and starts.\<close>

definition logsWorker :: "('e, 'k) consumer_env \<Rightarrow> string \<Rightarrow> ('e, 'k) baritoConsumerService \<Rightarrow>
    ('e, 'k) baritoConsumerService worker_sys" where
  "logsWorker env topic s =
     workerStart
       \<lparr>wk = OnSuccess (storeCallback env) (OnError logError (NewConsumerWorker topic)),
        ad = newConsumerGroupAdapter [topic], pc = NotRunning, started = False, stopSignals = 0, wmetrics = [],
        world = s, arrived = [], processed = []\<rparr>"

text \<open>
  \<open>fl_inside\<close> has the calls of \<open>onStoreTimber\<close> that are under way, with the context of the message and the logs still
  to be stored. \<open>fl_order\<close> logs the messages whose call has returned and \<open>fl_docs\<close> the documents handed to
  Elasticsearch, both with their topic; \<open>fl_redactors\<close> the redactors that have been in force, each with the rules
  of its time.
\<close>

record ('e, 'k) fleet =
  fl_service :: "('e, 'k) baritoConsumerService"
  fl_workers :: "string \<rightharpoonup> ('e, 'k) baritoConsumerService worker_sys"
  fl_inside :: "string \<rightharpoonup> TimberContext option \<times> Timber list"
  fl_order :: "(string \<times> ConsumerMessage) list"
  fl_docs :: "(string \<times> string \<times> string) list"
  fl_redactors :: "redact_fun set"

definition stopAll :: "(string \<rightharpoonup> 'w worker_sys) \<Rightarrow> string \<rightharpoonup> 'w worker_sys" where
  "stopAll ws t = map_option workerStop (ws t)"

definition workersOf :: "('e, 'k) consumer_env \<Rightarrow> ('e, 'k) baritoConsumerService \<Rightarrow>
    string \<rightharpoonup> ('e, 'k) baritoConsumerService worker_sys" where
  "workersOf env s t =
     map_option (\<lambda>h. if wh_running h then logsWorker env t s else workerStop (logsWorker env t s)) (workers s t)"

section \<open>Operations on the service\<close>

definition fleetEvent :: "('e, 'k) consumer_env \<Rightarrow> ConsumerMessage \<Rightarrow> ('e, 'k) fleet \<Rightarrow> ('e, 'k) fleet" where
  "fleetEvent env m f =
     (let s = fl_service f; s' = onNewTopicEvent env m s; topic = cmValue m
      in f\<lparr>fl_service := s',
           fl_workers :=
             (if workers s topic \<noteq> None \<or> \<not> HasPrefix topic (bc_topicPrefix s) then fl_workers f
              else if workers s' topic \<noteq> None then (fl_workers f)(topic \<mapsto> logsWorker env topic s')
              else stopAll (fl_workers f))\<rparr>)"

definition fleetClose :: "('e, 'k) consumer_env \<Rightarrow> ('e, 'k) fleet \<Rightarrow> ('e, 'k) fleet" where
  "fleetClose env f = f\<lparr>fl_service := closeConsumer env (fl_service f), fl_workers := stopAll (fl_workers f)\<rparr>"

definition fleetHalt :: "('e, 'k) consumer_env \<Rightarrow> ('e, 'k) fleet \<Rightarrow> ('e, 'k) fleet" where
  "fleetHalt env f =
     f\<lparr>fl_service := onElasticMaxRetryReached env (fl_service f),
       fl_workers := (if bc_isHalt (fl_service f) then fl_workers f else stopAll (fl_workers f))\<rparr>"

text \<open>The goroutine of \<open>NewRedactorFromMarket\<close> has fetched new rules and put them into the redactor.\<close>

definition fleetRefresh :: "json_codec \<Rightarrow> (string \<times> Rules) list \<Rightarrow> Redactor \<Rightarrow> ('e, 'k) fleet \<Rightarrow> ('e, 'k) fleet" where
  "fleetRefresh codec rules r f =
     (let red = redactMethod codec (Some (UpdateRulesMap r rules)); s = fl_service f
      in f\<lparr>fl_service := s\<lparr>bc_esClient := (bc_esClient s)\<lparr>redactor := red\<rparr>\<rparr>, fl_redactors := insert red (fl_redactors f)\<rparr>)"

section \<open>A call of the callback\<close>

text \<open>One turn of the loop of \<open>onStoreTimber\<close>: whether it goes on, and the service.\<close>

definition storeLog :: "('e, 'k) consumer_env \<Rightarrow> TimberContext option \<Rightarrow> Timber \<Rightarrow> ('e, 'k) baritoConsumerService \<Rightarrow>
    (bool \<times> ('e, 'k) baritoConsumerService) go option" where
  "storeLog env c timber s =
     (case Store (ce_es env) (timber\<lparr>tContext := c\<rparr>) (bc_esClient s) of
        None \<Rightarrow> None
      | Some (Panic p) \<Rightarrow> Some (Panic p)
      | Some (Ret (err, timber1, client1)) \<Rightarrow>
          let s1 = s\<lparr>bc_esClient := client1\<rparr>
          in Some (Ret (case err of
               Some e \<Rightarrow> (False, logError (Concat ErrStore e) s1)
             | None \<Rightarrow> (True, logTimber timber1 s1))))"

lemma storeItems_turn:
  "storeItems env c (timber # items) s =
    (case storeLog env c timber s of
       None \<Rightarrow> None
     | Some (Panic p) \<Rightarrow> Some (Panic p)
     | Some (Ret (goes_on, s1)) \<Rightarrow> if goes_on then storeItems env c items s1 else Some (Ret s1))"
  by (auto simp: storeLog_def Let_def split: option.splits go.splits)

definition beginCall :: "('e, 'k) consumer_env \<Rightarrow> string \<Rightarrow> ConsumerMessage \<Rightarrow> ('e, 'k) fleet \<Rightarrow> ('e, 'k) fleet" where
  "beginCall env t m f =
     (case collectionOf env m of
        Inl e \<Rightarrow> f\<lparr>fl_service := logError (Concat ErrConvertKafkaMessage e) (fl_service f), fl_inside := (fl_inside f)(t \<mapsto> (None, []))\<rparr>
      | Inr tc \<Rightarrow> f\<lparr>fl_inside := (fl_inside f)(t \<mapsto> (cContext tc, cItems tc))\<rparr>)"

definition docsOf :: "('e, 'k) baritoConsumerService \<Rightarrow> (string \<times> string) list" where
  "docsOf s = documents (es_calls (bc_esClient s))"

definition turnTo :: "string \<Rightarrow> TimberContext option \<times> Timber list \<Rightarrow> ('e, 'k) baritoConsumerService \<Rightarrow> ('e, 'k) fleet \<Rightarrow> ('e, 'k) fleet" where
  "turnTo t b s f =
     f\<lparr>fl_service := s, fl_inside := (fl_inside f)(t \<mapsto> b),
       fl_docs := fl_docs f @ map (Pair t) (drop (length (docsOf (fl_service f))) (docsOf s))\<rparr>"

lemma turnTo_simps [simp]:
  "fl_service (turnTo t b s f) = s" "fl_workers (turnTo t b s f) = fl_workers f" "fl_order (turnTo t b s f) = fl_order f"
  "fl_redactors (turnTo t b s f) = fl_redactors f" "fl_inside (turnTo t b s f) = (fl_inside f)(t \<mapsto> b)"
  by (simp_all add: turnTo_def)

text \<open>When the call returns the main loop goes on; what the call did to the service it did before.\<close>

definition endCall :: "'w worker_sys \<Rightarrow> ConsumerMessage \<Rightarrow> 'w worker_sys" where
  "endCall w m = (fire w m)\<lparr>world := world w\<rparr>"

inductive fleet_step :: "('e, 'k) consumer_env \<Rightarrow> ('e, 'k) fleet \<Rightarrow> ('e, 'k) fleet \<Rightarrow> bool"
  for env :: "('e, 'k) consumer_env" where
  worker_moves: "fl_workers f t = Some w \<Longrightarrow> worker_step (w\<lparr>world := fl_service f\<rparr>) w' \<Longrightarrow> processed w' = processed w \<Longrightarrow>
    fleet_step env f (f\<lparr>fl_service := world w', fl_workers := (fl_workers f)(t \<mapsto> w')\<rparr>)"
| call_begins: "fl_workers f t = Some w \<Longrightarrow> pc w = Received m \<Longrightarrow> onSuccessFunc (wk w) = Some (storeCallback env) \<Longrightarrow>
    fl_inside f t = None \<Longrightarrow> fleet_step env f (beginCall env t m f)"
| log_stored: "fl_inside f t = Some (c, timber # items) \<Longrightarrow> storeLog env c timber (fl_service f) = Some (Ret (goes_on, s')) \<Longrightarrow>
    fleet_step env f (turnTo t (c, if goes_on then items else []) s' f)"
| call_returns: "fl_workers f t = Some w \<Longrightarrow> pc w = Received m \<Longrightarrow> fl_inside f t = Some (c, []) \<Longrightarrow>
    fleet_step env f
      (f\<lparr>fl_workers := (fl_workers f)(t \<mapsto> endCall w m), fl_inside := (fl_inside f)(t := None), fl_order := fl_order f @ [(t, m)]\<rparr>)"
| new_topic: "fleet_step env f (fleetEvent env m f)"
| close: "fleet_step env f (fleetClose env f)"
| elastic_retry: "fleet_step env f (f\<lparr>fl_service := onElasticRetry err (fl_service f)\<rparr>)"
| elastic_given_up: "fleet_step env f (fleetHalt env f)"
| rules_refreshed: "fleet_step env f (fleetRefresh codec rules r f)"

definition fleetOf :: "('e, 'k) consumer_env \<Rightarrow> ('e, 'k) baritoConsumerService \<Rightarrow> ('e, 'k) fleet" where
  "fleetOf env s =
     \<lparr>fl_service = s, fl_workers = workersOf env s, fl_inside = Map.empty, fl_order = [], fl_docs = [],
      fl_redactors = {redactor (bc_esClient s)}\<rparr>"

definition fleet_init :: "('e, 'k) consumer_env \<Rightarrow> ('e, 'k) baritoConsumerService \<Rightarrow> ('e, 'k) fleet \<Rightarrow> bool" where
  "fleet_init env s f \<longleftrightarrow> (\<exists>s0. startConsumer env s0 = Some (None, s)) \<and> f = fleetOf env s"

section \<open>A call without interruption\<close>

text \<open>Stepwise, and undisturbed, a call does what \<open>onStoreTimber\<close> does.\<close>

lemma storeItems_steps:
  assumes "storeItems env c items (fl_service f) = Some (Ret s')" and "fl_inside f t = Some (c, items)"
  shows "\<exists>f'. (fleet_step env)\<^sup>*\<^sup>* f f' \<and> fl_service f' = s' \<and> fl_inside f' = (fl_inside f)(t \<mapsto> (c, []))
    \<and> fl_workers f' = fl_workers f \<and> fl_order f' = fl_order f"
  using assms
proof (induction items arbitrary: f)
  case Nil
  then have "fl_inside f = (fl_inside f)(t \<mapsto> (c, []))" by auto
  with Nil show ?case by auto
next
  case (Cons x items)
  from Cons.prems(1) obtain goes_on s1 where s1: "storeLog env c x (fl_service f) = Some (Ret (goes_on, s1))"
      "(if goes_on then storeItems env c items s1 else Some (Ret s1)) = Some (Ret s')"
    unfolding storeItems_turn by (auto split: option.splits go.splits)
  let ?f = "turnTo t (c, if goes_on then items else []) s1 f"
  have f: "fleet_step env f ?f" "fl_service ?f = s1" "fl_workers ?f = fl_workers f" "fl_order ?f = fl_order f"
      "fl_inside ?f = (fl_inside f)(t \<mapsto> (c, if goes_on then items else []))"
    using log_stored [OF Cons.prems(2) s1(1)] by (simp_all add: turnTo_def)
  show ?case
  proof (cases goes_on)
    case True
    then have "storeItems env c items (fl_service ?f) = Some (Ret s')" "fl_inside ?f t = Some (c, items)" using f s1(2) by simp_all
    from Cons.IH [OF this] obtain f' where "(fleet_step env)\<^sup>*\<^sup>* ?f f'" "fl_service f' = s'"
        "fl_inside f' = (fl_inside f)(t \<mapsto> (c, []))" "fl_workers f' = fl_workers f" "fl_order f' = fl_order f"
      unfolding f by (auto simp del: fun_upd_apply)
    with f(1) show ?thesis by (blast intro: converse_rtranclp_into_rtranclp)
  next
    case False
    with f s1(2) show ?thesis by (intro exI [of _ ?f]) auto
  qed
qed

lemma onStoreTimber_steps:
  assumes "fl_workers f t = Some w" and "pc w = Received m" and "onSuccessFunc (wk w) = Some (storeCallback env)"
    and "fl_inside f t = None" and "onStoreTimber env m (fl_service f) = Some (Ret s')"
  shows "\<exists>f'. (fleet_step env)\<^sup>*\<^sup>* f f' \<and> fl_service f' = s' \<and> fl_workers f' = (fl_workers f)(t \<mapsto> endCall w m)
    \<and> fl_inside f' = fl_inside f \<and> fl_order f' = fl_order f @ [(t, m)]"
proof -
  let ?f1 = "beginCall env t m f"
  have 1: "fleet_step env f ?f1" using call_begins [OF assms(1-4)] .
  obtain c f2 where f2: "(fleet_step env)\<^sup>*\<^sup>* ?f1 f2" "fl_service f2 = s'" "fl_inside f2 = (fl_inside f)(t \<mapsto> (c, []))"
      "fl_workers f2 = fl_workers f" "fl_order f2 = fl_order f"
  proof (cases "collectionOf env m")
    case (Inl e)
    with assms(5) that [of ?f1 None] show thesis by (auto simp: beginCall_def onStoreTimber_def)
  next
    case (Inr tc)
    with assms(5) storeItems_steps [of env "cContext tc" "cItems tc" ?f1 s' t] that show thesis
      by (auto simp: beginCall_def onStoreTimber_def)
  qed
  let ?f3 = "f2\<lparr>fl_workers := (fl_workers f2)(t \<mapsto> endCall w m), fl_inside := (fl_inside f2)(t := None), fl_order := fl_order f2 @ [(t, m)]\<rparr>"
  have "fleet_step env f2 ?f3" by (rule call_returns) (use assms f2 in auto)
  with 1 f2(1) have "(fleet_step env)\<^sup>*\<^sup>* f ?f3"
    by (meson converse_rtranclp_into_rtranclp rtranclp.rtrancl_into_rtrancl)
  moreover have "(fl_inside f)(t := None) = fl_inside f" using assms(4) by auto
  ultimately show ?thesis using f2 by (intro exI [of _ ?f3]) simp
qed

section \<open>One step of a worker\<close>

definition callbacksOf :: "'w worker_sys \<Rightarrow> (ConsumerMessage \<Rightarrow> 'w \<Rightarrow> 'w) option \<times> (error \<Rightarrow> 'w \<Rightarrow> 'w) option \<times>
    (string \<Rightarrow> 'w \<Rightarrow> 'w) option" where
  "callbacksOf w = (onSuccessFunc (wk w), onErrorFunc (wk w), onNotificationFunc (wk w))"

text \<open>A step calls the success callback, or calls one of the others, or leaves the world alone.\<close>

lemma worker_step_effect:
  assumes "worker_step w w'"
  shows "callbacksOf w' = callbacksOf w
    \<and> ((\<exists>m. pc w = Received m \<and> w' = fire w m)
       \<or> processed w' = processed w
         \<and> (world w' = world w \<or> (\<exists>e. world w' = fireError (wk w) e (world w)) \<or> (\<exists>n. world w' = fireNotification (wk w) n (world w))))"
  using assms by cases (auto simp: worker_ops callbacksOf_def)

section \<open>What storing a message adds\<close>

text \<open>
  The documents \<open>ds\<close> that a call may have stored: those of the first logs of its message, each redacted by one
  of some redactors; and whether they are those of all its logs.
\<close>

definition messageDocs :: "('e, 'k) consumer_env \<Rightarrow> redact_fun set \<Rightarrow> ConsumerMessage \<Rightarrow> (string \<times> string) list \<Rightarrow> bool" where
  "messageDocs env reds m ds \<longleftrightarrow>
     (case collectionOf env m of
        Inl e \<Rightarrow> ds = []
      | Inr tc \<Rightarrow> length ds \<le> length (cItems tc)
          \<and> list_all2 (\<lambda>timber d. \<exists>red\<in>reds. storedAs env red (cContext tc) timber d) (take (length ds) (cItems tc)) ds)"

lemma messageDocs_mono: "messageDocs env reds m ds \<Longrightarrow> reds \<subseteq> reds' \<Longrightarrow> messageDocs env reds' m ds"
  by (auto simp: messageDocs_def split: sum.splits elim!: list_all2_mono)

lemma messageDocs_Nil [simp]: "messageDocs env reds m []"
  by (simp add: messageDocs_def split: sum.splits)

lemma messageDocs_snoc:
  assumes "messageDocs env reds m ds" and "collectionOf env m = Inr tc" and "drop (length ds) (cItems tc) = timber # items"
    and "storedAs env red (cContext tc) timber d" and "red \<in> reds"
  shows "messageDocs env reds m (ds @ [d])"
proof -
  have "length ds < length (cItems tc)" using assms(3) by (metis drop_all linorder_not_less list.distinct(1))
  moreover from this assms(3) have "take (Suc (length ds)) (cItems tc) = take (length ds) (cItems tc) @ [timber]"
    by (metis nth_via_drop take_Suc_conv_app_nth)
  ultimately show ?thesis using assms by (auto simp: messageDocs_def intro!: list_all2_appendI)
qed

definition wholeMessage :: "('e, 'k) consumer_env \<Rightarrow> ConsumerMessage \<Rightarrow> (string \<times> string) list \<Rightarrow> bool" where
  "wholeMessage env m ds \<longleftrightarrow> (\<exists>tc. collectionOf env m = Inr tc \<and> length ds = length (cItems tc))"

text \<open>A turn adds the document of its log, or an error.\<close>

lemma storeLog_effect:
  assumes "storeLog env c timber s = Some (Ret (goes_on, s'))"
  shows "workers s' = workers s \<and> redactor (bc_esClient s') = redactor (bc_esClient s)
    \<and> (if goes_on then bc_lastError s' = bc_lastError s \<and> (\<exists>d. docsOf s' = docsOf s @ [d] \<and> storedAs env (redactor (bc_esClient s)) c timber d)
       else bc_lastError s' \<noteq> None \<and> docsOf s' = docsOf s)"
proof -
  obtain err t1 c1 where st: "Store (ce_es env) (timber\<lparr>tContext := c\<rparr>) (bc_esClient s) = Some (Ret (err, t1, c1))"
    using assms by (auto simp: storeLog_def split: option.splits go.splits)
  show ?thesis
  proof (cases err)
    case (Some e)
    with assms st Store_redactor [OF st] Store_nothing [of "ce_es env" "timber\<lparr>tContext := c\<rparr>" "bc_esClient s" e t1 c1] show ?thesis
      by (auto simp: storeLog_def logError_def workers_def docsOf_def Let_def)
  next
    case None
    obtain doc doc' ms ms' i where "fst (ConvertTimberToEsDocumentString (structJson (ce_es env)) (timber\<lparr>tContext := c\<rparr>)) = Inr doc"
        "redactor (bc_esClient s) (GetEsIndexPrefix c) doc ms = Ret (Inr doc', ms')"
        "documents (es_calls c1) = documents (es_calls (bc_esClient s)) @ [(i, doc')]"
      using Store_stored [of "ce_es env" "timber\<lparr>tContext := c\<rparr>" "bc_esClient s" t1 c1] st None by auto
    then have "storedAs env (redactor (bc_esClient s)) c timber (i, doc')" "docsOf (s\<lparr>bc_esClient := c1\<rparr>) = docsOf s @ [(i, doc')]"
      by (auto simp: storedAs_def docsOf_def)
    with None assms st Store_redactor [OF st] show ?thesis
      by (auto simp: storeLog_def logTimber_def workers_def docsOf_def Let_def)
  qed
qed

section \<open>The invariant\<close>

text \<open>The worker of a topic, next to what the service and the log know of the topic.\<close>

fun workerOk :: "('e, 'k) consumer_env \<Rightarrow> worker_handle option \<Rightarrow> ConsumerMessage list \<Rightarrow>
    ('e, 'k) baritoConsumerService worker_sys option \<Rightarrow> bool" where
  "workerOk env h ms None \<longleftrightarrow> h = None \<and> ms = []"
| "workerOk env h ms (Some w) \<longleftrightarrow> h \<noteq> None \<and> worker_inv w
     \<and> callbacksOf w = (Some (storeCallback env), Some logError, None) \<and> processed w = ms"

definition workersOk :: "('e, 'k) consumer_env \<Rightarrow> ('e, 'k) fleet \<Rightarrow> bool" where
  "workersOk env f \<longleftrightarrow> (\<forall>t. workerOk env (workers (fl_service f) t) (partOf t (fl_order f)) (fl_workers f t))"

text \<open>
  The call that is under way in a worker: what it has stored, \<open>cur\<close>, and what it has left, which is nothing after
  an error. \<open>failed\<close> says that the service has logged an error.
\<close>

definition itemsLeft :: "('e, 'k) consumer_env \<Rightarrow> bool \<Rightarrow> ConsumerMessage \<Rightarrow> nat \<Rightarrow> TimberContext option \<times> Timber list \<Rightarrow> bool" where
  "itemsLeft env failed m n b \<longleftrightarrow>
     (case collectionOf env m of
        Inl e \<Rightarrow> snd b = [] \<and> failed
      | Inr tc \<Rightarrow> fst b = cContext tc \<and> (snd b = drop n (cItems tc) \<or> snd b = [] \<and> failed))"

fun insideOk :: "('e, 'k) consumer_env \<Rightarrow> redact_fun set \<Rightarrow> bool \<Rightarrow> main_pc option \<Rightarrow> (TimberContext option \<times> Timber list) option \<Rightarrow>
    (string \<times> string) list \<Rightarrow> bool" where
  "insideOk env reds failed p None cur \<longleftrightarrow> cur = []"
| "insideOk env reds failed p (Some b) cur \<longleftrightarrow>
     (\<exists>m. p = Some (Received m) \<and> messageDocs env reds m cur \<and> itemsLeft env failed m (length cur) b)"

definition topicOk :: "('e, 'k) consumer_env \<Rightarrow> redact_fun set \<Rightarrow> bool \<Rightarrow> ConsumerMessage list \<Rightarrow> (string \<times> string) list \<Rightarrow>
    main_pc option \<Rightarrow> (TimberContext option \<times> Timber list) option \<Rightarrow> bool" where
  "topicOk env reds failed ms docs p b \<longleftrightarrow>
     (\<exists>dss cur. docs = concat dss @ cur \<and> list_all2 (messageDocs env reds) ms dss
        \<and> (\<not> failed \<longrightarrow> list_all2 (wholeMessage env) ms dss) \<and> insideOk env reds failed p b cur)"

definition storedOk :: "('e, 'k) consumer_env \<Rightarrow> (string \<times> string) list \<Rightarrow> ('e, 'k) fleet \<Rightarrow> bool" where
  "storedOk env d0 f \<longleftrightarrow>
     redactor (bc_esClient (fl_service f)) \<in> fl_redactors f
     \<and> docsOf (fl_service f) = d0 @ map snd (fl_docs f)
     \<and> (\<forall>t. topicOk env (fl_redactors f) (bc_lastError (fl_service f) \<noteq> None) (partOf t (fl_order f)) (partOf t (fl_docs f))
           (map_option pc (fl_workers f t)) (fl_inside f t))"

lemma itemsLeft_mono: "itemsLeft env failed m n b \<Longrightarrow> failed \<longrightarrow> failed' \<Longrightarrow> itemsLeft env failed' m n b"
  by (auto simp: itemsLeft_def split: sum.splits)

lemma topicOk_mono:
  assumes "topicOk env reds failed ms docs p b" and "reds \<subseteq> reds'" and "failed \<longrightarrow> failed'" and "b \<noteq> None \<longrightarrow> p' = p"
  shows "topicOk env reds' failed' ms docs p' b"
proof -
  obtain dss cur where d: "docs = concat dss @ cur" "list_all2 (messageDocs env reds) ms dss"
      "\<not> failed \<longrightarrow> list_all2 (wholeMessage env) ms dss" "insideOk env reds failed p b cur"
    using assms(1) by (auto simp: topicOk_def)
  have "list_all2 (messageDocs env reds') ms dss"
    using d(2) by (rule list_all2_mono) (auto intro: messageDocs_mono [OF _ assms(2)])
  moreover have "insideOk env reds' failed' p' b cur"
    using d(4) assms(4) messageDocs_mono [OF _ assms(2)] itemsLeft_mono [OF _ assms(3)] by (cases b) auto
  ultimately show ?thesis using d(1,3) assms(3) unfolding topicOk_def by blast
qed

text \<open>What hands over no document and clears no error keeps this part, if calls under way stay where they are.\<close>

definition sameStore :: "('e, 'k) baritoConsumerService \<Rightarrow> ('e, 'k) baritoConsumerService \<Rightarrow> bool" where
  "sameStore s s' \<longleftrightarrow> docsOf s' = docsOf s \<and> redactor (bc_esClient s') = redactor (bc_esClient s) \<and> (bc_lastError s' = None \<longrightarrow> bc_lastError s = None)"

lemma storedOk_inside:
  assumes "storedOk env d0 f" and "fl_inside f t \<noteq> None"
  shows "\<exists>w m. fl_workers f t = Some w \<and> pc w = Received m"
proof -
  obtain b where b: "fl_inside f t = Some b" using assms(2) by blast
  then obtain m where "map_option pc (fl_workers f t) = Some (Received m)"
    using assms(1) unfolding storedOk_def topicOk_def by (metis insideOk.simps(2))
  then show ?thesis by auto
qed

lemma storedOk_frame:
  assumes "storedOk env d0 f" and "docsOf (fl_service f') = docsOf (fl_service f)"
    and "bc_lastError (fl_service f') = None \<longrightarrow> bc_lastError (fl_service f) = None"
    and "redactor (bc_esClient (fl_service f')) \<in> fl_redactors f'" and "fl_redactors f \<subseteq> fl_redactors f'"
    and "fl_order f' = fl_order f" and "fl_docs f' = fl_docs f" and "fl_inside f' = fl_inside f"
    and "\<And>t. fl_inside f t \<noteq> None \<Longrightarrow> map_option pc (fl_workers f' t) = map_option pc (fl_workers f t)"
  shows "storedOk env d0 f'"
proof -
  have "topicOk env (fl_redactors f') (bc_lastError (fl_service f') \<noteq> None) (partOf t (fl_order f)) (partOf t (fl_docs f))
      (map_option pc (fl_workers f' t)) (fl_inside f t)" for t
    by (rule topicOk_mono [OF _ assms(5)]) (use assms(1,3,9) in \<open>auto simp: storedOk_def\<close>)
  with assms show ?thesis by (simp add: storedOk_def)
qed

lemma storedOk_sameStore:
  assumes "storedOk env d0 f" and "sameStore (fl_service f) (fl_service f')" and "fl_redactors f' = fl_redactors f"
    and "fl_order f' = fl_order f" and "fl_docs f' = fl_docs f" and "fl_inside f' = fl_inside f"
    and "\<And>t. fl_inside f t \<noteq> None \<Longrightarrow> map_option pc (fl_workers f' t) = map_option pc (fl_workers f t)"
  shows "storedOk env d0 f'"
  by (rule storedOk_frame [OF assms(1)]) (use assms in \<open>auto simp: sameStore_def storedOk_def\<close>)

lemma sameStore_ops [simp]:
  "sameStore s s" "sameStore s (logError e s)"
  "sameStore s (closeConsumer env s)" "sameStore s (onElasticRetry err s)" "sameStore s (onElasticMaxRetryReached env s)"
  "sameStore s (onNewTopicEvent env m s)"
  by (auto simp: sameStore_def docsOf_def closeConsumer_def onElasticRetry_def onElasticMaxRetryReached_def HaltAllWorker_def
      onNewTopicEvent_def logError_def observeC_def logNewTopic_def spawnLogsWorker_def Let_def split: prod.splits option.splits)

lemma workers_ops [simp]:
  "workers (onElasticRetry err s) = workers s"
  "workers (s\<lparr>bc_isHalt := b\<rparr>) = workers s"
  "workers (onElasticMaxRetryReached env s) t = None \<longleftrightarrow> workers s t = None"
  by (simp_all add: onElasticRetry_def) (simp_all add: workers_def onElasticMaxRetryReached_def HaltAllWorker_def
      logError_def closeConsumer_def Let_def map_of_map split: option.splits)

lemma callbacksOf_ops [simp]:
  "callbacksOf (workerStop w) = callbacksOf w" "callbacksOf (w\<lparr>world := x\<rparr>) = callbacksOf w"
  "processed (workerStop w) = processed w" "worker_inv (w\<lparr>world := x\<rparr>) \<longleftrightarrow> worker_inv w" "worker_inv (workerStop w) \<longleftrightarrow> worker_inv w"
  by (simp_all add: callbacksOf_def worker_ops worker_inv_def)

lemma logsWorker_ok [simp]:
  "worker_inv (logsWorker env t s)" "callbacksOf (logsWorker env t s) = (Some (storeCallback env), Some logError, None)"
  "processed (logsWorker env t s) = []"
  by (simp_all add: logsWorker_def worker_inv_def callbacksOf_def workerStart_def newConsumerGroupAdapter_def OnSuccess_def
      OnError_def NewConsumerWorker_def workerIsStart_def)

lemma workerOk_None [simp]: "workerOk env None ms wo \<longleftrightarrow> wo = None \<and> ms = []"
  by (cases wo) simp_all

lemma workerOk_stop:
  "workerOk env h ms wo \<Longrightarrow> (h' = None \<longleftrightarrow> h = None) \<Longrightarrow> workerOk env h' ms (map_option workerStop wo)"
  "workerOk env h ms wo \<Longrightarrow> (h' = None \<longleftrightarrow> h = None) \<Longrightarrow> workerOk env h' ms wo"
  by (cases wo; simp)+

lemma pc_workerStop [simp]: "pc (workerStop w) = pc w"
  by (simp add: worker_ops)

text \<open>A worker's step outside its callback stores nothing, and does not leave the callback.\<close>

lemma worker_step_received:
  assumes "worker_step w w'" and "worker_inv w" and "pc w = Received m" and "processed w' = processed w"
  shows "pc w' = Received m"
  using assms by cases (auto simp: worker_ops worker_inv_def)

lemma worker_move:
  assumes "worker_step (w\<lparr>world := s\<rparr>) w'" and "processed w' = processed w"
    and "callbacksOf w = (Some (storeCallback env), Some logError, None)"
  shows "sameStore s (world w')" "workers (world w') = workers s"
proof -
  have cb: "onErrorFunc (wk w) = Some logError" "onNotificationFunc (wk w) = None" using assms(3) by (simp_all add: callbacksOf_def)
  have "world w' = s \<or> (\<exists>e. world w' = logError e s)"
    using worker_step_effect [OF assms(1)] assms(2) cb by (auto simp: fireError_def fireNotification_def fire_def)
  then show "sameStore s (world w')" "workers (world w') = workers s" by auto
qed

section \<open>The steps of a call\<close>

lemma topicOk_begin:
  assumes "topicOk env reds failed ms docs p None" and "p = Some (Received m)" and "itemsLeft env failed m 0 b"
  shows "topicOk env reds failed ms docs p (Some b)"
proof -
  obtain dss where "docs = concat dss" "list_all2 (messageDocs env reds) ms dss" "\<not> failed \<longrightarrow> list_all2 (wholeMessage env) ms dss"
    using assms(1) by (auto simp: topicOk_def)
  with assms(2,3) show ?thesis unfolding topicOk_def by (intro exI [of _ dss] exI [of _ "[]"]) simp
qed

lemma beginCall_ok:
  assumes "storedOk env d0 f" and "fl_workers f t = Some w" and "pc w = Received m" and "fl_inside f t = None"
  shows "storedOk env d0 (beginCall env t m f)"
proof -
  let ?f = "beginCall env t m f" and ?reds = "fl_redactors f"
  have same: "sameStore (fl_service f) (fl_service ?f)" "fl_order ?f = fl_order f" "fl_docs ?f = fl_docs f"
    "fl_redactors ?f = ?reds" "fl_workers ?f = fl_workers f" by (simp_all add: beginCall_def split: sum.splits)
  have "topicOk env ?reds (bc_lastError (fl_service ?f) \<noteq> None) (partOf t' (fl_order f)) (partOf t' (fl_docs f))
      (map_option pc (fl_workers f t')) (fl_inside ?f t')" for t'
  proof -
    have ok: "topicOk env ?reds (bc_lastError (fl_service ?f) \<noteq> None) (partOf t' (fl_order f)) (partOf t' (fl_docs f))
        (map_option pc (fl_workers f t')) (fl_inside f t')"
      by (rule topicOk_mono) (use assms(1) same(1) in \<open>auto simp: storedOk_def sameStore_def\<close>)
    show ?thesis
    proof (cases "t' = t")
      case True
      have "itemsLeft env (bc_lastError (fl_service ?f) \<noteq> None) m 0 (the (fl_inside ?f t))"
        by (simp add: itemsLeft_def beginCall_def logError_def split: sum.splits)
      moreover have "fl_inside ?f t \<noteq> None" by (simp add: beginCall_def split: sum.splits)
      then obtain b where "fl_inside ?f t = Some b" by blast
      ultimately show ?thesis using topicOk_begin [of env ?reds _ _ _ _ m b] ok assms(2-4) True by simp
    next
      case False
      then have "fl_inside ?f t' = fl_inside f t'" by (simp add: beginCall_def split: sum.splits)
      with ok show ?thesis by simp
    qed
  qed
  with assms(1) same show ?thesis by (simp add: storedOk_def sameStore_def)
qed

text \<open>One log: the documents of its topic grow by its document, or its message is given up.\<close>

lemma log_stored_ok:
  assumes "storedOk env d0 f" and "fl_inside f t = Some (c, timber # items)"
    and "storeLog env c timber (fl_service f) = Some (Ret (goes_on, s'))"
  shows "storedOk env d0 (turnTo t (c, if goes_on then items else []) s' f)"
proof -
  let ?f = "turnTo t (c, if goes_on then items else []) s' f" and ?reds = "fl_redactors f" and ?failed = "bc_lastError s' \<noteq> None"
  let ?red = "redactor (bc_esClient (fl_service f))"
  note ef = storeLog_effect [OF assms(3)]
  have red: "?red \<in> ?reds" using assms(1) by (simp add: storedOk_def)
  define ds where "ds = drop (length (docsOf (fl_service f))) (docsOf s')"
  have ds: "docsOf s' = docsOf (fl_service f) @ ds" using ef by (auto simp: ds_def split: if_splits)
  have ok: "topicOk env ?reds ?failed (partOf t' (fl_order f)) (partOf t' (fl_docs f)) (map_option pc (fl_workers f t')) (fl_inside f t')" for t'
    by (rule topicOk_mono) (use assms(1) ef in \<open>auto simp: storedOk_def split: if_splits\<close>)
  obtain dss cur m where t: "partOf t (fl_docs f) = concat dss @ cur" "list_all2 (messageDocs env ?reds) (partOf t (fl_order f)) dss"
      "\<not> ?failed \<longrightarrow> list_all2 (wholeMessage env) (partOf t (fl_order f)) dss" "map_option pc (fl_workers f t) = Some (Received m)"
      "messageDocs env ?reds m cur" "itemsLeft env ?failed m (length cur) (c, timber # items)"
    using ok [of t] assms(2) by (auto simp: topicOk_def)
  obtain tc where tc: "collectionOf env m = Inr tc" "c = cContext tc" "drop (length cur) (cItems tc) = timber # items"
    using t(6) by (auto simp: itemsLeft_def split: sum.splits)
  have "messageDocs env ?reds m (cur @ ds) \<and> itemsLeft env ?failed m (length (cur @ ds)) (c, if goes_on then items else [])"
  proof (cases goes_on)
    case True
    with ef ds obtain d where d: "ds = [d]" "storedAs env ?red c timber d" by auto
    have "drop (Suc (length cur)) (cItems tc) = items" using tc(3) by (metis drop_Suc list.sel(3) tl_drop)
    with d tc True messageDocs_snoc [OF t(5) tc(1,3) _ red] show ?thesis by (simp add: itemsLeft_def)
  next
    case False
    with ef ds t(5) tc show ?thesis by (simp add: itemsLeft_def)
  qed
  then have "topicOk env ?reds ?failed (partOf t (fl_order f)) (partOf t (fl_docs f) @ ds) (map_option pc (fl_workers f t)) (fl_inside ?f t)"
    using t(1-4) unfolding topicOk_def by (intro exI [of _ dss] exI [of _ "cur @ ds"]) (auto simp: turnTo_def)
  with ok have "topicOk env ?reds ?failed (partOf t' (fl_order f)) (partOf t' (fl_docs ?f)) (map_option pc (fl_workers f t')) (fl_inside ?f t')" for t'
    by (cases "t' = t") (simp_all add: turnTo_def ds_def)
  moreover have "docsOf s' = d0 @ map snd (fl_docs ?f)"
    using assms(1) ds by (simp add: storedOk_def turnTo_def ds_def comp_def)
  ultimately show ?thesis using red ef unfolding storedOk_def turnTo_simps by simp
qed

lemma call_returns_ok:
  assumes "storedOk env d0 f" and "fl_workers f t = Some w" and "pc w = Received m" and "fl_inside f t = Some (c, [])"
    and f': "f' = f\<lparr>fl_workers := (fl_workers f)(t \<mapsto> endCall w m), fl_inside := (fl_inside f)(t := None), fl_order := fl_order f @ [(t, m)]\<rparr>"
  shows "storedOk env d0 f'"
proof -
  let ?reds = "fl_redactors f" and ?failed = "bc_lastError (fl_service f) \<noteq> None"
  have ok: "topicOk env ?reds ?failed (partOf t' (fl_order f)) (partOf t' (fl_docs f)) (map_option pc (fl_workers f t')) (fl_inside f t')" for t'
    using assms(1) by (simp add: storedOk_def)
  obtain dss cur where t: "partOf t (fl_docs f) = concat dss @ cur" "list_all2 (messageDocs env ?reds) (partOf t (fl_order f)) dss"
      "\<not> ?failed \<longrightarrow> list_all2 (wholeMessage env) (partOf t (fl_order f)) dss"
      "messageDocs env ?reds m cur" "itemsLeft env ?failed m (length cur) (c, [])"
    using ok [of t] assms(2-4) by (auto simp: topicOk_def)
  have "\<not> ?failed \<longrightarrow> wholeMessage env m cur"
    using t(4,5) by (auto simp: itemsLeft_def wholeMessage_def messageDocs_def split: sum.splits)
  then have "topicOk env ?reds ?failed (partOf t (fl_order f')) (partOf t (fl_docs f')) (map_option pc (fl_workers f' t)) (fl_inside f' t)"
    using t unfolding topicOk_def by (intro exI [of _ "dss @ [cur]"] exI [of _ "[]"]) (auto simp: f' partOf_def intro!: list_all2_appendI)
  with ok have "topicOk env ?reds ?failed (partOf t' (fl_order f')) (partOf t' (fl_docs f')) (map_option pc (fl_workers f' t')) (fl_inside f' t')" for t'
    by (cases "t' = t") (auto simp: f' partOf_def)
  with assms(1) show ?thesis by (simp add: storedOk_def f')
qed

section \<open>Every step\<close>

lemma fleet_worker_inv:
  assumes "workersOk env f" and "storedOk env d0 f" and "fl_workers f t = Some w"
    and "worker_step (w\<lparr>world := fl_service f\<rparr>) w'" and "processed w' = processed w"
    and f': "f' = f\<lparr>fl_service := world w', fl_workers := (fl_workers f)(t \<mapsto> w')\<rparr>"
  shows "workersOk env f' \<and> storedOk env d0 f'"
proof -
  have ok: "workerOk env (workers (fl_service f) t') (partOf t' (fl_order f)) (fl_workers f t')" for t'
    using assms(1) by (simp add: workersOk_def)
  have w: "worker_inv w" "callbacksOf w = (Some (storeCallback env), Some logError, None)" "processed w = partOf t (fl_order f)"
    using ok [of t] assms(3) by auto
  have w': "worker_inv w'" "callbacksOf w' = callbacksOf w"
    using worker_step_inv [OF _ assms(4)] worker_step_effect [OF assms(4)] w(1) by simp_all
  note move = worker_move [OF assms(4,5) w(2)]
  have "map_option pc (fl_workers f' t') = map_option pc (fl_workers f t')" if b: "fl_inside f t' \<noteq> None" for t'
  proof (cases "t' = t")
    case True
    then obtain m where "pc w = Received m" using storedOk_inside [OF assms(2) b] assms(3) by auto
    with worker_step_received [OF assms(4), of m] w(1) assms(3,5) True show ?thesis by (simp add: f')
  qed (simp add: f')
  with storedOk_sameStore [OF assms(2), of f'] move(1) have "storedOk env d0 f'" by (simp add: f')
  moreover have "workerOk env (workers (fl_service f') t') (partOf t' (fl_order f')) (fl_workers f' t')" for t'
    using ok [of t'] ok [of t] assms(3,5) w w' move(2) by (cases "t' = t") (auto simp: f')
  ultimately show ?thesis by (simp add: workersOk_def)
qed

text \<open>What a call does to the workers: nothing, until it returns.\<close>

lemma workersOk_same:
  "workersOk env f \<Longrightarrow> workers (fl_service f') = workers (fl_service f) \<Longrightarrow> fl_order f' = fl_order f \<Longrightarrow>
    fl_workers f' = fl_workers f \<Longrightarrow> workersOk env f'"
  by (simp add: workersOk_def)

lemma call_returns_workers:
  assumes "workersOk env f" and "fl_workers f t = Some w" and "pc w = Received m"
    and f': "f' = f\<lparr>fl_workers := (fl_workers f)(t \<mapsto> endCall w m), fl_inside := b, fl_order := fl_order f @ [(t, m)]\<rparr>"
  shows "workersOk env f'"
proof -
  have ok: "workerOk env (workers (fl_service f) t') (partOf t' (fl_order f)) (fl_workers f t')" for t'
    using assms(1) by (simp add: workersOk_def)
  have "worker_inv (fire w m)" using worker_step_inv [OF _ main_fire [OF assms(3)]] ok [of t] assms(2) by simp
  then have "worker_inv (endCall w m)" "callbacksOf (endCall w m) = callbacksOf w" "processed (endCall w m) = processed w @ [m]"
    by (simp_all add: endCall_def) (simp_all add: fire_def callbacksOf_def)
  with ok [of t] assms(2) have "workerOk env (workers (fl_service f) t) (partOf t (fl_order f) @ [m]) (Some (endCall w m))" by simp
  with ok have "workerOk env (workers (fl_service f) t') (partOf t' (fl_order f')) (fl_workers f' t')" for t'
    by (cases "t' = t") (simp_all add: f' partOf_def)
  then show ?thesis by (simp add: workersOk_def f')
qed

text \<open>An event leaves a worker for the topic, or has none and has closed all, or is none of the service's business.\<close>

lemma onNewTopicEvent_workers:
  "workers (onNewTopicEvent env m s) t = None \<longleftrightarrow>
    workers s t = None \<and> \<not> (t = cmValue m \<and> workers (onNewTopicEvent env m s) (cmValue m) \<noteq> None)"
proof -
  obtain err s1 where sp: "spawnLogsWorker env (cmValue m) OffsetOldest s = (err, s1)" by fastforce
  from spawnLogsWorker_effect [OF sp] sp show ?thesis
    by (cases err) (auto simp: onNewTopicEvent_def Let_def simp flip: workers_def)
qed

lemma fleetEvent_inv:
  assumes "workersOk env f" and "storedOk env d0 f"
  shows "workersOk env (fleetEvent env m f) \<and> storedOk env d0 (fleetEvent env m f)"
proof -
  let ?s = "fl_service f" and ?s' = "onNewTopicEvent env m (fl_service f)" and ?f' = "fleetEvent env m f"
  have ok: "workerOk env (workers (fl_service f) t) (partOf t (fl_order f)) (fl_workers f t)" for t
    using assms(1) by (simp add: workersOk_def)
  have "?s' = ?s" if "\<not> HasPrefix (cmValue m) (bc_topicPrefix ?s)" using that by (simp add: onNewTopicEvent_def Let_def)
  then have "workerOk env (workers ?s' t) (partOf t (fl_order f)) (fl_workers ?f' t)" for t
    using ok [of t] workerOk_stop [OF ok [of t], of "workers ?s' t"] onNewTopicEvent_workers [of env m ?s t]
      onNewTopicEvent_workers [of env m ?s "cmValue m"]
    by (auto simp: fleetEvent_def Let_def stopAll_def)
  moreover have "map_option pc (fl_workers ?f' t) = map_option pc (fl_workers f t)" if "fl_inside f t \<noteq> None" for t
  proof -
    have "fl_workers f t \<noteq> None" using storedOk_inside [OF assms(2) that] by auto
    then have "workers ?s t \<noteq> None" using ok [of t] by (cases "workers ?s t") auto
    then show ?thesis by (auto simp: fleetEvent_def Let_def stopAll_def option.map_comp comp_def)
  qed
  then have "storedOk env d0 ?f'"
    by (intro storedOk_sameStore [OF assms(2)]) (auto simp: fleetEvent_def Let_def)
  ultimately show ?thesis by (simp add: workersOk_def) (simp add: fleetEvent_def Let_def)
qed

lemma fleetRefresh_inv:
  assumes "workersOk env f" and "storedOk env d0 f"
  shows "workersOk env (fleetRefresh codec rules r f) \<and> storedOk env d0 (fleetRefresh codec rules r f)"
proof
  show "storedOk env d0 (fleetRefresh codec rules r f)"
    by (rule storedOk_frame [OF assms(2)]) (auto simp: fleetRefresh_def Let_def docsOf_def)
  show "workersOk env (fleetRefresh codec rules r f)"
    by (rule workersOk_same [OF assms(1)]) (simp_all add: fleetRefresh_def Let_def workers_def)
qed

text \<open>Closing and halting stop the workers, and leave the calls under way to return.\<close>

lemma fleet_stop_inv:
  assumes "workersOk env f" and "storedOk env d0 f" and "sameStore (fl_service f) s'"
    and "\<And>t. workers s' t = None \<longleftrightarrow> workers (fl_service f) t = None" and "ws = stopAll (fl_workers f) \<or> ws = fl_workers f"
  shows "workersOk env (f\<lparr>fl_service := s', fl_workers := ws\<rparr>) \<and> storedOk env d0 (f\<lparr>fl_service := s', fl_workers := ws\<rparr>)"
proof -
  have ok: "workerOk env (workers (fl_service f) t) (partOf t (fl_order f)) (fl_workers f t)" for t
    using assms(1) by (simp add: workersOk_def)
  have "storedOk env d0 (f\<lparr>fl_service := s', fl_workers := ws\<rparr>)"
    by (rule storedOk_sameStore [OF assms(2)]) (use assms(3,5) in \<open>auto simp: stopAll_def option.map_comp comp_def\<close>)
  moreover have "workerOk env (workers s' t) (partOf t (fl_order f)) (ws t)" for t
    using workerOk_stop [OF ok [of t] assms(4) [of t]] assms(5) by (auto simp: stopAll_def)
  ultimately show ?thesis by (simp add: workersOk_def)
qed

lemma fleet_step_inv:
  assumes "workersOk env f \<and> storedOk env d0 f" and "fleet_step env f f'"
  shows "workersOk env f' \<and> storedOk env d0 f'"
  using assms(2)
proof cases
  case (worker_moves t w w')
  with fleet_worker_inv [of env f d0 t w w' f'] assms(1) show ?thesis by blast
next
  case (call_begins t w m)
  then have "workersOk env f'"
    using assms(1) by (intro workersOk_same [of env f f']) (auto simp: beginCall_def logError_def workers_def split: sum.splits)
  with call_begins beginCall_ok [of env d0 f t w m] assms(1) show ?thesis by simp
next
  case (log_stored t c timber items goes_on s')
  have "workersOk env f'"
    using assms(1) storeLog_effect [OF log_stored(3)] by (intro workersOk_same [of env f f']) (simp_all add: log_stored turnTo_def)
  with log_stored log_stored_ok [of env d0 f t c timber items goes_on s'] assms(1) show ?thesis by simp
next
  case (call_returns t w m c)
  with call_returns_workers [of env f t w m f' "(fl_inside f)(t := None)"] call_returns_ok [of env d0 f t w m c f'] assms(1)
  show ?thesis by simp
next
  case (new_topic m)
  with fleetEvent_inv [of env f d0 m] assms(1) show ?thesis by simp
next
  case close
  with fleet_stop_inv [of env f d0 "closeConsumer env (fl_service f)" "stopAll (fl_workers f)"] assms(1) show ?thesis
    by (simp add: fleetClose_def)
next
  case (elastic_retry err)
  with fleet_stop_inv [of env f d0 "onElasticRetry err (fl_service f)" "fl_workers f"] assms(1) show ?thesis by simp
next
  case elastic_given_up
  with fleet_stop_inv [of env f d0 "onElasticMaxRetryReached env (fl_service f)"
      "if bc_isHalt (fl_service f) then fl_workers f else stopAll (fl_workers f)"] assms(1) show ?thesis
    by (simp add: fleetHalt_def)
next
  case (rules_refreshed codec rules r)
  with fleetRefresh_inv [of env f d0 codec rules r] assms(1) show ?thesis by simp
qed

interpretation fleet: state_machine "fleet_init env s" "fleet_step env"
    "\<lambda>f. workersOk env f \<and> storedOk env (docsOf s) f" for env s
proof (unfold_locales, goal_cases)
  case (1 f)
  then have f: "f = fleetOf env s" by (simp add: fleet_init_def)
  have "workerOk env (workers s t) [] (workersOf env s t)" for t
    by (cases "workers s t") (auto simp: workersOf_def)
  moreover have "topicOk env reds failed [] [] p None" for reds failed p by (simp add: topicOk_def)
  ultimately show ?case by (simp add: f fleetOf_def workersOk_def storedOk_def partOf_def)
next
  case (2 f f')
  then show ?case by (rule fleet_step_inv)
qed

text \<open>What is marked is stored, for a client that looks at one message: all its logs, as long as no error was logged.\<close>

lemma marked_stored:
  assumes "reach (fleet_init env s) (fleet_step env) f" and "fl_workers f t = Some w" and "m \<in> set (ad_marked (ad w))"
    and "bc_lastError (fl_service f) = None"
  obtains tc ds where "collectionOf env m = Inr tc" "set ds \<subseteq> set (docsOf (fl_service f))"
    "list_all2 (\<lambda>timber d. \<exists>red\<in>fl_redactors f. storedAs env red (cContext tc) timber d) (cItems tc) ds"
proof -
  note inv = fleet.inv_reach [OF assms(1)]
  let ?ms = "partOf t (fl_order f)"
  have "workerOk env (workers (fl_service f) t) ?ms (Some w)" using inv assms(2) by (metis workersOk_def)
  then have m: "m \<in> set ?ms" using assms(3) by (auto simp: worker_inv_def)
  obtain dss cur where d: "partOf t (fl_docs f) = concat dss @ cur" "list_all2 (messageDocs env (fl_redactors f)) ?ms dss"
      "list_all2 (wholeMessage env) ?ms dss"
    using inv assms(4) unfolding storedOk_def topicOk_def by blast
  from m obtain i where i: "i < length ?ms" "?ms ! i = m" by (auto simp: in_set_conv_nth)
  with d(2,3) have whole: "messageDocs env (fl_redactors f) m (dss ! i)" "wholeMessage env m (dss ! i)" "dss ! i \<in> set dss"
    by (auto simp: list_all2_conv_all_nth)
  then obtain tc where tc: "collectionOf env m = Inr tc" "length (dss ! i) = length (cItems tc)" by (auto simp: wholeMessage_def)
  have "set (dss ! i) \<subseteq> set (partOf t (fl_docs f))" using whole(3) by (auto simp: d(1))
  also have "\<dots> \<subseteq> set (docsOf (fl_service f))" using inv by (auto simp: storedOk_def partOf_def)
  finally show thesis using that [OF tc(1)] whole(1) tc by (simp add: messageDocs_def)
qed

section \<open>The consumer stores what it takes\<close>

text \<open>
  C3. The Elasticsearch consumer stores what it consumes, in order: from a successful \<open>Start\<close> on, in every
  interleaving of its workers, log by log, with one another, with new-topic events, closing, the retries of
  Elasticsearch and refreshed redaction rules, the documents handed to Elasticsearch are those of the topics
  merged. Of one topic they are, message by message in the order in which its worker claimed them, the
  documents of a prefix of the message's logs, each redacted by rules that were in force, and last those of
  the message in hand; a message is marked as consumed only after its documents. As long as no error has been
  logged, all logs of all messages before the one in hand were stored.
\<close>

theorem consumer_stores_in_order:
  assumes "reach (fleet_init env s) (fleet_step env) f"
  shows "docsOf (fl_service f) = docsOf s @ map snd (fl_docs f)
    \<and> (\<forall>t. \<exists>dss cur. partOf t (fl_docs f) = concat dss @ cur
        \<and> list_all2 (messageDocs env (fl_redactors f)) (partOf t (fl_order f)) dss
        \<and> (bc_lastError (fl_service f) = None \<longrightarrow> list_all2 (wholeMessage env) (partOf t (fl_order f)) dss)
        \<and> (cur \<noteq> [] \<longrightarrow> (\<exists>w m. fl_workers f t = Some w \<and> pc w = Received m \<and> messageDocs env (fl_redactors f) m cur)))
    \<and> (\<forall>t. (fl_workers f t = None \<longrightarrow> partOf t (fl_order f) = [])
        \<and> (\<forall>w. fl_workers f t = Some w \<longrightarrow>
            arrived w = partOf t (fl_order f) @ held (pc w) @ ad_messages (ad w)
            \<and> partOf t (fl_order f) = ad_marked (ad w) @ unmarked (pc w)))"
proof -
  note inv = fleet.inv_reach [OF assms]
  have "\<exists>dss cur. partOf t (fl_docs f) = concat dss @ cur
        \<and> list_all2 (messageDocs env (fl_redactors f)) (partOf t (fl_order f)) dss
        \<and> (bc_lastError (fl_service f) = None \<longrightarrow> list_all2 (wholeMessage env) (partOf t (fl_order f)) dss)
        \<and> (cur \<noteq> [] \<longrightarrow> (\<exists>w m. fl_workers f t = Some w \<and> pc w = Received m \<and> messageDocs env (fl_redactors f) m cur))" for t
  proof -
    have "topicOk env (fl_redactors f) (bc_lastError (fl_service f) \<noteq> None) (partOf t (fl_order f)) (partOf t (fl_docs f))
        (map_option pc (fl_workers f t)) (fl_inside f t)" using inv by (simp add: storedOk_def)
    then obtain dss cur where d: "partOf t (fl_docs f) = concat dss @ cur"
        "list_all2 (messageDocs env (fl_redactors f)) (partOf t (fl_order f)) dss"
        "bc_lastError (fl_service f) = None \<longrightarrow> list_all2 (wholeMessage env) (partOf t (fl_order f)) dss"
        "insideOk env (fl_redactors f) (bc_lastError (fl_service f) \<noteq> None) (map_option pc (fl_workers f t)) (fl_inside f t) cur"
      unfolding topicOk_def by auto
    from d(4) have "cur \<noteq> [] \<longrightarrow> (\<exists>w m. fl_workers f t = Some w \<and> pc w = Received m \<and> messageDocs env (fl_redactors f) m cur)"
      by (cases "fl_inside f t") auto
    with d show ?thesis by (intro exI [of _ dss] exI [of _ cur]) simp
  qed
  moreover have "workerOk env (workers (fl_service f) t) (partOf t (fl_order f)) (fl_workers f t)" for t
    using inv by (simp add: workersOk_def)
  then have "\<forall>t. (fl_workers f t = None \<longrightarrow> partOf t (fl_order f) = [])
        \<and> (\<forall>w. fl_workers f t = Some w \<longrightarrow>
            arrived w = partOf t (fl_order f) @ held (pc w) @ ad_messages (ad w)
            \<and> partOf t (fl_order f) = ad_marked (ad w) @ unmarked (pc w))"
    by (metis workerOk.simps worker_inv_def)
  ultimately show ?thesis using inv unfolding storedOk_def by blast
qed

text \<open>A step of a worker within the fleet that does not touch the service.\<close>

lemma reach_quiet:
  assumes "reach I (fleet_step env) f" and "fl_workers f t = Some w" and "world w = fl_service f"
    and "worker_step w w'" and "processed w' = processed w" and "world w' = world w"
  shows "\<exists>f'. reach I (fleet_step env) f' \<and> fl_workers f' t = Some w' \<and> fl_service f' = fl_service f \<and> fl_order f' = fl_order f
    \<and> fl_inside f' = fl_inside f"
proof -
  have "w\<lparr>world := fl_service f\<rparr> = w" using assms(3) by (cases w) simp
  with worker_moves [of f t w w' env] assms(2,4,5)
  have "fleet_step env f (f\<lparr>fl_service := world w', fl_workers := (fl_workers f)(t \<mapsto> w')\<rparr>)" by simp
  from reach_step [OF assms(1) this] assms(3,6) show ?thesis by auto
qed

text \<open>A message that arrives can be stored: the worker of the topic joins, claims it, stores it and marks it.\<close>

lemma worker_stores_message:
  assumes "startConsumer env s0 = Some (None, s)" and "workers s t = Some h" and "wh_running h"
    and "onStoreTimber env m s = Some (Ret s')"
  obtains f w where "reach (fleet_init env s) (fleet_step env) f" "fl_service f = s'" "fl_order f = [(t, m)]"
    "fl_workers f t = Some w" "arrived w = [m]" "ad_marked (ad w) = [m]" "pc w = Waiting"
proof -
  let ?R = "reach (fleet_init env s) (fleet_step env)"
  define w0 where "w0 = logsWorker env t s"
  define w1 where "w1 = w0\<lparr>ad := Setup (ad w0)\<rparr>"
  define w2 where "w2 = w1\<lparr>ad := (ad w1)\<lparr>ad_messages := [m]\<rparr>, arrived := [m]\<rparr>"
  define w3 where "w3 = receive w2 m []"
  note w = w3_def w2_def w1_def w0_def logsWorker_def workerStart_def receive_def Setup_def newConsumerGroupAdapter_def
  have same: "world w0 = s" "world w1 = s" "world w2 = s" "world w3 = s" "processed w0 = []" "processed w1 = []" "processed w2 = []"
    "processed w3 = []" "pc w3 = Received m" by (simp_all add: w)
  have steps: "worker_step w0 w1" "worker_step w2 w3"
    unfolding w1_def w3_def by (rule session_setup, rule main_receive) (simp_all add: w)
  have step2: "worker_step w1 w2"
    using claim [of w1 m "(ad w1)\<lparr>ad_messages := [m]\<rparr>"] by (simp add: w claimMessage_def)
  have "?R (fleetOf env s)" by (rule reach_init) (use assms(1) in \<open>auto simp: fleet_init_def\<close>)
  moreover have "fl_workers (fleetOf env s) t = Some w0" using assms(2,3) by (simp add: fleetOf_def workersOf_def w0_def)
  moreover have "fl_service (fleetOf env s) = s" "fl_order (fleetOf env s) = []" "fl_inside (fleetOf env s) = Map.empty"
    by (simp_all add: fleetOf_def)
  ultimately obtain f1 where "?R f1" "fl_workers f1 t = Some w1" "fl_service f1 = s" "fl_order f1 = []" "fl_inside f1 = Map.empty"
    using reach_quiet [of _ env "fleetOf env s" t w0 w1] steps same by auto
  then obtain f2 where "?R f2" "fl_workers f2 t = Some w2" "fl_service f2 = s" "fl_order f2 = []" "fl_inside f2 = Map.empty"
    using reach_quiet [of _ env f1 t w1 w2] step2 same by auto
  then obtain f3 where f3: "?R f3" "fl_workers f3 t = Some w3" "fl_service f3 = s" "fl_order f3 = []" "fl_inside f3 = Map.empty"
    using reach_quiet [of _ env f2 t w2 w3] steps same by auto
  have "onSuccessFunc (wk w3) = Some (storeCallback env)" by (simp add: w OnSuccess_def OnError_def NewConsumerWorker_def)
  from onStoreTimber_steps [OF f3(2) same(9) this, of s'] f3 assms(4) obtain f4 where f4:
    "(fleet_step env)\<^sup>*\<^sup>* f3 f4" "fl_workers f4 t = Some (endCall w3 m)" "fl_service f4 = s'" "fl_order f4 = [(t, m)]" by auto
  define w5 where "w5 = mark ((endCall w3 m)\<lparr>world := s'\<rparr>) m"
  have "worker_step ((endCall w3 m)\<lparr>world := s'\<rparr>) w5" unfolding w5_def by (rule main_mark) (simp add: endCall_def fire_def)
  moreover have w5: "processed w5 = processed (endCall w3 m)" "world w5 = s'" "arrived w5 = [m]" "ad_marked (ad w5) = [m]" "pc w5 = Waiting"
    by (simp_all add: w5_def mark_def MarkOffset_def endCall_def fire_def w)
  ultimately have "fleet_step env f4 (f4\<lparr>fl_service := s', fl_workers := (fl_workers f4)(t \<mapsto> w5)\<rparr>)"
    using worker_moves [of f4 t "endCall w3 m" w5 env] f4 by simp
  from reach_step [OF reach_steps [OF f4(1) f3(1)] this] that w5 f4(4) show thesis by simp
qed

text \<open>The service of the witnesses, started on a cluster with one topic of its own.\<close>

definition demo_topic_env :: "(unit, unit) consumer_env" where
  "demo_topic_env = (demo_cenv (Inr True) None (\<lambda>_. None))
     \<lparr>ce_kafka := quiet_kafka (Inr [''p_app_pb'', ''other'']),
      unmarshalCollection := (\<lambda>_. Inr \<lparr>cContext = tContext demo_log, cItems = [demo_log]\<rparr>)\<rparr>"

definition demo_started_consumer :: "(unit, unit) baritoConsumerService" where
  "demo_started_consumer = snd (the (startConsumer demo_topic_env (demo_consumer ''BulkProcessor'')))"

lemma demo_start:
  "startConsumer demo_topic_env (demo_consumer ''BulkProcessor'') = Some (None, demo_started_consumer)"
  "bc_esClient demo_started_consumer = demo_client ''BulkProcessor''" "bc_lastError demo_started_consumer = None"
  "workers demo_started_consumer ''p_app_pb'' =
    Some \<lparr>wh_topic = ''p_app_pb'', wh_group = ''group_p_app_pb'', wh_offset = OffsetNewest, wh_running = True\<rparr>"
proof -
  have "\<exists>s. startConsumer demo_topic_env (demo_consumer ''BulkProcessor'') = Some (None, s)
      \<and> bc_esClient s = demo_client ''BulkProcessor'' \<and> bc_lastError s = None
      \<and> workers s ''p_app_pb'' =
        Some \<lparr>wh_topic = ''p_app_pb'', wh_group = ''group_p_app_pb'', wh_offset = OffsetNewest, wh_running = True\<rparr>"
    by (simp add: startConsumer_def initAdmin_def retryLoop.simps makeConsumerAdmin_def demo_topic_env_def
        demo_cenv_def quiet_kafka_def NewKafkaAdmin_def initNewTopicWorker_def startEventWorker_def Topics_def RefreshTopics_def
        demo_consumer_def wantsTopic_def HasPrefix_def HasSuffix_def spawnLogsWorker_def groupFor_def workers_def Let_def)
  then show "startConsumer demo_topic_env (demo_consumer ''BulkProcessor'') = Some (None, demo_started_consumer)"
    "bc_esClient demo_started_consumer = demo_client ''BulkProcessor''" "bc_lastError demo_started_consumer = None"
    "workers demo_started_consumer ''p_app_pb'' =
      Some \<lparr>wh_topic = ''p_app_pb'', wh_group = ''group_p_app_pb'', wh_offset = OffsetNewest, wh_running = True\<rparr>"
    by (auto simp: demo_started_consumer_def)
qed

lemma demo_topic_collection:
  "collectionOf demo_topic_env demo_message = Inr \<lparr>cContext = tContext demo_log, cItems = [demo_log]\<rparr>"
  by (simp add: collectionOf_def demo_topic_env_def demo_message_def demo_cenv_def ConvertKafkaMessageToTimber_def
      TimberCollectionMessageFormat_def TimberMessageFormat_def)

lemma demo_stored:
  assumes "collectionOf demo_topic_env m = Inr \<lparr>cContext = tContext demo_log, cItems = [demo_log]\<rparr>"
  obtains s' where "onStoreTimber demo_topic_env m demo_started_consumer = Some (Ret s')" "bc_lastError s' = None"
proof -
  have "\<exists>t' c'. Store (demo_es (Inr True) None) demo_log (demo_client ''BulkProcessor'') = Some (Ret (None, t', c'))"
    by (simp add: store_defs demo_es_def demo_client_def demo_log_def)
  moreover have "ce_es demo_topic_env = demo_es (Inr True) None" by (simp add: demo_topic_env_def)
  ultimately show thesis
    using demo_start(2,3) that by (auto simp: onStoreTimber_def assms logTimber_def)
qed

lemma demo_fleet:
  assumes "collectionOf demo_topic_env m = Inr \<lparr>cContext = tContext demo_log, cItems = [demo_log]\<rparr>"
  obtains f w where "reach (fleet_init demo_topic_env demo_started_consumer) (fleet_step demo_topic_env) f"
    "bc_lastError (fl_service f) = None" "fl_order f = [(''p_app_pb'', m)]" "fl_workers f ''p_app_pb'' = Some w"
    "arrived w = [m]" "ad_marked (ad w) = [m]" "pc w = Waiting"
proof -
  obtain s' where "onStoreTimber demo_topic_env m demo_started_consumer = Some (Ret s')" "bc_lastError s' = None"
    using demo_stored [OF assms] by blast
  with worker_stores_message [OF demo_start(1,4), of m s'] that show thesis by (metis worker_handle.select_convs(4))
qed

theorem consumer_stores_in_order_witness:
  "\<exists>f w index doc. reach (fleet_init demo_topic_env demo_started_consumer) (fleet_step demo_topic_env) f
    \<and> fl_order f = [(''p_app_pb'', demo_message)] \<and> fl_workers f ''p_app_pb'' = Some w \<and> arrived w = [demo_message]
    \<and> partOf ''p_app_pb'' (fl_docs f) = [(index, doc)]"
proof -
  obtain f w where f: "reach (fleet_init demo_topic_env demo_started_consumer) (fleet_step demo_topic_env) f"
      "bc_lastError (fl_service f) = None" "fl_order f = [(''p_app_pb'', demo_message)]" "fl_workers f ''p_app_pb'' = Some w"
      "arrived w = [demo_message]" "ad_marked (ad w) = [demo_message]" "pc w = Waiting" by (rule demo_fleet [OF demo_topic_collection])
  have "partOf ''p_app_pb'' (fl_order f) = [demo_message]" by (simp add: f partOf_def)
  with spec [OF conjunct1 [OF conjunct2 [OF consumer_stores_in_order [OF f(1)]]], of "''p_app_pb''"] f(2,4,7) obtain dss cur where
      "partOf ''p_app_pb'' (fl_docs f) = concat dss @ cur" "list_all2 (wholeMessage demo_topic_env) [demo_message] dss" "cur = []"
    by auto
  then obtain index doc where "partOf ''p_app_pb'' (fl_docs f) = [(index, doc)]"
    by (auto simp: list_all2_Cons1 wholeMessage_def demo_topic_collection length_Suc_conv)
  with f show ?thesis by blast
qed

end
