(* ===== verification/File_Buffer.thy ===== *)
theory File_Buffer
  imports GCS_Output
begin

text \<open>
  The file behind the output to Google Cloud Storage: \<open>FileBuffer\<close> of \<open>flow/consumer_output_gcs.go\<close> over a
  file system, and that the text \<open>GCS_Output\<close> keeps as the buffer is what the file holds, whatever is done to
  the output and to other files. A file system maps paths to contents; what the operating system decides is a
  parameter: the name of a temporary file, how much of a write succeeds, whether a file can be opened again.
\<close>

section \<open>Files\<close>

record FileBuffer =
  fb_f :: string

record 'w file_world =
  files :: "string \<rightharpoonup> string"
  current :: "FileBuffer option"
  rest :: 'w

record 'w file_env =
  pickName :: "string \<Rightarrow> string set \<Rightarrow> 'w \<Rightarrow> (error + string) \<times> 'w"
  putBytes :: "string \<Rightarrow> string \<Rightarrow> 'w \<Rightarrow> (nat \<times> error option) \<times> 'w"
  openAgain :: "string \<Rightarrow> 'w \<Rightarrow> error option \<times> 'w"

definition NewFileBuffer :: "'w file_env \<Rightarrow> string \<Rightarrow> 'w file_world \<Rightarrow> (error + FileBuffer) \<times> 'w file_world" where
  "NewFileBuffer fe name W =
     (case pickName fe (''consumer-buffer-'' @ name) (dom (files W)) (rest W) of
        (Inl e, w1) \<Rightarrow> (Inl e, W\<lparr>rest := w1\<rparr>)
      | (Inr path, w1) \<Rightarrow> (Inr \<lparr>fb_f = path\<rparr>, W\<lparr>files := (files W)(path \<mapsto> []), rest := w1\<rparr>))"

definition FileBuffer_Write :: "'w file_env \<Rightarrow> FileBuffer \<Rightarrow> string \<Rightarrow> 'w file_world \<Rightarrow> (nat \<times> error option) \<times> 'w file_world" where
  "FileBuffer_Write fe f b W =
     (let ((n, err), w1) = putBytes fe (fb_f f) b (rest W)
      in ((n, err),
          W\<lparr>files := (case files W (fb_f f) of None \<Rightarrow> files W | Some t \<Rightarrow> (files W)(fb_f f \<mapsto> t @ take n b)), rest := w1\<rparr>))"

text \<open>\<open>copy\<close> is \<open>io.Copy\<close> into the writer, given all there is to copy. The second handle is not closed.\<close>

definition FileBuffer_WriteTo :: "'w file_env \<Rightarrow> (string \<Rightarrow> 'w \<Rightarrow> (error + int) \<times> 'w) \<Rightarrow> FileBuffer \<Rightarrow> 'w file_world \<Rightarrow>
    (error + int) \<times> 'w file_world" where
  "FileBuffer_WriteTo fe copy f W =
     (case files W (fb_f f) of
        None \<Rightarrow> (Inl (Err (''open '' @ fb_f f @ '': no such file or directory'')), W)
      | Some t \<Rightarrow>
          (case openAgain fe (fb_f f) (rest W) of
             (Some e, w1) \<Rightarrow> (Inl e, W\<lparr>rest := w1\<rparr>)
           | (None, w1) \<Rightarrow> (let (r, w2) = copy t w1 in (r, W\<lparr>rest := w2\<rparr>))))"

definition FileBuffer_Close :: "FileBuffer \<Rightarrow> 'w file_world \<Rightarrow> error option \<times> 'w file_world" where
  "FileBuffer_Close f W =
     (if files W (fb_f f) = None then Some (Err (''remove '' @ fb_f f @ '': no such file or directory'')) else None,
      W\<lparr>files := (files W)(fb_f f := None)\<rparr>)"

text \<open>
  The outside world of an output whose buffer is such a file: \<open>current\<close> is its field \<open>buffer\<close>, which is nil
  after a failed attempt to make the next file and then not used. \<open>base\<close> has the clock, the compressor and
  the object writer.
\<close>

definition liftRest :: "('w \<Rightarrow> 'x \<times> 'w) \<Rightarrow> 'w file_world \<Rightarrow> 'x \<times> 'w file_world" where
  "liftRest f W = (let (x, w1) = f (rest W) in (x, W\<lparr>rest := w1\<rparr>))"

definition fileGcs :: "'w file_env \<Rightarrow> 'w gcs_env \<Rightarrow> 'w file_world gcs_env" where
  "fileGcs fe base =
     \<lparr>WriteFile = (\<lambda>b W. case current W of None \<Rightarrow> ((0, Some (Err ''nil buffer'')), W) | Some f \<Rightarrow> FileBuffer_Write fe f b W),
      CreateTemp = (\<lambda>name W. case NewFileBuffer fe name W of
          (Inl e, W1) \<Rightarrow> (Some e, W1\<lparr>current := None\<rparr>)
        | (Inr f, W1) \<Rightarrow> (None, W1\<lparr>current := Some f\<rparr>)),
      RemoveTemp = (\<lambda>W. case current W of None \<Rightarrow> W | Some f \<Rightarrow> snd (FileBuffer_Close f W)),
      NowRFC3339 = liftRest (NowRFC3339 base),
      CopyTo = (\<lambda>enc name _ W. case current W of
          None \<Rightarrow> (Inl (Err ''nil buffer''), W)
        | Some f \<Rightarrow> FileBuffer_WriteTo fe (CopyTo base enc name) f W),
      CloseCompressor = liftRest (CloseCompressor base),
      CloseObject = liftRest (CloseObject base),
      SleepSecond = (\<lambda>W. W\<lparr>rest := SleepSecond base (rest W)\<rparr>)\<rparr>"

lemma fileGcs_simps [simp]:
  "WriteFile (fileGcs fe base) b W = (case current W of None \<Rightarrow> ((0, Some (Err ''nil buffer'')), W) | Some f \<Rightarrow> FileBuffer_Write fe f b W)"
  "RemoveTemp (fileGcs fe base) W = (case current W of None \<Rightarrow> W | Some f \<Rightarrow> snd (FileBuffer_Close f W))"
  "SleepSecond (fileGcs fe base) W = W\<lparr>rest := SleepSecond base (rest W)\<rparr>"
  by (simp_all add: fileGcs_def)

section \<open>What an output does to files\<close>

definition own :: "'w file_world \<Rightarrow> string set" where
  "own W = fb_f ` set_option (current W)"

text \<open>Other files are left alone, and not taken over.\<close>

definition leavesOthers :: "'w file_world \<Rightarrow> 'w file_world \<Rightarrow> bool" where
  "leavesOthers W W' \<longleftrightarrow> (\<forall>p\<in>dom (files W) - own W. files W' p = files W p \<and> p \<notin> own W')"

definition sameFiles :: "'w file_world \<Rightarrow> 'w file_world \<Rightarrow> bool" where
  "sameFiles W W' \<longleftrightarrow> files W' = files W \<and> current W' = current W"

text \<open>\<open>os.CreateTemp\<close> makes a new file: its documentation promises that two calls do not choose the same one.\<close>

definition freshNames :: "'w file_env \<Rightarrow> bool" where
  "freshNames fe \<longleftrightarrow> (\<forall>pat taken w path w1. pickName fe pat taken w = (Inr path, w1) \<longrightarrow> path \<notin> taken)"

lemma leavesOthers_trans [trans]: "leavesOthers W W1 \<Longrightarrow> leavesOthers W1 W2 \<Longrightarrow> leavesOthers W W2"
  unfolding leavesOthers_def by (metis (no_types, lifting) Diff_iff domIff)

lemma leavesOthers_same [simp, intro]: "sameFiles W W' \<Longrightarrow> leavesOthers W W'"
  by (auto simp: sameFiles_def leavesOthers_def own_def)

lemma sameFiles_simps [simp]:
  "sameFiles W W" "sameFiles W (W'\<lparr>rest := w\<rparr>) = sameFiles W W'" "sameFiles W (snd (liftRest f W)) "
  by (simp_all add: sameFiles_def liftRest_def split: prod.splits)

lemma leavesOthers_rest [simp]: "leavesOthers W (W'\<lparr>rest := w\<rparr>) = leavesOthers W W'"
  by (simp add: leavesOthers_def own_def)

lemma sameFiles_trans: "sameFiles W W1 \<Longrightarrow> sameFiles W1 W2 \<Longrightarrow> sameFiles W W2"
  by (simp add: sameFiles_def)

lemma liftRest_same: "liftRest f W = (x, W') \<Longrightarrow> sameFiles W W'"
  by (auto simp: liftRest_def sameFiles_def split: prod.splits)

lemma FileBuffer_WriteTo_same: "FileBuffer_WriteTo fe copy f W = (r, W') \<Longrightarrow> sameFiles W W'"
  by (auto simp: FileBuffer_WriteTo_def sameFiles_def Let_def split: option.splits prod.splits)

text \<open>The coupling: the buffer the output keeps is the contents of its file.\<close>

definition inFile :: "'w file_world GCS \<Rightarrow> bool" where
  "inFile g \<longleftrightarrow> (\<exists>f. current (g_world g) = Some f \<and> files (g_world g) (fb_f f) = Some (g_buffer g))"

lemma inFile_same: "inFile g \<Longrightarrow> sameFiles (g_world g) (g_world g') \<Longrightarrow> g_buffer g' = g_buffer g \<Longrightarrow> inFile g'"
  by (auto simp: inFile_def sameFiles_def)

lemma bufferWrite_file:
  assumes "bufferWrite (fileGcs fe base) b g = (r, g')" and "inFile g"
  shows "inFile g'" "leavesOthers (g_world g) (g_world g')"
  using assms by (auto simp: bufferWrite_def FileBuffer_Write_def inFile_def leavesOthers_def own_def Let_def split: prod.splits)

lemma OnMessage_file:
  assumes "OnMessage (fileGcs fe base) msg g = (err, g')" and "inFile g"
  shows "inFile g' \<and> leavesOthers (g_world g) (g_world g')"
proof -
  obtain r1 g1 where 1: "bufferWrite (fileGcs fe base) msg g = (r1, g1)" by fastforce
  note w1 = bufferWrite_file [OF 1 assms(2)]
  let ?g2 = "g1\<lparr>g_bytesCounter := g_bytesCounter g1 + int (fst r1)\<rparr>"
  obtain r2 g3 where 2: "bufferWrite (fileGcs fe base) [CHR 0x0A] ?g2 = (r2, g3)" by fastforce
  have "inFile ?g2" using w1(1) by (simp add: inFile_def)
  from bufferWrite_file [OF 2 this] w1(2) have "inFile g3" "leavesOthers (g_world g) (g_world g3)"
    by (auto intro: leavesOthers_trans)
  moreover have "g' = g \<or> g' = g3 \<or> g' = observeG (IncreaseConsumerCustomErrorTotalf ''gcs_buffer_full: '' (g_name g)) g"
    using assms(1) 1 2 by (auto simp: OnMessage_def Let_def split: if_splits prod.splits)
  ultimately show ?thesis using assms(2) by (auto intro: inFile_same)
qed

lemma uploadToGCS_file:
  assumes "uploadToGCS (fileGcs fe base) g = (err, g')"
  shows "sameFiles (g_world g) (g_world g')" "g_buffer g' = g_buffer g" "g_onFlushFunc g' = g_onFlushFunc g"
proof -
  let ?env = "fileGcs fe base"
  show "g_buffer g' = g_buffer g" "g_onFlushFunc g' = g_onFlushFunc g"
    using uploadToGCS_effect [OF assms] by (simp_all add: same_output_def)
  obtain now W1 where 1: "NowRFC3339 ?env (g_world g) = (now, W1)" by fastforce
  obtain r W2 where 2: "CopyTo ?env (writerFor g) (objectName g now) (g_buffer g) W1 = (r, W2)" by fastforce
  obtain ce W3 where 3: "(if g_compressor g \<noteq> [] then CloseCompressor ?env W2 else (None, W2)) = (ce, W3)" by fastforce
  obtain oe W4 where 4: "CloseObject ?env W3 = (oe, W4)" by fastforce
  have "sameFiles (g_world g) W1" "sameFiles W1 W2" "sameFiles W2 W3" "sameFiles W3 W4"
    using 1 2 3 4 by (auto simp: fileGcs_def dest: liftRest_same FileBuffer_WriteTo_same split: option.splits if_splits)
  then have "sameFiles (g_world g) W2" "sameFiles (g_world g) W3" "sameFiles (g_world g) W4"
    using sameFiles_trans by blast+
  with assms 1 2 3 4 show "sameFiles (g_world g) (g_world g')"
    by (cases r; cases ce; cases oe) (auto simp: uploadToGCS_def Let_def attempt_metric_def)
qed

text \<open>A callback of the output has nothing to do with files.\<close>

definition keepsFiles :: "('w file_world \<Rightarrow> error option \<times> 'w file_world) \<Rightarrow> bool" where
  "keepsFiles f \<longleftrightarrow> (\<forall>W. sameFiles W (snd (f W)))"

lemma afterCallbacks_file: "\<forall>f\<in>set fs. keepsFiles f \<Longrightarrow> sameFiles W (afterCallbacks fs W)"
  by (induction fs arbitrary: W) (auto simp: keepsFiles_def intro: sameFiles_trans)

lemma CreateTemp_file:
  assumes "CreateTemp (fileGcs fe base) name W = (err, W1)" and "freshNames fe"
  shows "leavesOthers W W1" "err = None \<Longrightarrow> \<exists>f. current W1 = Some f \<and> files W1 (fb_f f) = Some []"
proof -
  obtain r w1 where r: "pickName fe (''consumer-buffer-'' @ name) (dom (files W)) (rest W) = (r, w1)" by fastforce
  have fresh: "p \<notin> dom (files W)" if "r = Inr p" for p using assms(2) r that unfolding freshNames_def by metis
  have "(\<exists>p. r = Inr p \<and> err = None \<and> p \<notin> dom (files W)
      \<and> W1 = W\<lparr>files := (files W)(p \<mapsto> []), rest := w1, current := Some \<lparr>fb_f = p\<rparr>\<rparr>)
    \<or> (\<exists>e. r = Inl e \<and> err = Some e \<and> W1 = W\<lparr>rest := w1, current := None\<rparr>)"
    using assms(1) r fresh by (cases r) (simp_all add: fileGcs_def NewFileBuffer_def)
  then show "leavesOthers W W1" "err = None \<Longrightarrow> \<exists>f. current W1 = Some f \<and> files W1 (fb_f f) = Some []"
    by (auto simp: leavesOthers_def own_def)
qed

lemma recreateLoop_file:
  assumes "recreateLoop (fileGcs fe base) g = Some g'" and "freshNames fe"
  shows "inFile g' \<and> leavesOthers (g_world g) (g_world g')"
proof -
  let ?P = "\<lambda>env g g'. env = fileGcs fe base \<longrightarrow> inFile g' \<and> leavesOthers (g_world g) (g_world g')"
  have "?P (fileGcs fe base) g g'"
  proof (rule recreateLoop.raw_induct [where P = ?P, OF _ assms(1)], rule impI, goal_cases)
    case (1 loop env g g')
    obtain err W1 where W1: "CreateTemp env (g_name g) (g_world g) = (err, W1)" by fastforce
    note temp = CreateTemp_file [OF W1 [unfolded 1(3)] assms(2)]
    show ?case
    proof (cases err)
      case None
      with W1 1(2) have "g' = g\<lparr>g_buffer := [], g_world := W1\<rparr>" by simp
      with temp None show ?thesis by (simp add: inFile_def)
    next
      case (Some e)
      with 1(2) W1 have "loop env ((observeG (IncreaseConsumerCustomErrorTotalf ''gcs_buffer_recreate_failed: '' (g_name g)) g)
          \<lparr>g_world := SleepSecond env W1\<rparr>) = Some g'" by simp
      from 1(1) [OF this] 1(3) have "inFile g'" "leavesOthers W1 (g_world g')" by (auto simp: leavesOthers_def own_def)
      with temp(1) show ?thesis by (auto intro: leavesOthers_trans)
    qed
  qed
  then show ?thesis by simp
qed

lemma Flush_file:
  assumes "Flush (fileGcs fe base) g = Some g'" and "freshNames fe" and "inFile g" and "\<forall>f\<in>set (g_onFlushFunc g). keepsFiles f"
  shows "inFile g' \<and> leavesOthers (g_world g) (g_world g')"
proof -
  let ?env = "fileGcs fe base"
  obtain err g1 where up: "uploadToGCS ?env g = (err, g1)" by fastforce
  note u = uploadToGCS_file [OF up]
  let ?g2 = "callOnFlush (g_onFlushFunc g1) g1"
  have W2: "sameFiles (g_world g) (g_world ?g2)" "g_buffer ?g2 = g_buffer g"
    using callOnFlush_effect [of g1 "g_onFlushFunc g1"] u afterCallbacks_file [of "g_onFlushFunc g" "g_world g1"] assms(4)
    by (auto intro: sameFiles_trans)
  let ?g3 = "?g2\<lparr>g_world := RemoveTemp ?env (g_world ?g2), g_bytesCounter := 0\<rparr>"
  have "leavesOthers (g_world g) (g_world ?g3)"
    using W2 by (auto simp: leavesOthers_def own_def sameFiles_def FileBuffer_Close_def split: option.splits)
  then have "recreateLoop ?env ?g3 = Some g' \<Longrightarrow> ?thesis"
    using recreateLoop_file [OF _ assms(2), of base ?g3 g'] leavesOthers_trans by blast
  moreover have "g' = g \<or> g' = g1 \<or> recreateLoop ?env ?g3 = Some g'"
    using assms(1) up by (cases err) (auto simp: Flush_def resetBuffer_def split: if_splits)
  ultimately show ?thesis using assms(3) u inFile_same [of g g1] by auto
qed

section \<open>A run of an output\<close>

text \<open>
  What happens to an output: the operations of its interface, and what other parts of the program do to files
  that are not its own.
\<close>

inductive output_step :: "'w file_env \<Rightarrow> 'w gcs_env \<Rightarrow> 'w file_world GCS \<Rightarrow> 'w file_world GCS \<Rightarrow> bool"
  for fe :: "'w file_env" and base :: "'w gcs_env" where
  on_message: "OnMessage (fileGcs fe base) msg g = (err, g') \<Longrightarrow> output_step fe base g g'"
| turn: "startTurn (fileGcs fe base) tick g = Some (goes_on, g') \<Longrightarrow> output_step fe base g g'"
| stop: "stopGCS (fileGcs fe base) g = Some g' \<Longrightarrow> output_step fe base g g'"
| add_callback: "keepsFiles f \<Longrightarrow> output_step fe base g (AddOnFlushFunc f g)"

inductive file_step :: "'w file_env \<Rightarrow> 'w gcs_env \<Rightarrow> 'w file_world GCS \<Rightarrow> 'w file_world GCS \<Rightarrow> bool"
  for fe :: "'w file_env" and base :: "'w gcs_env" where
  of_output: "output_step fe base g g' \<Longrightarrow> file_step fe base g g'"
| of_others: "current W' = current (g_world g) \<Longrightarrow> \<forall>p\<in>own (g_world g). files W' p = files (g_world g) p \<Longrightarrow>
    file_step fe base g (g\<lparr>g_world := W'\<rparr>)"

definition output_init :: "'w file_env \<Rightarrow> 'w gcs_env \<Rightarrow> string \<Rightarrow> 'w file_world GCS \<Rightarrow> bool" where
  "output_init fe base name g \<longleftrightarrow> (\<exists>settings clientErr ms W. NewGCSFromEnv (fileGcs fe base) settings clientErr name ms W = Ret g)"

definition fileInv :: "'w file_world GCS \<Rightarrow> bool" where
  "fileInv g \<longleftrightarrow> inFile g \<and> (\<forall>f\<in>set (g_onFlushFunc g). keepsFiles f)"

lemma Flush_callbacks: "Flush env g = Some g' \<Longrightarrow> g_onFlushFunc g' = g_onFlushFunc g"
proof -
  assume fl: "Flush env g = Some g'"
  obtain err g1 where up: "uploadToGCS env g = (err, g1)" by fastforce
  note u = uploadToGCS_effect [OF up]
  show ?thesis
  proof (cases "g_bytesCounter g = 0 \<or> err \<noteq> None")
    case True
    with fl up u show ?thesis by (cases err) (auto simp: Flush_def same_output_def split: if_splits)
  next
    case False
    with fl up have "recreateLoop env ((callOnFlush (g_onFlushFunc g1) g1)
        \<lparr>g_world := RemoveTemp env (g_world (callOnFlush (g_onFlushFunc g1) g1)), g_bytesCounter := 0\<rparr>) = Some g'"
      by (simp add: Flush_def resetBuffer_def)
    from recreateLoop_effect [OF this] callOnFlush_effect [of g1 "g_onFlushFunc g1"] u show ?thesis by (simp add: same_output_def)
  qed
qed

lemma flush_from:
  assumes "Flush (fileGcs fe base) g1 = Some g'" and "freshNames fe" and "fileInv g"
    and "g_world g1 = g_world g" and "g_buffer g1 = g_buffer g" and "g_onFlushFunc g1 = g_onFlushFunc g"
  shows "fileInv g' \<and> leavesOthers (g_world g) (g_world g')"
proof -
  have "inFile g1" "\<forall>f\<in>set (g_onFlushFunc g1). keepsFiles f" using assms by (auto simp: fileInv_def inFile_def)
  from Flush_file [OF assms(1,2) this] Flush_callbacks [OF assms(1)] assms(3-6) show ?thesis by (simp add: fileInv_def)
qed

lemma startTurn_cases:
  assumes "startTurn env tick g = Some (b, g')"
  shows "g' = g \<or> (\<exists>f. g' = (observeG f g)\<lparr>g_world := SleepSecond env (g_world g)\<rparr>)
    \<or> (\<exists>g1 g2. Flush env g1 = Some g2 \<and> g_world g1 = g_world g \<and> g_buffer g1 = g_buffer g \<and> g_onFlushFunc g1 = g_onFlushFunc g
        \<and> (g' = g2 \<or> g' = g2\<lparr>g_world := SleepSecond env (g_world g2)\<rparr>))"
proof -
  define g1 where "g1 = observeG (SetConsumerGCSBufferSize (g_name g) (g_projectID g) (g_bucketName g) (g_bucketPath g) (g_bytesCounter g)) g"
  then have g1: "g_world g1 = g_world g" "g_buffer g1 = g_buffer g" "g_onFlushFunc g1 = g_onFlushFunc g" by simp_all
  have "g' = g \<or> g' = g1\<lparr>g_world := SleepSecond env (g_world g)\<rparr>
      \<or> (\<exists>g2. Flush env g1 = Some g2 \<and> (g' = g2 \<or> g' = g2\<lparr>g_world := SleepSecond env (g_world g2)\<rparr>))"
    using assms g1 unfolding startTurn_def Let_def g1_def [symmetric] by (cases "Flush env g1") (simp_all split: if_splits)
  with g1 g1_def show ?thesis by blast
qed

lemma output_step_file:
  assumes "output_step fe base g g'" and "freshNames fe" and "fileInv g"
  shows "fileInv g' \<and> leavesOthers (g_world g) (g_world g')"
  using assms(1)
proof cases
  case (on_message msg err)
  moreover have "g_onFlushFunc g' = g_onFlushFunc g"
    using on_message by (auto simp: OnMessage_def bufferWrite_def Let_def split: if_splits prod.splits)
  ultimately show ?thesis using OnMessage_file assms(3) unfolding fileInv_def by metis
next
  case (turn tick goes_on)
  from startTurn_cases [OF turn] consider "g' = g" | f where "g' = (observeG f g)\<lparr>g_world := SleepSecond (fileGcs fe base) (g_world g)\<rparr>"
    | g1 g2 where "Flush (fileGcs fe base) g1 = Some g2" "g_world g1 = g_world g" "g_buffer g1 = g_buffer g"
      "g_onFlushFunc g1 = g_onFlushFunc g" "g' = g2 \<or> g' = g2\<lparr>g_world := SleepSecond (fileGcs fe base) (g_world g2)\<rparr>"
    by blast
  then show ?thesis
  proof cases
    case 3
    from flush_from [OF 3(1) assms(2,3) 3(2-4)] 3(5) show ?thesis by (auto simp: fileInv_def inFile_def)
  qed (use assms(3) in \<open>auto simp: fileInv_def inFile_def\<close>)
next
  case stop
  with flush_from [OF _ assms(2,3), of base "g\<lparr>g_isStop := True\<rparr>" g'] show ?thesis by (simp add: stopGCS_def)
qed (use assms(3) in \<open>auto simp: fileInv_def inFile_def AddOnFlushFunc_def\<close>)

lemma output_init_file:
  assumes "output_init fe base name g" and "freshNames fe"
  shows "fileInv g"
proof -
  from assms(1) obtain settings clientErr ms W where new: "NewGCSFromEnv (fileGcs fe base) settings clientErr name ms W = Ret g"
    by (auto simp: output_init_def)
  obtain err W1 where c: "CreateTemp (fileGcs fe base) name W = (err, W1)" by fastforce
  with new have "err = None \<and> g_world g = W1 \<and> g_buffer g = [] \<and> g_onFlushFunc g = []"
    by (cases settings; cases err) (auto simp: NewGCSFromEnv_def split: if_splits)
  with CreateTemp_file(2) [OF c assms(2)] show ?thesis by (auto simp: fileInv_def inFile_def)
qed

inductive_cases file_stepE: "file_step fe base g g'"

lemma file_step_inv: "freshNames fe \<Longrightarrow> fileInv g \<Longrightarrow> file_step fe base g g' \<Longrightarrow> fileInv g'"
  by (erule file_stepE) (auto dest: output_step_file simp: fileInv_def inFile_def own_def)

interpretation output_file: state_machine "\<lambda>g. freshNames fe \<and> output_init fe base name g" "file_step fe base"
    "\<lambda>g. freshNames fe \<and> fileInv g" for fe base name
  by unfold_locales (auto intro: output_init_file file_step_inv)

text \<open>
  C14. The buffer of an output is its file: however messages, turns of its loop, a stop, callbacks and the
  work of others on other files follow one another, what the model keeps as the buffer is what the output's
  file holds; so what is copied into an object is the whole buffer, unless the file cannot be opened. And
  whatever the output does, it leaves every file alone that is not its own, so that outputs for several
  topics do not disturb one another.
\<close>

theorem gcs_buffer_is_file:
  assumes "reach (output_init fe base name) (file_step fe base) g" and "freshNames fe"
  shows "(\<exists>f. current (g_world g) = Some f \<and> files (g_world g) (fb_f f) = Some (g_buffer g)
        \<and> (\<forall>enc obj text. CopyTo (fileGcs fe base) enc obj text (g_world g) =
            (case openAgain fe (fb_f f) (rest (g_world g)) of
               (Some e, w1) \<Rightarrow> (Inl e, (g_world g)\<lparr>rest := w1\<rparr>)
             | (None, w1) \<Rightarrow> liftRest (CopyTo base enc obj (g_buffer g)) ((g_world g)\<lparr>rest := w1\<rparr>))))
    \<and> (\<forall>g'. output_step fe base g g' \<longrightarrow>
        (\<forall>p\<in>dom (files (g_world g)) - own (g_world g). files (g_world g') p = files (g_world g) p \<and> p \<notin> own (g_world g')))"
proof -
  have inv: "fileInv g" using output_file.inv_reach [of fe base name g] assms by simp
  then obtain f where f: "current (g_world g) = Some f" "files (g_world g) (fb_f f) = Some (g_buffer g)"
    by (auto simp: fileInv_def inFile_def)
  then have "\<forall>enc obj text. CopyTo (fileGcs fe base) enc obj text (g_world g) =
            (case openAgain fe (fb_f f) (rest (g_world g)) of
               (Some e, w1) \<Rightarrow> (Inl e, (g_world g)\<lparr>rest := w1\<rparr>)
             | (None, w1) \<Rightarrow> liftRest (CopyTo base enc obj (g_buffer g)) ((g_world g)\<lparr>rest := w1\<rparr>))"
    by (simp add: fileGcs_def FileBuffer_WriteTo_def liftRest_def split: prod.splits option.splits)
  moreover have "leavesOthers (g_world g) (g_world g')" if "output_step fe base g g'" for g'
    using output_step_file [OF that assms(2) inv] by simp
  ultimately show ?thesis using f unfolding leavesOthers_def by blast
qed

definition demo_files :: "nat file_env" where
  "demo_files =
     \<lparr>pickName = (\<lambda>pat taken w. (case find (\<lambda>p. p \<notin> taken) [''/tmp/'' @ pat @ ''1'', ''/tmp/'' @ pat @ ''2''] of
          None \<Rightarrow> Inl (Err ''no name'') | Some p \<Rightarrow> Inr p, w)),
      putBytes = (\<lambda>_ b w. ((length b, None), w)), openAgain = (\<lambda>_ w. (None, w))\<rparr>"

lemma demo_files_fresh: "freshNames demo_files"
  by (auto simp: freshNames_def demo_files_def split: if_splits)

lemma demo_output:
  obtains g where "reach (output_init demo_files (demo_genv None) ''app'') (file_step demo_files (demo_genv None)) g"
    "current (g_world g) = Some \<lparr>fb_f = ''/tmp/consumer-buffer-app2''\<rparr>" "g_buffer g = [CHR ''x'', CHR 0x0A]"
    "dom (files (g_world g)) = {''/tmp/consumer-buffer-app1'', ''/tmp/consumer-buffer-app2''}"
proof -
  let ?W = "\<lparr>files = [''/tmp/consumer-buffer-app1'' \<mapsto> ''other''], current = None, rest = 0\<rparr> :: nat file_world"
  let ?st = "\<lparr>ProjectID = ''p'', BucketName = ''b'', BucketPath = ''logs'', Compressor = ''gzip'', FlushMaxBytes = 100, FlushMaxTimeSeconds = 60\<rparr>"
  let ?env = "fileGcs demo_files (demo_genv None)"
  obtain g0 where g0: "NewGCSFromEnv ?env (Inr ?st) None ''app'' [] ?W = Ret g0"
      "current (g_world g0) = Some \<lparr>fb_f = ''/tmp/consumer-buffer-app2''\<rparr>" "g_buffer g0 = []" "g_isStop g0 = False"
      "g_flushMaxBytes g0 = 100" "g_bytesCounter g0 = 0" "files (g_world g0) = (files ?W)(''/tmp/consumer-buffer-app2'' \<mapsto> [])"
    by (simp add: NewGCSFromEnv_def fileGcs_def NewFileBuffer_def demo_files_def)
  let ?g = "snd (OnMessage ?env ''x'' g0)"
  have "output_step demo_files (demo_genv None) g0 ?g" by (rule on_message [of _ _ "''x''" _ "fst (OnMessage ?env ''x'' g0)"]) simp
  then have "reach (output_init demo_files (demo_genv None) ''app'') (file_step demo_files (demo_genv None)) ?g"
    using g0(1) unfolding output_init_def by (blast intro: reach_step [where s = g0] reach_init of_output)
  moreover have "current (g_world ?g) = Some \<lparr>fb_f = ''/tmp/consumer-buffer-app2''\<rparr>" "g_buffer ?g = [CHR ''x'', CHR 0x0A]"
    "dom (files (g_world ?g)) = {''/tmp/consumer-buffer-app1'', ''/tmp/consumer-buffer-app2''}"
    using g0 by (auto simp: OnMessage_def bufferWrite_def FileBuffer_Write_def demo_files_def Let_def)
  ultimately show thesis by (rule that)
qed

theorem gcs_buffer_is_file_witness:
  "\<exists>g. reach (output_init demo_files (demo_genv None) ''app'') (file_step demo_files (demo_genv None)) g
    \<and> files (g_world g) ''/tmp/consumer-buffer-app2'' = Some [CHR ''x'', CHR 0x0A]
    \<and> files (g_world (snd (OnMessage (fileGcs demo_files (demo_genv None)) ''y'' g))) ''/tmp/consumer-buffer-app1''
      = files (g_world g) ''/tmp/consumer-buffer-app1''"
proof -
  obtain g where g: "reach (output_init demo_files (demo_genv None) ''app'') (file_step demo_files (demo_genv None)) g"
      "current (g_world g) = Some \<lparr>fb_f = ''/tmp/consumer-buffer-app2''\<rparr>" "g_buffer g = [CHR ''x'', CHR 0x0A]"
      "dom (files (g_world g)) = {''/tmp/consumer-buffer-app1'', ''/tmp/consumer-buffer-app2''}" by (rule demo_output)
  note kept = gcs_buffer_is_file [OF g(1) demo_files_fresh]
  have "output_step demo_files (demo_genv None) g (snd (OnMessage (fileGcs demo_files (demo_genv None)) ''y'' g))"
    by (rule on_message [of _ _ "''y''" _ "fst (OnMessage (fileGcs demo_files (demo_genv None)) ''y'' g)"]) simp
  moreover have "''/tmp/consumer-buffer-app1'' \<in> dom (files (g_world g)) - own (g_world g)"
    by (simp add: g own_def)
  ultimately show ?thesis using kept g by (intro exI [of _ g]) force
qed

end
