(* ===== verification/Dummy_Kafka.thy ===== *)
theory Dummy_Kafka
  imports Consumer_Service Producer_Service
begin

text \<open>
  The Kafka factory the unit tests use (\<open>flow/dummy_kafka_factory.go\<close>), and the services run on it. What the
  tests check on one set of parameters each is shown here for all: which error \<open>Start\<close> returns, and what is
  left in the service.
\<close>

section \<open>The factory\<close>

text \<open>
  A mock, made by the generated code in \<open>mock/\<close>, is the list of the calls it expects, in the order in which
  they were declared. \<open>AnyTimes\<close> allows a call as often as wanted, without it exactly one is expected.
\<close>

datatype times = Once | AnyTimes

record expected_call =
  ec_method :: string
  ec_return :: "string list option"
  ec_times :: times

type_synonym mocked = "expected_call list"

definition EXPECT :: "string \<Rightarrow> times \<Rightarrow> expected_call" where
  "EXPECT m n = \<lparr>ec_method = m, ec_return = None, ec_times = n\<rparr>"

text \<open>A pair of a result and an error; \<^const>\<open>None\<close> is nil.\<close>

record ('p, 'w) dummyKafkaFactory =
  MakeKafkaAdminFunc :: "unit \<Rightarrow> mocked option \<times> error option"
  MakeClusterConsumerFunc :: "string \<Rightarrow> string \<Rightarrow> initial_offset \<Rightarrow> mocked option \<times> error option"
  MakeSyncProducerFunc :: "unit \<Rightarrow> 'p option \<times> error option"
  MakeConsumerWorkerFunc :: "string \<Rightarrow> mocked option \<Rightarrow> 'w option"

definition NewDummyKafkaFactory :: "('p, 'w) dummyKafkaFactory" where
  "NewDummyKafkaFactory =
     \<lparr>MakeKafkaAdminFunc = (\<lambda>_. (None, None)), MakeClusterConsumerFunc = (\<lambda>groupID topic initialOffset. (None, None)),
      MakeSyncProducerFunc = (\<lambda>_. (None, None)), MakeConsumerWorkerFunc = (\<lambda>name consumer. None)\<rparr>"

definition dummyMakeKafkaAdmin :: "('p, 'w) dummyKafkaFactory \<Rightarrow> mocked option \<times> error option" where
  "dummyMakeKafkaAdmin f = MakeKafkaAdminFunc f ()"

definition dummyMakeClusterConsumer :: "('p, 'w) dummyKafkaFactory \<Rightarrow> string \<Rightarrow> string \<Rightarrow> initial_offset \<Rightarrow> mocked option \<times> error option" where
  "dummyMakeClusterConsumer f groupID topic initialOffset = MakeClusterConsumerFunc f groupID topic initialOffset"

definition dummyMakeSyncProducer :: "('p, 'w) dummyKafkaFactory \<Rightarrow> 'p option \<times> error option" where
  "dummyMakeSyncProducer f = MakeSyncProducerFunc f ()"

definition dummyMakeConsumerWorker :: "('p, 'w) dummyKafkaFactory \<Rightarrow> string \<Rightarrow> mocked option \<Rightarrow> 'w option" where
  "dummyMakeConsumerWorker f name consumer = MakeConsumerWorkerFunc f name consumer"

text \<open>
  \<open>fmt.Errorf\<close> with a text and no operands: the text itself, unless it has a percent sign; what becomes of
  the verbs of such a text is the argument \<open>verbs\<close>.
\<close>

definition Errorf :: "(string \<Rightarrow> string) \<Rightarrow> string \<Rightarrow> error" where
  "Errorf verbs errMsg = Err (if CHR ''%'' \<in> set errMsg then verbs errMsg else errMsg)"

definition Expect_MakeClusterConsumer_AlwaysError :: "(string \<Rightarrow> string) \<Rightarrow> string \<Rightarrow> ('p, 'w) dummyKafkaFactory \<Rightarrow> ('p, 'w) dummyKafkaFactory" where
  "Expect_MakeClusterConsumer_AlwaysError verbs errMsg f =
     f\<lparr>MakeClusterConsumerFunc := (\<lambda>groupID topic initialOffset. (None, Some (Errorf verbs errMsg)))\<rparr>"

definition mockClusterConsumer :: mocked where
  "mockClusterConsumer = [EXPECT ''Messages'' AnyTimes, EXPECT ''Notifications'' AnyTimes, EXPECT ''Errors'' AnyTimes, EXPECT ''Close'' AnyTimes]"

definition Expect_MakeClusterConsumer_AlwaysSuccess :: "('p, 'w) dummyKafkaFactory \<Rightarrow> ('p, 'w) dummyKafkaFactory" where
  "Expect_MakeClusterConsumer_AlwaysSuccess f =
     f\<lparr>MakeClusterConsumerFunc := (\<lambda>groupID topic initialOffset. (Some mockClusterConsumer, None))\<rparr>"

definition Expect_MakeClusterConsumer_ConsumerSpawnWorkerErrorCase ::
    "(string \<Rightarrow> string) \<Rightarrow> string \<Rightarrow> string \<Rightarrow> ('p, 'w) dummyKafkaFactory \<Rightarrow> ('p, 'w) dummyKafkaFactory" where
  "Expect_MakeClusterConsumer_ConsumerSpawnWorkerErrorCase verbs newTopicEventName errMsg f =
     f\<lparr>MakeClusterConsumerFunc := (\<lambda>groupID topic initialOffset.
         if topic = newTopicEventName then (Some mockClusterConsumer, None) else (None, Some (Errorf verbs errMsg)))\<rparr>"

definition Expect_MakeKafkaAdmin_AlwaysError :: "(string \<Rightarrow> string) \<Rightarrow> string \<Rightarrow> ('p, 'w) dummyKafkaFactory \<Rightarrow> ('p, 'w) dummyKafkaFactory" where
  "Expect_MakeKafkaAdmin_AlwaysError verbs errMsg f = f\<lparr>MakeKafkaAdminFunc := (\<lambda>_. (None, Some (Errorf verbs errMsg)))\<rparr>"

definition Expect_MakeKafkaAdmin_ConsumerServiceSuccess :: "string list \<Rightarrow> ('p, 'w) dummyKafkaFactory \<Rightarrow> ('p, 'w) dummyKafkaFactory" where
  "Expect_MakeKafkaAdmin_ConsumerServiceSuccess ts f =
     f\<lparr>MakeKafkaAdminFunc := (\<lambda>_.
         (Some [\<lparr>ec_method = ''Topics'', ec_return = Some ts, ec_times = AnyTimes\<rparr>, EXPECT ''Close'' AnyTimes], None))\<rparr>"

definition Expect_MakeKafkaAdmin_ProducerServiceSuccess :: "string list \<Rightarrow> ('p, 'w) dummyKafkaFactory \<Rightarrow> ('p, 'w) dummyKafkaFactory" where
  "Expect_MakeKafkaAdmin_ProducerServiceSuccess ts f = f\<lparr>MakeKafkaAdminFunc := (\<lambda>_. (Some [EXPECT ''Close'' Once], None))\<rparr>"

definition Expect_MakeSyncProducerFunc_AlwaysError :: "(string \<Rightarrow> string) \<Rightarrow> string \<Rightarrow> ('p, 'w) dummyKafkaFactory \<Rightarrow> ('p, 'w) dummyKafkaFactory" where
  "Expect_MakeSyncProducerFunc_AlwaysError verbs errMsg f = f\<lparr>MakeSyncProducerFunc := (\<lambda>_. (None, Some (Errorf verbs errMsg)))\<rparr>"

lemmas expectations = NewDummyKafkaFactory_def Expect_MakeClusterConsumer_AlwaysError_def Expect_MakeClusterConsumer_AlwaysSuccess_def
  Expect_MakeClusterConsumer_ConsumerSpawnWorkerErrorCase_def Expect_MakeKafkaAdmin_AlwaysError_def
  Expect_MakeKafkaAdmin_ConsumerServiceSuccess_def Expect_MakeKafkaAdmin_ProducerServiceSuccess_def
  Expect_MakeSyncProducerFunc_AlwaysError_def dummyMakeKafkaAdmin_def dummyMakeClusterConsumer_def dummyMakeSyncProducer_def

section \<open>The services on the factory\<close>

text \<open>
  Kafka as a service sees it through the factory. The topics are what a mocked admin answers; a call of
  \<open>Topics\<close> that is not expected ends the test, and here is an error.
\<close>

definition mockedTopics :: "mocked option \<Rightarrow> error + string list" where
  "mockedTopics m =
     (case find (\<lambda>c. ec_method c = ''Topics'') (case m of None \<Rightarrow> [] | Some cs \<Rightarrow> cs) of
        Some c \<Rightarrow> (case ec_return c of Some ts \<Rightarrow> Inr ts | None \<Rightarrow> Inr [])
      | None \<Rightarrow> Inl (Err ''unexpected call''))"

definition dummyKafka :: "('p, 'w) dummyKafkaFactory \<Rightarrow> 'k kafka_env \<Rightarrow> 'k kafka_env" where
  "dummyKafka f env =
     env\<lparr>NewSyncProducer := (\<lambda>k. (snd (dummyMakeSyncProducer f), k)),
         NewClient := (\<lambda>k. (case snd (dummyMakeKafkaAdmin f) of Some e \<Rightarrow> Inl e | None \<Rightarrow> Inr [], k)),
         ClientTopics := (\<lambda>k. (mockedTopics (fst (dummyMakeKafkaAdmin f)), k)),
         CloseClient := (\<lambda>k. k)\<rparr>"

definition onDummy :: "('p, 'w) dummyKafkaFactory \<Rightarrow> ('e, 'k) consumer_env \<Rightarrow> ('e, 'k) consumer_env" where
  "onDummy f env =
     env\<lparr>ce_kafka := dummyKafka f (ce_kafka env),
         NewConsumerGroup := (\<lambda>groupID topic offset k. (snd (dummyMakeClusterConsumer f groupID topic offset), k)),
         CloseConsumerGroup := (\<lambda>groupID topic k. k)\<rparr>"

lemma onDummy_simps [simp]:
  "NewConsumerGroup (onDummy f env) groupID topic offset k = (snd (dummyMakeClusterConsumer f groupID topic offset), k)"
  "CloseConsumerGroup (onDummy f env) groupID topic k = k" "NewUUID (onDummy f env) = NewUUID env"
  "ce_kafka (onDummy f env) = dummyKafka f (ce_kafka env)"
  "ClientTopics (dummyKafka f kf) k = (mockedTopics (fst (dummyMakeKafkaAdmin f)), k)"
  "CloseClient (dummyKafka f kf) k = k"
  "NewClient (dummyKafka f kf) k = (case snd (dummyMakeKafkaAdmin f) of Some e \<Rightarrow> Inl e | None \<Rightarrow> Inr [], k)"
  "NewSyncProducer (dummyKafka f kf) k = (snd (dummyMakeSyncProducer f), k)"
  by (simp_all add: onDummy_def dummyKafka_def)

text \<open>
  \<open>TestBaritConsumerService_MakeKafkaAdminError\<close>: an admin that cannot be made is tried as often as the limit
  says, then \<open>Start\<close> fails.
\<close>

lemma consumer_without_admin:
  assumes "0 < bc_kafkaMaxRetry s"
  shows "\<exists>s'. startConsumer (onDummy (Expect_MakeKafkaAdmin_AlwaysError verbs errMsg f) env) s =
    Some (Some (Concat ErrMakeAdmin ErrKafkaRetryLimitReached), s')"
proof -
  let ?env = "onDummy (Expect_MakeKafkaAdmin_AlwaysError verbs errMsg f) env"
  have "failsAt (makeConsumerAdmin ?env) (\<lambda>s. s) (sleepConsumer ?env) i s" for i
    by (simp add: failsAt_def makeConsumerAdmin_def expectations)
  with retryLoop_limit [of "nat (bc_kafkaMaxRetry s - 1)" "makeConsumerAdmin ?env" "\<lambda>s. s" "sleepConsumer ?env" s 0] assms
  show ?thesis by (simp add: startConsumer_def initAdmin_def)
qed

lemma initAdmin_on_dummy:
  assumes "snd (dummyMakeKafkaAdmin f) = None"
  shows "initAdmin (onDummy f env) s = Some (Inr (NewKafkaAdmin []), 1, s\<lparr>bc_admin := Some (NewKafkaAdmin [])\<rparr>)"
  unfolding initAdmin_def using assms
  by (subst retryLoop.simps) (simp add: makeConsumerAdmin_def)

text \<open>\<open>TestBaritoConsumerService_MakeNewTopicWorkerError\<close>: no worker for new topics, no service.\<close>

lemma consumer_without_event_worker:
  assumes "snd (dummyMakeKafkaAdmin f) = None"
  shows "\<exists>s'. startConsumer (onDummy (Expect_MakeClusterConsumer_AlwaysError verbs errMsg f) env) s =
      Some (Some (Concat ErrMakeNewTopicWorker (Errorf verbs errMsg)), s')
    \<and> bc_lastError s' = Some (Concat ErrMakeNewTopicWorker (Errorf verbs errMsg)) \<and> bc_workerMap s' = bc_workerMap s"
proof -
  let ?f = "Expect_MakeClusterConsumer_AlwaysError verbs errMsg f"
  have "snd (dummyMakeKafkaAdmin ?f) = None" "snd (dummyMakeClusterConsumer ?f g t offset) = Some (Errorf verbs errMsg)" for g t offset
    using assms by (simp_all add: expectations)
  then show ?thesis
    by (simp add: startConsumer_def initAdmin_on_dummy initNewTopicWorker_def observeC_def logError_def split: prod.splits)
qed

text \<open>\<open>TestBaritoConsumerService\<close>: on a factory that makes everything, a worker runs for each wanted topic.\<close>

lemma spawnWorkers_on_dummy:
  assumes "\<And>groupID topic. snd (dummyMakeClusterConsumer f groupID topic OffsetNewest) = None"
    and "map_of (bc_workerMap s) = Map.empty"
  shows "\<exists>s'. spawnWorkers (onDummy f env) ts s = s' \<and> bc_lastError s' = bc_lastError s
    \<and> dom (map_of (bc_workerMap s')) = {t \<in> set ts. wantsTopic s t}"
proof -
  have "bc_lastError (spawnWorkers (onDummy f env) ts u) = bc_lastError s
      \<and> dom (map_of (bc_workerMap (spawnWorkers (onDummy f env) ts u))) = dom (map_of (bc_workerMap u)) \<union> {t \<in> set ts. wantsTopic s t}"
    if "wantsTopic u = wantsTopic s" "bc_lastError u = bc_lastError s" for u
    using that
  proof (induction ts arbitrary: u)
    case (Cons t ts)
    let ?u = "snd (spawnLogsWorker (onDummy f env) t OffsetNewest u)"
    have sp: "fst (spawnLogsWorker (onDummy f env) t OffsetNewest u) = None"
      "dom (map_of (bc_workerMap ?u)) = insert t (dom (map_of (bc_workerMap u)))"
      "wantsTopic ?u = wantsTopic u" "bc_lastError ?u = bc_lastError u"
      by (simp_all add: spawnLogsWorker_def update_conv' wantsTopic_def fun_eq_iff assms(1))
    obtain v where v: "spawnLogsWorker (onDummy f env) t OffsetNewest u = (None, v)" using sp(1) by (metis prod.collapse)
    with Cons.IH [of v] Cons.IH [of u] Cons.prems sp show ?case by auto
  qed simp
  with assms(2) show ?thesis by auto
qed

lemma consumer_starts:
  assumes "map_of (bc_workerMap s) = Map.empty" and "bc_lastError s = None"
    and f: "f' = Expect_MakeClusterConsumer_AlwaysSuccess (Expect_MakeKafkaAdmin_ConsumerServiceSuccess ts f)"
  shows "\<exists>s'. startConsumer (onDummy f' env) s = Some (None, s') \<and> bc_lastError s' = None
    \<and> dom (map_of (bc_workerMap s')) = {t \<in> set ts. wantsTopic s t}"
proof -
  have ok: "snd (dummyMakeKafkaAdmin f') = None" "snd (dummyMakeClusterConsumer f' g t offset) = None"
    "mockedTopics (fst (dummyMakeKafkaAdmin f')) = Inr ts" for g t offset
    by (simp_all add: f expectations mockedTopics_def)
  obtain uuid k where uuid: "NewUUID env (bc_kafka s) = (uuid, k)" by fastforce
  define s4 where "s4 = startEventWorker (snd (initNewTopicWorker (onDummy f' env) (PrefixEventGroupID @ ''-'' @ uuid)
      (s\<lparr>bc_admin := Some (NewKafkaAdmin []), bc_kafka := k, bc_eventWorkerGroupID := PrefixEventGroupID @ ''-'' @ uuid\<rparr>)))"
  define s5 where "s5 = s4\<lparr>bc_admin := Some \<lparr>topics = ts, brokers = []\<rparr>\<rparr>"
  have "startConsumer (onDummy f' env) s = Some (None, spawnWorkers (onDummy f' env) ts s5)"
    using uuid by (cases s) (simp add: startConsumer_def initAdmin_on_dummy ok initNewTopicWorker_def Topics_def RefreshTopics_def NewKafkaAdmin_def
        s4_def s5_def startEventWorker_def)
  moreover have "map_of (bc_workerMap s5) = Map.empty" "bc_lastError s5 = None" "wantsTopic s5 = wantsTopic s"
    using assms(1,2) by (simp_all add: s5_def s4_def startEventWorker_def initNewTopicWorker_def ok wantsTopic_def fun_eq_iff)
  ultimately show ?thesis using spawnWorkers_on_dummy [of f' s5 env ts] ok by auto
qed

text \<open>
  \<open>TestProducerService_Start_ErrorMakeSyncProducer\<close>: a producer that cannot be made is tried as often as the
  limit says, then \<open>Start\<close> fails, before anything else is made.
\<close>

lemma producer_without_kafka:
  assumes "0 < kafkaMaxRetry s" and "kenv env = dummyKafka (Expect_MakeSyncProducerFunc_AlwaysError verbs errMsg f) k"
  shows "\<exists>s'. StartService env s = Some (Some (Concat ErrMakeSyncProducer ErrKafkaRetryLimitReached), s') \<and> adminOf s' = adminOf s"
proof -
  let ?mk = "MakeSyncProducer env" and ?f = "observe IncreaseProducerKafkaClientFailed" and ?z = "sleepRetry env"
  have "failsAt ?mk ?f ?z i s" for i using assms(2) by (simp add: failsAt_def MakeSyncProducer_def expectations)
  with retryLoop_limit [of "nat (kafkaMaxRetry s - 1)" ?mk ?f ?z s 0] assms(1)
  obtain s' where "initProducer env s = Some (Inl ErrKafkaRetryLimitReached, kafkaMaxRetry s, s')" by (simp add: initProducer_def)
  moreover from retryLoop_invariant [OF this [unfolded initProducer_def], of "\<lambda>v. adminOf v = adminOf s"]
  have "adminOf s' = adminOf s"
    by (auto simp: MakeSyncProducer_def observe_def sleepRetry_def split: prod.splits option.splits)
  ultimately show ?thesis by (simp add: StartService_def)
qed

end
