(* ===== verification/Command_Line.thy ===== *)
theory Command_Line
  imports Go_Prelude
begin

text \<open>
  The program's entry point, \<open>main.go\<close>: the table of its commands, the port on which metrics are exported, and
  what becomes of the error of a command. The command-line library (\<open>urfave/cli\<close>) is not part of the
  repository: running an app on arguments is the argument \<open>run\<close>. The three actions are arguments of the table;
  those of \<open>cmds/action.go\<close> are in \<open>Actions\<close>.
\<close>

definition programName :: string where
  "programName = ''barito-flow''"

definition programVersion :: string where
  "programVersion = ''0.13.5''"

definition programCommit :: string where
  "programCommit = ''N/A''"

definition programBuild :: string where
  "programBuild = ''MANUAL''"

record cli_flag =
  flag_Name :: string
  flag_Usage :: string

record 'w cli_command =
  cmd_Name :: string
  cmd_ShortName :: string
  cmd_Usage :: string
  cmd_Action :: "'w \<Rightarrow> error option \<times> 'w"
  cmd_Flags :: "cli_flag list"

text \<open>\<open>app_Before\<close> and \<open>app_CommandNotFound\<close> write to the standard error output; here they are the text written.\<close>

record 'w cli_app =
  app_Name :: string
  app_Usage :: string
  app_Version :: string
  app_Commands :: "'w cli_command list"
  app_UsageText :: string
  app_Before :: string
  app_CommandNotFound :: "string \<Rightarrow> string"

definition verboseFlag :: cli_flag where
  "verboseFlag = \<lparr>flag_Name = ''verbose, V'', flag_Usage = ''Enable verbose mode''\<rparr>"

definition app :: "('w \<Rightarrow> error option \<times> 'w) \<Rightarrow> ('w \<Rightarrow> error option \<times> 'w) \<Rightarrow> ('w \<Rightarrow> error option \<times> 'w) \<Rightarrow> 'w cli_app" where
  "app producerAction consumerAction consumerGCSAction =
     \<lparr>app_Name = programName, app_Usage = ''Provide kafka producer or consumer for Barito project'',
      app_Version = programVersion @ ''-'' @ programBuild @ ''-'' @ programCommit,
      app_Commands =
        [\<lparr>cmd_Name = ''producer'', cmd_ShortName = ''p'', cmd_Usage = ''start barito-flow as producer'',
          cmd_Action = producerAction, cmd_Flags = [verboseFlag]\<rparr>,
         \<lparr>cmd_Name = ''consumer'', cmd_ShortName = ''c'', cmd_Usage = ''start barito-flow as consumer'',
          cmd_Action = consumerAction, cmd_Flags = [verboseFlag]\<rparr>,
         \<lparr>cmd_Name = ''consumer for GCS'', cmd_ShortName = ''consumer-gcs'', cmd_Usage = ''start barito-flow as consumer for GCS'',
          cmd_Action = consumerGCSAction, cmd_Flags = [verboseFlag]\<rparr>],
      app_UsageText = ''barito-flow [commands]'',
      app_Before = programName @ '' Started. Version: '' @ programVersion @ '' Build: '' @ programBuild @ '' Commit: '' @ programCommit @ [CHR 0x0A],
      app_CommandNotFound = (\<lambda>command.
        ''Command not found: '' @ [CHR 0x27] @ command @ [CHR 0x27] @ ''. Please use '' @ [CHR 0x27] @ programName @ '' -h'' @ [CHR 0x27]
        @ '' to view usage'' @ [CHR 0x0A])\<rparr>"

text \<open>The port is taken from the environment even when the variable is set to the empty text.\<close>

definition exporterPort :: "(string \<rightharpoonup> string) \<Rightarrow> string" where
  "exporterPort lookupEnv = (case lookupEnv ''EXPORTER_PORT'' of Some port \<Rightarrow> port | None \<Rightarrow> '':8008'')"

datatype outcome = Returns | Fatal error

text \<open>The port of the metrics endpoint, how the program ends, and the world then.\<close>

definition mainProgram :: "('w cli_app \<Rightarrow> string list \<Rightarrow> 'w \<Rightarrow> error option \<times> 'w) \<Rightarrow>
    ('w \<Rightarrow> error option \<times> 'w) \<Rightarrow> ('w \<Rightarrow> error option \<times> 'w) \<Rightarrow> ('w \<Rightarrow> error option \<times> 'w) \<Rightarrow>
    (string \<rightharpoonup> string) \<Rightarrow> string list \<Rightarrow> 'w \<Rightarrow> string \<times> outcome \<times> 'w" where
  "mainProgram run producerAction consumerAction consumerGCSAction lookupEnv args w =
     (let (err, w1) = run (app producerAction consumerAction consumerGCSAction) args w
      in (exporterPort lookupEnv, case err of Some e \<Rightarrow> Fatal e | None \<Rightarrow> Returns, w1))"

section \<open>Which command runs\<close>

definition commandNames :: "'w cli_app \<Rightarrow> string list" where
  "commandNames a = concat (map (\<lambda>c. [cmd_Name c, cmd_ShortName c]) (app_Commands a))"

text \<open>No name stands for two commands, so the order of the table does not matter.\<close>

lemma commandNames_distinct: "distinct (commandNames (app p c g))"
  by (simp add: commandNames_def app_def)

text \<open>
  What the library documents of a command line without flags: the command of that name or short name runs,
  and an app whose command is not found ends without an error.
\<close>

definition runsCommands :: "('w cli_app \<Rightarrow> string list \<Rightarrow> 'w \<Rightarrow> error option \<times> 'w) \<Rightarrow> bool" where
  "runsCommands run \<longleftrightarrow> (\<forall>a prog name w.
     run a [prog, name] w =
       (case find (\<lambda>c. name \<in> {cmd_Name c, cmd_ShortName c}) (app_Commands a) of
          Some c \<Rightarrow> cmd_Action c w
        | None \<Rightarrow> (None, w)))"

text \<open>The command line decides which service runs; an error of the service is fatal, an unknown command is not.\<close>

lemma main_runs_action:
  assumes "runsCommands run"
  shows "snd (mainProgram run p c g env [prog, name] w) =
    (let (err, w1) = (if name \<in> {''producer'', ''p''} then p w else if name \<in> {''consumer'', ''c''} then c w
                      else if name \<in> {''consumer for GCS'', ''consumer-gcs''} then g w else (None, w))
     in (case err of Some e \<Rightarrow> Fatal e | None \<Rightarrow> Returns, w1))"
  using assms by (auto simp: runsCommands_def mainProgram_def app_def Let_def split: prod.splits)

end
