(* ===== verification/Spec2Isabelle.thy ===== *)
theory Spec2Isabelle
  imports Producer_Configured Producer_Concurrent Redis_Shared Consumer_Fleet File_Buffer Dummy_Kafka Command_Line
begin

text \<open>
  Barito Flow moves application logs. The producer (\<open>flow/grpc_producer.go\<close>) takes logs, called timbers, over
  gRPC, limits their rate per topic or application group and writes them to Kafka, creating and announcing
  topics as they appear. The Elasticsearch consumer (\<open>flow/barito_consumer_service.go\<close>) runs a worker per
  topic that redacts each log and stores it; the GCS consumer (\<open>flow/barito_kafka_consumer_gcs_service.go\<close>)
  collects logs in files and uploads them. The commands of \<open>cmds/\<close> build these services from environment
  variables and Consul.

  \<^bold>\<open>Conventions.\<close> Structs are records, Go maps that are iterated are association lists, machine integers
  are words where a result can wrap (\<open>int32\<close> tokens and Redis counters, \<open>int64\<close> counts and durations) and
  \<open>int\<close> elsewhere, strings are lists of bytes. A call that can panic returns \<open>'a go\<close>; an error value is
  \<open>error option\<close> or the left of a sum. Loops that need not end are \<open>partial_function (option)\<close>: the result
  \<^const>\<open>None\<close> is never returning, and the theorems on them say when they return (\<open>initProducer_retries\<close>,
  \<open>Store_waits_for_index\<close>); no fuel is used. Goroutines that share state are steps of an inductive relation
  over one state, with invariants through the locale \<open>state_machine\<close>. Kafka, Redis, Gubernator, Elasticsearch,
  Google Cloud Storage, Consul, HTTP, the file system, the clock, \<open>regexp\<close> and the codecs are parameters:
  records of functions on an arbitrary state of the outside world. What a theorem needs of them is a
  hypothesis, and every such theorem has a witness with a concrete instance.

  \<^bold>\<open>Shared theories.\<close> \<open>Go_Prelude\<close>: words, errors, panics, the retry loop, reachability and \<open>state_machine\<close>.
  \<open>Go_Strings\<close>: \<open>strings\<close> and \<open>strconv\<close> with round trips.

  \<^bold>\<open>Rate limiting.\<close> \<open>Leaky_Bucket\<close> (\<open>flow/leaky_bucket.go\<close>): the bucket refines an unbounded one; concurrent
  takes conserve tokens but can overdraw. \<open>Rate_Limiter\<close> (\<open>flow/rate_limiter.go\<close>): the locale \<open>rate_cap\<close>
  is what a client relies on between two refills; the locale \<open>window_limiter\<close>, interpreted for the local limiter
  and shown for a counting Gubernator, is a sublocale of it; the refill goroutine.
  \<open>Redis_Limiter\<close> (\<open>flow/redis_rate_limiter.go\<close>, \<open>gubernator_rate_limiter.go\<close>, \<open>dummy_rate_limiter.go\<close>): the
  bound within a window, the fallback to the local limiter, the keys that never expire, the wrap at 32 bits.
  Redis counts a refused request too, so it is a \<open>rate_cap\<close> only under a limit on the total demand.
  \<open>Redis_Shared\<close>: the limiters of several producers on one Redis, with the two commands of a call as separate steps
  that interleave; the bound holds for all of them together.

  \<^bold>\<open>Producing.\<close> \<open>Metrics\<close> (\<open>prome/prometheus_instrumentation.go\<close>): metric updates as a log of events. \<open>Convert\<close>
  (\<open>flow/convert.go\<close>): messages and documents. \<open>Kafka_Admin\<close> (\<open>flow/kafka_admin.go\<close>): the topic cache, through
  the locale \<open>topic_registry\<close>. \<open>Producer\<close> holds the state and operations of the service, \<open>Producer_Correct\<close>
  what each answer of a handler says about the calls made to Kafka, \<open>Producer_Service\<close> starting and that
  no request panics, \<open>Producer_Rate\<close> that Kafka acknowledges no more than the rate within each window.
  \<open>Producer_Configured\<close> has the same for the service that the command builds, from the start of the process,
  with the configured limiter behind the interface \<open>RateLimiter\<close>, whichever of the three it is.
  \<open>Producer_Concurrent\<close> runs the requests in parallel, one step per call of the limiter, the topic cache or Kafka: what each
  request gets, the rate, and the race for a new topic.

  \<^bold>\<open>Consuming.\<close> \<open>Consumer_Worker\<close> (\<open>flow/consumer_worker.go\<close>, the adapter of \<open>flow/kafka_factory.go\<close>): a
  message is marked after its callback, in order, and none is lost. \<open>Redact\<close> (\<open>redact/\<close>): what redaction
  leaves of a text and of a document. \<open>Elastic\<close> (\<open>flow/elastic.go\<close>, \<open>elastic_retrier.go\<close>, \<open>instrumentation.go\<close>):
  what storing a log does on every branch. \<open>Consumer_Service\<close> and \<open>Consumer_Lifecycle\<close>: storing a message,
  starting, new topics, halting. \<open>Consumer_Fleet\<close> puts the workers of all topics over the one service, interleaved
  log by log with one another and with its operations, and shows in which order what is stored. \<open>GCS_Output\<close> (\<open>flow/consumer_output_gcs.go\<close>) and \<open>GCS_Service\<close>: a flush is all
  or nothing, and a committed message is in an uploaded object. \<open>GCS_Rounds\<close> (also \<open>flow/consumer_factory.go\<close>):
  which topics have a worker after a round of the loop of \<open>Start\<close>. \<open>File_Buffer\<close>: the buffer of an output as a
  file, of which the buffer in \<open>GCS_Output\<close> is the abstraction. \<open>Dummy_Kafka\<close> (\<open>flow/dummy_kafka_factory.go\<close>): the
  services on the factory of the unit tests.

  \<^bold>\<open>Configuration.\<close> \<open>Config_Names\<close> and \<open>Config\<close> (\<open>cmds/config.go\<close>, \<open>consul.go\<close>, \<open>rate_limiter_opt_config.go\<close>): where a setting comes
  from. \<open>Actions\<close> (\<open>cmds/action.go\<close>, \<open>metric_market_callback.go\<close>): the services that the commands build, and the
  report of stored logs. \<open>Command_Line\<close> (\<open>main.go\<close>): the command table. The present theory has the path of a
  log from the producer to Elasticsearch: through one call of the consumer, and through the running consumer, where what
  is marked has been stored.

  \<^bold>\<open>Not modelled.\<close> Generated mocks (\<open>mock/\<close>; what a mock expects is a list in \<open>Dummy_Kafka\<close>), the interface
  declarations of \<open>flow/types\<close>, whose implementations are modelled, logging and log levels, the HTTP server of the
  metrics endpoint, and elapsed times in metrics. Calls of one Redis limiter do not overlap, as under its mutex,
  which the producer command always sets; the topic cache, whose slice the handlers share without a lock, is read and
  written in whole steps (a lost append is not modelled); a call of \<open>Store\<close> is one step of \<open>Consumer_Fleet\<close>, and one that never
  returns is a worker that takes no further step.
\<close>

section \<open>A log from the producer to Elasticsearch\<close>

text \<open>Kafka delivers a message as it was sent, at some offset of its topic.\<close>

definition deliveredAs :: "ProducerMessage \<Rightarrow> int \<Rightarrow> ConsumerMessage" where
  "deliveredAs pm offs = \<lparr>cmTopic = pmTopic pm, cmValue = pmValue pm, cmHeaders = pmHeaders pm, cmOffset = offs\<rparr>"

text \<open>Both sides agree on the format of a message: the consumer decodes what the producer encoded.\<close>

lemma collectionOf_single:
  assumes "unmarshalTimber cenv (fst (marshal t)) = Inr t"
  shows "collectionOf cenv (deliveredAs (ConvertTimberToKafkaMessage marshal t topic) offs) =
    Inr \<lparr>cContext = tContext t, cItems = [t]\<rparr>"
  using assms
  by (simp add: collectionOf_def deliveredAs_def ConvertTimberToKafkaMessage_def ConvertKafkaMessageToTimber_def
      TimberMessageFormat_def TimberCollectionMessageFormat_def)

lemma collectionOf_collection:
  assumes "unmarshalCollection cenv (fst (marshal tc)) = Inr tc"
  shows "collectionOf cenv (deliveredAs (ConvertTimberCollectionToKafkaMessage marshal tc topic) offs) = Inr tc"
  using assms
  by (simp add: collectionOf_def deliveredAs_def ConvertTimberCollectionToKafkaMessage_def
      ConvertKafkaMessageToTimberCollection_def)

text \<open>The log as the producer sends it, with the time of its arrival.\<close>

definition stamped :: "('l, 'k) producer_env \<Rightarrow> ('l, 'k) producerService \<Rightarrow> Timber \<Rightarrow> Timber" where
  "stamped env s t = t\<lparr>tTimestamp := fst (Now (kenv env) (kafka s))\<rparr>"

definition decodes :: "('l, 'k) producer_env \<Rightarrow> ('e, 'c) consumer_env \<Rightarrow> Timber \<Rightarrow> bool" where
  "decodes penv cenv t \<longleftrightarrow>
     unmarshalTimber cenv (fst (marshalTimber penv t)) = Inr t
     \<and> unmarshalCollection cenv (fst (marshalCollection penv \<lparr>cContext = tContext t, cItems = [t]\<rparr>)) =
       Inr \<lparr>cContext = tContext t, cItems = [t]\<rparr>"

lemma collectionOf_produced:
  assumes "decodes penv cenv (stamped penv ps t)"
  shows "collectionOf cenv (deliveredAs (produced penv ps t) offs) = Inr \<lparr>cContext = tContext t, cItems = [stamped penv ps t]\<rparr>"
  using assms collectionOf_single [of cenv "marshalTimber penv" "stamped penv ps t"]
    collectionOf_collection [of cenv "marshalCollection penv" "\<lparr>cContext = tContext t, cItems = [stamped penv ps t]\<rparr>"]
  by (simp add: decodes_def produced_def stamped_def Let_def)

lemma Produce_accepted:
  assumes "Produce env t s = Ret (Inr topic, s')"
  shows "topic = topicOf s (tContext t)" "\<exists>cs. calls s' = calls s @ cs @ [KSend (produced env s t) None]"
proof -
  have "\<not> limited env (tContext t) 1 s"
    using Produce_limited [OF assms] by (auto simp: turned_away_def)
  from Produce_admitted_effect [OF assms this] show "topic = topicOf s (tContext t)"
      "\<exists>cs. calls s' = calls s @ cs @ [KSend (produced env s t) None]"
    by (auto simp: produce_calls_def split: option.splits)
qed

lemma produced_topic: "pmTopic (produced env s t) = topicOf s (tContext t)"
  by (simp add: produced_def Let_def ConvertTimberToKafkaMessage_def ConvertTimberCollectionToKafkaMessage_def)

lemma topicOf_wanted:
  "bc_topicPrefix cs = topicPrefix ps \<Longrightarrow> bc_topicSuffix cs = topicSuffix ps \<Longrightarrow> wantsTopic cs (topicOf ps c)"
  by (simp add: wantsTopic_def topicOf_def HasPrefix_def HasSuffix_def)

text \<open>
  C8. A log that the producer accepts reaches Elasticsearch: the last message it sent for the request, of either
  format, decoded by a consumer that understands the encoding and stored without a store error, adds exactly
  one document: that of the log, with the producer's time stamp, as redacted under the log's index prefix. The message is on the topic that was answered, which a consumer with the same prefix and
  suffix subscribes to.
\<close>

theorem accepted_log_is_stored:
  assumes "Produce penv t ps = Ret (Inr topic, ps')" and "last (calls ps') = KSend pm None"
    and "decodes penv cenv (stamped penv ps t)"
    and "onStoreTimber cenv (deliveredAs pm offs) cs = Some (Ret cs')"
    and "\<forall>e. bc_lastError cs' \<noteq> Some (Concat ErrStore e)"
  shows "pmTopic pm = topic
    \<and> (bc_topicPrefix cs = topicPrefix ps \<and> bc_topicSuffix cs = topicSuffix ps \<longrightarrow> wantsTopic cs topic)
    \<and> (\<exists>index doc doc' ms ms'.
        documents (es_calls (bc_esClient cs')) = documents (es_calls (bc_esClient cs)) @ [(index, doc')]
        \<and> fst (ConvertTimberToEsDocumentString (structJson (ce_es cenv)) (stamped penv ps t)) = Inr doc
        \<and> redactor (bc_esClient cs) (GetEsIndexPrefix (tContext t)) doc ms = Ret (Inr doc', ms'))"
proof -
  let ?t = "stamped penv ps t"
  have pm: "pm = produced penv ps t" using Produce_accepted(2) [OF assms(1)] assms(2) by auto
  have "storeItems cenv (tContext t) [?t] cs = Some (Ret cs')"
    using assms(4) collectionOf_produced [OF assms(3)] by (simp add: onStoreTimber_def pm)
  from storeItems_effect [OF this] obtain ds where
      ds: "documents (es_calls (bc_esClient cs')) = documents (es_calls (bc_esClient cs)) @ ds" "length ds \<le> 1"
        "list_all2 (storedAs cenv (redactor (bc_esClient cs)) (tContext t)) (take (length ds) [?t]) ds"
        "length ds < 1 \<longrightarrow> (\<exists>e. bc_lastError cs' = Some (Concat ErrStore e))" by auto
  then obtain d where d: "ds = [d]" using assms(5) by (cases ds) auto
  have ctx: "?t\<lparr>tContext := tContext t\<rparr> = ?t" by (simp add: stamped_def)
  have "storedAs cenv (redactor (bc_esClient cs)) (tContext t) ?t d" using ds(3) d by simp
  then obtain doc ms ms' where "fst (ConvertTimberToEsDocumentString (structJson (ce_es cenv)) ?t) = Inr doc"
      "redactor (bc_esClient cs) (GetEsIndexPrefix (tContext t)) doc ms = Ret (Inr (snd d), ms')"
    unfolding storedAs_def ctx by blast
  moreover have "documents (es_calls (bc_esClient cs')) = documents (es_calls (bc_esClient cs)) @ [(fst d, snd d)]"
    using ds(1) d by simp
  moreover have "pmTopic pm = topic" "topic = topicOf ps (tContext t)"
    using Produce_accepted(1) [OF assms(1)] by (simp_all add: pm produced_topic)
  ultimately show ?thesis
    using topicOf_wanted [of cs ps "tContext t"] by (intro conjI) (blast | simp)+
qed

text \<open>The producer of the witnesses accepts the log, and the consumer of the witnesses decodes it.\<close>

lemma demo_produced:
  defines "penv \<equiv> demo_env [''p_app_pb''] (\<lambda>_. None)"
  shows "stamped penv demo_service demo_log = demo_log" "decodes penv demo_topic_env (stamped penv demo_service demo_log)"
    "\<exists>ps'. Produce penv demo_log demo_service = Ret (Inr ''p_app_pb'', ps')"
    "collectionOf demo_topic_env (deliveredAs (produced penv demo_service demo_log) 7) = Inr \<lparr>cContext = tContext demo_log, cItems = [demo_log]\<rparr>"
proof -
  have ctx: "tContext demo_log = Some (demo_context 10\<lparr>KafkaPartition := 1, AppSecret := ''s3''\<rparr>)"
    by (simp add: demo_log_def demo_context_def)
  show st: "stamped penv demo_service demo_log = demo_log"
    by (simp add: stamped_def penv_def demo_env_def quiet_kafka_def demo_log_def)
  show "decodes penv demo_topic_env (stamped penv demo_service demo_log)"
    unfolding st by (simp add: decodes_def demo_topic_env_def demo_cenv_def)
  from collectionOf_produced [OF this] show "collectionOf demo_topic_env (deliveredAs (produced penv demo_service demo_log) 7) =
      Inr \<lparr>cContext = tContext demo_log, cItems = [demo_log]\<rparr>" by (simp add: st)
  have lim: "\<not> limited penv (tContext demo_log) 1 demo_service"
    using demo_hit [of 10 1 "''p_app_pb''"] by (simp add: penv_def ctx demo_defs)
  obtain l where l: "checkLimit penv (tContext demo_log) 1 demo_service = (False, demo_service\<lparr>limiter := l\<rparr>)"
    using checkLimit_admitted [of penv "tContext demo_log" 1 demo_service] lim by auto
  show "\<exists>ps'. Produce penv demo_log demo_service = Ret (Inr ''p_app_pb'', ps')"
    unfolding Produce_def Let_def l by (simp add: ctx) (simp add: penv_def produce_defs demo_defs ctx)
qed

theorem accepted_log_is_stored_witness:
  "\<exists>ps' pm cs'. Produce (demo_env [''p_app_pb''] (\<lambda>_. None)) demo_log demo_service = Ret (Inr ''p_app_pb'', ps')
    \<and> last (calls ps') = KSend pm None
    \<and> onStoreTimber demo_topic_env (deliveredAs pm 7) demo_started_consumer = Some (Ret cs')
    \<and> (\<exists>index doc. documents (es_calls (bc_esClient cs')) = [(index, doc)])"
proof -
  let ?penv = "demo_env [''p_app_pb''] (\<lambda>_. None)" and ?pm = "produced (demo_env [''p_app_pb''] (\<lambda>_. None)) demo_service demo_log"
  obtain ps' where 1: "Produce ?penv demo_log demo_service = Ret (Inr ''p_app_pb'', ps')" using demo_produced(3) by blast
  have sent: "last (calls ps') = KSend ?pm None" using Produce_accepted(2) [OF 1] by auto
  obtain cs' where 2: "onStoreTimber demo_topic_env (deliveredAs ?pm 7) demo_started_consumer = Some (Ret cs')" "bc_lastError cs' = None"
    using demo_stored [OF demo_produced(4)] by blast
  have "documents (es_calls (bc_esClient demo_started_consumer)) = []"
    by (simp add: demo_start demo_client_def store_defs)
  with accepted_log_is_stored [OF 1 sent demo_produced(2) 2(1)] 1 sent 2 show ?thesis by fastforce
qed

text \<open>
  C6. What the consumer has committed is in Elasticsearch: of a log that the producer accepted, take the message sent
  for it, at whatever offset Kafka delivered it. In every state that the running consumer can reach, with the workers
  of all topics storing log by log in between, if the worker of a topic has marked that message and the
  service has logged no error, the log is among the documents handed to Elasticsearch, with the producer's time
  stamp and redacted, under the log's index prefix, by rules that were in force.
\<close>

theorem marked_log_is_stored:
  assumes "Produce penv t ps = Ret (Inr topic, ps')" and "last (calls ps') = KSend pm None"
    and "decodes penv cenv (stamped penv ps t)"
    and "reach (fleet_init cenv s) (fleet_step cenv) f" and "fl_workers f tp = Some w"
    and "deliveredAs pm offs \<in> set (ad_marked (ad w))" and "bc_lastError (fl_service f) = None"
  shows "\<exists>red index doc doc' ms ms'. red \<in> fl_redactors f \<and> (index, doc') \<in> set (docsOf (fl_service f))
    \<and> fst (ConvertTimberToEsDocumentString (structJson (ce_es cenv)) (stamped penv ps t)) = Inr doc
    \<and> red (GetEsIndexPrefix (tContext t)) doc ms = Ret (Inr doc', ms')"
proof -
  let ?t = "stamped penv ps t"
  have "pm = produced penv ps t" using Produce_accepted(2) [OF assms(1)] assms(2) by auto
  then have "collectionOf cenv (deliveredAs pm offs) = Inr \<lparr>cContext = tContext t, cItems = [?t]\<rparr>"
    using collectionOf_produced [OF assms(3)] by simp
  moreover obtain tc ds where ds: "collectionOf cenv (deliveredAs pm offs) = Inr tc" "set ds \<subseteq> set (docsOf (fl_service f))"
      "list_all2 (\<lambda>timber d. \<exists>red\<in>fl_redactors f. storedAs cenv red (cContext tc) timber d) (cItems tc) ds"
    by (rule marked_stored [OF assms(4-7)])
  ultimately have tc: "tc = \<lparr>cContext = tContext t, cItems = [?t]\<rparr>" by simp
  from ds(2,3) obtain red d where d: "red \<in> fl_redactors f" "d \<in> set (docsOf (fl_service f))" "storedAs cenv red (tContext t) ?t d"
    unfolding tc by (auto simp: list_all2_Cons1)
  have ctx: "?t\<lparr>tContext := tContext t\<rparr> = ?t" by (simp add: stamped_def)
  from d(3) obtain doc ms ms' where "fst (ConvertTimberToEsDocumentString (structJson (ce_es cenv)) ?t) = Inr doc"
      "red (GetEsIndexPrefix (tContext t)) doc ms = Ret (Inr (snd d), ms')"
    unfolding storedAs_def ctx by blast
  with d(1,2) show ?thesis by (metis prod.collapse)
qed

theorem marked_log_is_stored_witness:
  "\<exists>ps' pm f w. Produce (demo_env [''p_app_pb''] (\<lambda>_. None)) demo_log demo_service = Ret (Inr ''p_app_pb'', ps')
    \<and> last (calls ps') = KSend pm None
    \<and> reach (fleet_init demo_topic_env demo_started_consumer) (fleet_step demo_topic_env) f
    \<and> fl_workers f ''p_app_pb'' = Some w \<and> ad_marked (ad w) = [deliveredAs pm 7]
    \<and> docsOf (fl_service f) \<noteq> []"
proof -
  let ?penv = "demo_env [''p_app_pb''] (\<lambda>_. None)" and ?pm = "produced (demo_env [''p_app_pb''] (\<lambda>_. None)) demo_service demo_log"
  obtain ps' where 1: "Produce ?penv demo_log demo_service = Ret (Inr ''p_app_pb'', ps')" using demo_produced(3) by blast
  have sent: "last (calls ps') = KSend ?pm None" using Produce_accepted(2) [OF 1] by auto
  obtain f w where f: "reach (fleet_init demo_topic_env demo_started_consumer) (fleet_step demo_topic_env) f"
      "bc_lastError (fl_service f) = None" "fl_workers f ''p_app_pb'' = Some w" "ad_marked (ad w) = [deliveredAs ?pm 7]"
    by (rule demo_fleet [OF demo_produced(4)])
  have "deliveredAs ?pm 7 \<in> set (ad_marked (ad w))" by (simp add: f)
  from marked_log_is_stored [OF 1 sent demo_produced(2) f(1,3) this f(2)] 1 sent f show ?thesis by fastforce
qed

end
